(* ===== verification/CB_Prelude.thy ===== *)
theory CB_Prelude
  imports Main "HOL-Library.Word" "HOL-Library.Multiset"
begin

text \<open>
  Shared vocabulary of the development: the machine types of the Go code, the clock, big-endian
  byte strings (what \<open>big.Int.SetBytes\<close> and the fixed-size byte arrays of the code read and
  write), and generic facts on lists and results that several components use.
\<close>

section \<open>Types\<close>

text \<open>
  \<open>u64\<close> is Go's \<open>uint64\<close>; an \<open>int64\<close> is the same word read with \<open>sint\<close>. \<open>hash\<close> and
  \<open>addr\<close> stand for the arrays \<open>[32]byte\<close> and \<open>[20]byte\<close> behind \<open>Hash\<close> and
  \<open>Addr\<close>, as the big-endian numbers they spell. A \<open>gotime\<close> is an instant in nanoseconds
  since the epoch, the resolution of \<open>time.Time\<close>. A Go pair \<open>(v, error)\<close> is a sum whose left
  side is the error text.
\<close>

type_synonym u8 = "8 word"
type_synonym u64 = "64 word"
type_synonym hash = "256 word"
type_synonym addr = "160 word"
type_synonym gotime = int
type_synonym 'a result = "string + 'a"

abbreviation second :: int where "second \<equiv> 1000000000"
abbreviation minute :: int where "minute \<equiv> 60 * second"
abbreviation hour :: int where "hour \<equiv> 60 * minute"

named_theorems table_simps \<open>rewrite rules of the operations on the transfer table\<close>
named_theorems proc_simps \<open>rewrite rules that run an effect tree\<close>

section \<open>Big-endian bytes\<close>

text \<open>\<open>be_nat\<close> reads bytes most significant first, \<open>be_bytes k n\<close> writes the \<open>k\<close>
  low bytes of a number.\<close>

definition be_nat :: "u8 list \<Rightarrow> nat" where
  "be_nat bs = foldl (\<lambda>acc b. 256 * acc + unat b) 0 bs"

fun be_bytes :: "nat \<Rightarrow> nat \<Rightarrow> u8 list" where
  "be_bytes 0 n = []"
| "be_bytes (Suc k) n = be_bytes k (n div 256) @ [of_nat (n mod 256)]"

lemma be_nat_Nil [simp]: "be_nat [] = 0"
  by (simp add: be_nat_def)

lemma be_nat_snoc [simp]: "be_nat (bs @ [b]) = 256 * be_nat bs + unat b"
  by (simp add: be_nat_def)

lemma length_be_bytes [simp]: "length (be_bytes k n) = k"
  by (induction k arbitrary: n) auto

lemma be_nat_be_bytes: "be_nat (be_bytes k n) = n mod 256 ^ k"
proof (induction k arbitrary: n)
  case 0
  then show ?case by simp
next
  case (Suc k)
  have "unat (of_nat (n mod 256) :: u8) = n mod 256"
    by (simp add: unat_of_nat)
  then have "be_nat (be_bytes (Suc k) n) = 256 * (n div 256 mod 256 ^ k) + n mod 256"
    by (simp add: Suc.IH)
  also have "\<dots> = n mod 256 ^ Suc k"
    by (simp add: mod_mult2_eq)
  finally show ?case .
qed

lemma be_nat_less: "be_nat bs < 256 ^ length bs"
proof (induction bs rule: rev_induct)
  case Nil
  then show ?case by simp
next
  case (snoc b bs)
  have "unat b < 256" using unsigned_less [of b, where ?'a = nat] by simp
  with snoc show ?case by simp
qed

lemma be_bytes_be_nat: "be_bytes (length bs) (be_nat bs) = bs"
proof (induction bs rule: rev_induct)
  case Nil
  then show ?case by simp
next
  case (snoc b bs)
  have "unat b < 256" using unsigned_less [of b, where ?'a = nat] by simp
  then have "(256 * be_nat bs + unat b) div 256 = be_nat bs"
    and "(256 * be_nat bs + unat b) mod 256 = unat b" by simp_all
  with snoc show ?case by simp
qed

lemma be_nat_append: "be_nat (as @ bs) = be_nat as * 256 ^ length bs + be_nat bs"
  by (induction bs rule: rev_induct) (simp_all add: algebra_simps flip: append_assoc)

lemma be_nat_Cons: "be_nat (b # bs) = unat b * 256 ^ length bs + be_nat bs"
  using be_nat_append [of "[b]" bs] by (simp add: be_nat_def)

text \<open>The arrays \<open>h[:]\<close> of the code.\<close>

definition hash_bytes :: "hash \<Rightarrow> u8 list" where
  "hash_bytes h = be_bytes 32 (unat h)"

definition addr_bytes :: "addr \<Rightarrow> u8 list" where
  "addr_bytes a = be_bytes 20 (unat a)"

lemma length_hash_bytes [simp]: "length (hash_bytes h) = 32"
  by (simp add: hash_bytes_def)

lemma length_addr_bytes [simp]: "length (addr_bytes a) = 20"
  by (simp add: addr_bytes_def)

lemma of_nat_hash_bytes [simp]: "of_nat (be_nat (hash_bytes h)) = h"
  using unsigned_less [of h, where ?'a = nat] by (simp add: hash_bytes_def be_nat_be_bytes)

lemma of_nat_addr_bytes [simp]: "of_nat (be_nat (addr_bytes a)) = a"
  using unsigned_less [of a, where ?'a = nat] by (simp add: addr_bytes_def be_nat_be_bytes)

section \<open>Maps of maps\<close>

text \<open>\<open>m[c][k]\<close> of Go: indexing the nil map of a missing outer key finds nothing.\<close>

definition lookup2 :: "('c \<rightharpoonup> ('k \<rightharpoonup> 'v)) \<Rightarrow> 'c \<Rightarrow> 'k \<Rightarrow> 'v option" where
  "lookup2 m c k = (case m c of None \<Rightarrow> None | Some m' \<Rightarrow> m' k)"

text \<open>The idiom that creates the inner map on first use and stores an entry in it.\<close>

definition insert2 :: "('c \<rightharpoonup> ('k \<rightharpoonup> 'v)) \<Rightarrow> 'c \<Rightarrow> 'k \<Rightarrow> 'v \<Rightarrow> ('c \<rightharpoonup> ('k \<rightharpoonup> 'v))" where
  "insert2 m c k v =
     (case m c of Some m' \<Rightarrow> m(c \<mapsto> m'(k \<mapsto> v)) | None \<Rightarrow> m(c \<mapsto> [k \<mapsto> v]))"

lemma lookup2_empty [simp]: "lookup2 Map.empty c k = None"
  by (simp add: lookup2_def)

lemma lookup2_insert2:
  "lookup2 (insert2 m c k v) c' k' = (if c' = c \<and> k' = k then Some v else lookup2 m c' k')"
  by (auto simp: lookup2_def insert2_def split: option.splits)

lemma dom_insert2 [simp]: "dom (insert2 m c k v) = insert c (dom m)"
  by (auto simp: insert2_def split: option.splits)

section \<open>Lists updated where a predicate holds\<close>

definition update_where :: "('a \<Rightarrow> bool) \<Rightarrow> ('a \<Rightarrow> 'a) \<Rightarrow> 'a list \<Rightarrow> 'a list" where
  "update_where p f xs = map (\<lambda>x. if p x then f x else x) xs"

lemma length_update_where [simp]: "length (update_where p f xs) = length xs"
  by (simp add: update_where_def)

lemma set_update_where: "set (update_where p f xs) = {if p x then f x else x | x. x \<in> set xs}"
  by (auto simp: update_where_def)

lemma map_update_where_id:
  assumes "\<And>x. p x \<Longrightarrow> g (f x) = g x"
  shows "map g (update_where p f xs) = map g xs"
  using assms by (simp add: update_where_def)

lemma update_where_none: "(\<And>x. x \<in> set xs \<Longrightarrow> \<not> p x) \<Longrightarrow> update_where p f xs = xs"
  by (simp add: update_where_def map_idI)

lemma find_map_same:
  assumes "\<And>x. p (f x) = p x"
  shows "find p (map f xs) = map_option f (find p xs)"
  using assms by (induction xs) auto

lemma find_SomeD: "find p xs = Some x \<Longrightarrow> x \<in> set xs \<and> p x"
  by (induction xs) (auto split: if_splits)

lemma find_cong_None: "find p xs = None \<longleftrightarrow> (\<forall>x\<in>set xs. \<not> p x)"
  by (auto simp: find_None_iff)

end
