(* ===== verification/Go_Text.thy ===== *)
theory Go_Text
  imports CB_Prelude
begin

text \<open>
  The parts of Go's standard library that turn numbers and bytes into text and back, as the
  code uses them: \<open>strconv.FormatUint\<close> and \<open>ParseUint\<close>, \<open>big.Int.String\<close>, \<open>Text(16)\<close> and
  \<open>SetString\<close>, \<open>encoding/hex\<close>, and \<open>strings.Repeat\<close>, \<open>Trim\<close>, \<open>TrimSuffix\<close>,
  \<open>Join\<close>. A \<open>string\<close> is a Go string byte by byte.
\<close>

section \<open>Digits\<close>

definition digit_char :: "nat \<Rightarrow> char" where
  "digit_char d = (if d < 10 then char_of (48 + d) else char_of (87 + d))"

text \<open>\<open>fromHexChar\<close> of \<open>encoding/hex\<close>: both cases of the letters are read.\<close>

definition char_digit :: "char \<Rightarrow> nat option" where
  "char_digit c =
     (let n = of_char c in
      if 48 \<le> n \<and> n \<le> 57 then Some (n - 48)
      else if 97 \<le> n \<and> n \<le> 102 then Some (n - 87)
      else if 65 \<le> n \<and> n \<le> 70 then Some (n - 55)
      else None)"

lemma of_char_char_of_small: "n < 256 \<Longrightarrow> (of_char (char_of n) :: nat) = n"
  by simp

lemma char_digit_digit_char [simp]: "d < 16 \<Longrightarrow> char_digit (digit_char d) = Some d"
  by (auto simp: char_digit_def digit_char_def Let_def)

lemma char_digit_less: "char_digit c = Some d \<Longrightarrow> d < 16"
  by (auto simp: char_digit_def Let_def split: if_splits)

lemma digit_char_inj: "d < 16 \<Longrightarrow> e < 16 \<Longrightarrow> digit_char d = digit_char e \<Longrightarrow> d = e"
  by (metis char_digit_digit_char option.inject)

lemma digit_char_not_sign: "d < 16 \<Longrightarrow> digit_char d \<noteq> CHR ''-'' \<and> digit_char d \<noteq> CHR ''+''"
proof -
  have "char_digit CHR ''-'' = None" "char_digit CHR ''+'' = None"
    by (simp_all add: char_digit_def)
  moreover assume "d < 16"
  then have "char_digit (digit_char d) = Some d" by simp
  ultimately show ?thesis by force
qed

section \<open>Numbers in a base\<close>

text \<open>Digits of \<open>n\<close> in base \<open>b\<close>, most significant first, at least one.\<close>

fun base_text :: "nat \<Rightarrow> nat \<Rightarrow> string" where
  "base_text b n =
     (if n < b \<or> b < 2 then [digit_char n] else base_text b (n div b) @ [digit_char (n mod b)])"

declare base_text.simps [simp del]

text \<open>Reading them back; \<open>None\<close> at a character that is no digit of the base.\<close>

fun read_digits :: "nat \<Rightarrow> nat \<Rightarrow> string \<Rightarrow> nat option" where
  "read_digits b acc [] = Some acc"
| "read_digits b acc (c # cs) =
     (case char_digit c of
        None \<Rightarrow> None
      | Some d \<Rightarrow> if d < b then read_digits b (b * acc + d) cs else None)"

lemma read_digits_append:
  "read_digits b acc (xs @ ys) =
     (case read_digits b acc xs of None \<Rightarrow> None | Some a \<Rightarrow> read_digits b a ys)"
  by (induction xs arbitrary: acc) (auto split: option.splits)

lemma base_text_nonempty [simp]: "base_text b n \<noteq> []"
  by (subst base_text.simps) simp

lemma base_text_digits:
  assumes "2 \<le> b" "b \<le> 16"
  shows "\<forall>c\<in>set (base_text b n). \<exists>d<b. c = digit_char d"
  using assms
proof (induction b n rule: base_text.induct)
  case (1 b n)
  show ?case
  proof (cases "n < b")
    case True
    then show ?thesis by (subst base_text.simps) auto
  next
    case False
    with "1" have "\<forall>c\<in>set (base_text b (n div b)). \<exists>d<b. c = digit_char d" by simp
    moreover have "\<exists>d<b. digit_char (n mod b) = digit_char d"
      by (rule exI [of _ "n mod b"]) (use "1.prems" in simp)
    ultimately show ?thesis using False "1.prems"
      by (subst base_text.simps) auto
  qed
qed

lemma read_base_text:
  assumes "2 \<le> b" "b \<le> 16"
  shows "read_digits b 0 (base_text b n) = Some n"
  using assms
proof (induction b n rule: base_text.induct)
  case (1 b n)
  have m: "n mod b < b" using "1.prems" by simp
  show ?case
  proof (cases "n < b")
    case True
    with "1.prems" show ?thesis by (subst base_text.simps) simp
  next
    case False
    with "1" have "read_digits b 0 (base_text b (n div b)) = Some (n div b)" by simp
    moreover have digit: "char_digit (digit_char (n mod b)) = Some (n mod b)"
      by (rule char_digit_digit_char) (use m "1.prems" in linarith)
    ultimately show ?thesis using False m "1.prems"
      by (subst base_text.simps) (simp add: read_digits_append digit)
  qed
qed

lemma base_text_inj: "2 \<le> b \<Longrightarrow> b \<le> 16 \<Longrightarrow> base_text b m = base_text b n \<Longrightarrow> m = n"
  by (metis read_base_text option.inject)

lemma base_text_hd:
  assumes "2 \<le> b" "b \<le> 16"
  shows "hd (base_text b n) \<noteq> CHR ''-'' \<and> hd (base_text b n) \<noteq> CHR ''+''"
proof -
  have "hd (base_text b n) \<in> set (base_text b n)" by simp
  then obtain d where "d < b" "hd (base_text b n) = digit_char d"
    using base_text_digits [OF assms] by blast
  with assms(2) show ?thesis using digit_char_not_sign [of d] by simp
qed

section \<open>\<open>strconv\<close> and \<open>fmt\<close>\<close>

definition FormatUint10 :: "u64 \<Rightarrow> string" where
  "FormatUint10 n = base_text 10 (unat n)"

text \<open>\<open>ParseUint(s, 10, 64)\<close>: an empty string, a character that is no decimal digit and a value
  beyond 64 bits are errors.\<close>

definition ParseUint10 :: "string \<Rightarrow> u64 result" where
  "ParseUint10 s =
     (if s = [] then Inl ''invalid syntax''
      else case read_digits 10 0 s of
          None \<Rightarrow> Inl ''invalid syntax''
        | Some n \<Rightarrow> if n < 2 ^ 64 then Inr (of_nat n) else Inl ''value out of range'')"

lemma ParseUint10_FormatUint10: "ParseUint10 (FormatUint10 n) = Inr n"
  using unsigned_less [of n, where ?'a = nat]
  by (simp add: ParseUint10_def FormatUint10_def read_base_text)

lemma FormatUint10_inj: "FormatUint10 m = FormatUint10 n \<Longrightarrow> m = n"
  by (metis ParseUint10_FormatUint10 Inr_inject)

section \<open>\<open>math/big\<close>\<close>

text \<open>\<open>x.Text(base)\<close>; \<open>x.String()\<close> is base 10.\<close>

definition big_Text :: "nat \<Rightarrow> int \<Rightarrow> string" where
  "big_Text b i = (if i < 0 then CHR ''-'' # base_text b (nat (- i)) else base_text b (nat i))"

abbreviation big_String :: "int \<Rightarrow> string" where
  "big_String \<equiv> big_Text 10"

text \<open>\<open>z.SetString(s, 10)\<close>: an optional sign, then one or more digits to the end of the string;
  \<open>None\<close> is the result \<open>(nil, false)\<close>.\<close>

definition big_digits :: "string \<Rightarrow> nat option" where
  "big_digits s = (if s = [] then None else read_digits 10 0 s)"

definition big_SetString :: "string \<Rightarrow> int option" where
  "big_SetString s =
     (case s of
        [] \<Rightarrow> None
      | c # cs \<Rightarrow>
          if c = CHR ''-'' then map_option (\<lambda>n. - int n) (big_digits cs)
          else if c = CHR ''+'' then map_option int (big_digits cs)
          else map_option int (big_digits s))"

lemma big_SetString_String [simp]: "big_SetString (big_String i) = Some i"
proof (cases "i < 0")
  case True
  then show ?thesis
    by (simp add: big_SetString_def big_Text_def big_digits_def read_base_text)
next
  case False
  obtain c cs where ccs: "base_text 10 (nat i) = c # cs"
    by (cases "base_text 10 (nat i)") auto
  moreover have "c \<noteq> CHR ''-'' \<and> c \<noteq> CHR ''+''"
    using base_text_hd [of 10 "nat i"] ccs by simp
  moreover have "read_digits 10 0 (base_text 10 (nat i)) = Some (nat i)"
    by (rule read_base_text) simp_all
  ultimately show ?thesis using False
    by (simp add: big_SetString_def big_Text_def big_digits_def)
qed

lemma big_String_inj: "big_String i = big_String j \<longleftrightarrow> i = j"
  by (metis big_SetString_String option.inject)

text \<open>\<open>SetBytes\<close> reads an unsigned number; \<open>Div\<close> is Euclidean and panics on a zero divisor.\<close>

definition big_SetBytes :: "u8 list \<Rightarrow> int" where
  "big_SetBytes bs = int (be_nat bs)"

definition big_Div :: "int \<Rightarrow> int \<Rightarrow> int option" where
  "big_Div x y =
     (if y = 0 then None else Some (if 0 < y then x div y else - (x div (- y))))"

section \<open>\<open>encoding/hex\<close>\<close>

definition byte_hex :: "u8 \<Rightarrow> string" where
  "byte_hex b = [digit_char (unat b div 16), digit_char (unat b mod 16)]"

definition hex_EncodeToString :: "u8 list \<Rightarrow> string" where
  "hex_EncodeToString bs = concat (map byte_hex bs)"

text \<open>The bytes \<open>DecodeString\<close> returns, with the flag of its error: at a character that is no
  hex digit, or at an odd end, it stops and returns what it has decoded.\<close>

fun hex_DecodeString :: "string \<Rightarrow> u8 list \<times> bool" where
  "hex_DecodeString [] = ([], False)"
| "hex_DecodeString [c] = ([], True)"
| "hex_DecodeString (c # d # s) =
     (case (char_digit c, char_digit d) of
        (Some x, Some y) \<Rightarrow>
          (let (bs, err) = hex_DecodeString s in (of_nat (16 * x + y) # bs, err))
      | _ \<Rightarrow> ([], True))"

lemma unat_u8_less: "unat (b :: u8) < 256"
  using unsigned_less [of b, where ?'a = nat] by simp

lemma unat_nibbles: "unat (b :: u8) div 16 < 16" "unat b mod 16 < 16"
  using unat_u8_less [of b] by simp_all

lemma hex_Decode_Encode: "hex_DecodeString (hex_EncodeToString bs) = (bs, False)"
proof (induction bs)
  case Nil
  then show ?case by (simp add: hex_EncodeToString_def)
next
  case (Cons b bs)
  have "hex_DecodeString (hex_EncodeToString (b # bs)) =
      hex_DecodeString (digit_char (unat b div 16) # digit_char (unat b mod 16)
        # hex_EncodeToString bs)"
    by (simp add: hex_EncodeToString_def byte_hex_def)
  also have "\<dots> = (of_nat (16 * (unat b div 16) + unat b mod 16) # bs, False)"
    using unat_nibbles [of b] Cons.IH by simp
  finally show ?case by simp
qed

lemma length_hex_Encode [simp]: "length (hex_EncodeToString bs) = 2 * length bs"
  by (induction bs) (simp_all add: hex_EncodeToString_def byte_hex_def)

lemma hex_Encode_digits: "c \<in> set (hex_EncodeToString bs) \<Longrightarrow> \<exists>d<16. c = digit_char d"
proof (induction bs)
  case Nil
  then show ?case by (simp add: hex_EncodeToString_def)
next
  case (Cons b bs)
  have "\<exists>d<16. digit_char (unat b mod 16) = digit_char d"
    "\<exists>d<16. digit_char (unat b div 16) = digit_char d"
    using unat_nibbles [of b] by blast+
  with Cons show ?case
    by (auto simp: hex_EncodeToString_def byte_hex_def)
qed

lemma hex_Encode_inj: "hex_EncodeToString as = hex_EncodeToString bs \<Longrightarrow> as = bs"
  by (metis hex_Decode_Encode fst_conv)

lemma length_hex_Decode: "length (fst (hex_DecodeString s)) \<le> length s div 2"
  by (induction s rule: hex_DecodeString.induct) (auto split: option.splits prod.splits)

section \<open>\<open>strings\<close>\<close>

definition str_Repeat :: "string \<Rightarrow> nat \<Rightarrow> string" where
  "str_Repeat s n = concat (replicate n s)"

definition str_Trim :: "string \<Rightarrow> char \<Rightarrow> string" where
  "str_Trim s c = rev (dropWhile (\<lambda>x. x = c) (rev (dropWhile (\<lambda>x. x = c) s)))"

definition str_TrimSuffix :: "string \<Rightarrow> string \<Rightarrow> string" where
  "str_TrimSuffix s suf =
     (if length suf \<le> length s \<and> drop (length s - length suf) s = suf
      then take (length s - length suf) s else s)"

fun str_Join :: "string list \<Rightarrow> string \<Rightarrow> string" where
  "str_Join [] sep = []"
| "str_Join [x] sep = x"
| "str_Join (x # y # ys) sep = x @ sep @ str_Join (y # ys) sep"

end
