(* ===== verification/Util.thy ===== *)
theory Util
  imports Go_Text
begin

text \<open>
  \<open>src/server/util.go\<close>: bytes, hex text, hashes, addresses, signed 256-bit numbers, the
  keystore password and the configuration file. Functions of go-ethereum that the file calls are
  fields of \<open>ethlib\<close>; what its documentation says of them is \<open>eth_common_doc\<close> and
  \<open>eth_math_doc\<close>. The operating system (files, terminal, standard input) is \<open>os_env\<close>.
\<close>

section \<open>go-ethereum, as parameters\<close>

record ethlib =
  BytesToHash :: "u8 list \<Rightarrow> hash"
  BytesToAddress :: "u8 list \<Rightarrow> addr"
  HashString :: "hash \<Rightarrow> string"
  AddrString :: "addr \<Rightarrow> string"
  Keccak256 :: "u8 list \<Rightarrow> u8 list"
  U256Bytes :: "int \<Rightarrow> u8 list"
  S256 :: "int \<Rightarrow> int"

text \<open>
  \<open>common.BytesToHash\<close> and \<open>BytesToAddress\<close> copy a slice no longer than the array to its
  right end (a longer one is cropped, which the code does not rely on);
  \<open>Hash.String\<close> is \<open>0x\<close> and the lower-case hex of the bytes; \<open>Address.String\<close> is \<open>0x\<close>
  and forty hex digits of either case (the EIP-55 checksum) that spell the address.
\<close>

definition eth_common_doc :: "ethlib \<Rightarrow> bool" where
  "eth_common_doc lib \<longleftrightarrow>
     (\<forall>bs. length bs \<le> 32 \<longrightarrow> BytesToHash lib bs = of_nat (be_nat bs)) \<and>
     (\<forall>bs. length bs \<le> 20 \<longrightarrow> BytesToAddress lib bs = of_nat (be_nat bs)) \<and>
     (\<forall>h. HashString lib h = ''0x'' @ hex_EncodeToString (hash_bytes h)) \<and>
     (\<forall>a. \<exists>s. AddrString lib a = ''0x'' @ s \<and> length s = 40 \<and>
        hex_DecodeString s = (addr_bytes a, False))"

text \<open>\<open>math.U256Bytes\<close>: the 32 bytes of a number as an unsigned 256-bit word; \<open>math.S256\<close>
  reads such a word as two's complement.\<close>

definition eth_math_doc :: "ethlib \<Rightarrow> bool" where
  "eth_math_doc lib \<longleftrightarrow>
     (\<forall>i. U256Bytes lib i = be_bytes 32 (nat (i mod 2 ^ 256))) \<and>
     (\<forall>x. 0 \<le> x \<and> x < 2 ^ 256 \<longrightarrow> S256 lib x = (if x < 2 ^ 255 then x else x - 2 ^ 256))"

text \<open>A concrete instance, at which the theorems with these hypotheses are applied.\<close>

definition ref_lib :: ethlib where
  "ref_lib =
     \<lparr>BytesToHash = (\<lambda>bs. of_nat (be_nat bs)),
      BytesToAddress = (\<lambda>bs. of_nat (be_nat bs)),
      HashString = (\<lambda>h. ''0x'' @ hex_EncodeToString (hash_bytes h)),
      AddrString = (\<lambda>a. ''0x'' @ hex_EncodeToString (addr_bytes a)),
      Keccak256 = (\<lambda>bs. be_bytes 32 (be_nat bs)),
      U256Bytes = (\<lambda>i. be_bytes 32 (nat (i mod 2 ^ 256))),
      S256 = (\<lambda>x. if x < 2 ^ 255 then x else x - 2 ^ 256)\<rparr>"

lemma ref_lib_common: "eth_common_doc ref_lib"
  by (auto simp: eth_common_doc_def ref_lib_def hex_Decode_Encode intro!: exI)

lemma ref_lib_math: "eth_math_doc ref_lib"
  by (simp add: eth_math_doc_def ref_lib_def)

section \<open>Numbers\<close>

definition Bytes2Int :: "u8 list \<Rightarrow> int" where
  "Bytes2Int bs = big_SetBytes bs"

text \<open>The loop \<open>for i := 0; i <= len(hex)-2; i += 2\<close> that writes \<open>\x\<close> before each pair.\<close>

fun pb_pairs :: "string \<Rightarrow> string" where
  "pb_pairs (c # d # s) = [CHR 0x5C, CHR ''x'', c, d] @ pb_pairs s"
| "pb_pairs s = []"

definition BigInt2PbStr :: "int \<Rightarrow> string" where
  "BigInt2PbStr i =
     (let hex = big_Text 16 i;
          hex = (if length hex mod 2 = 1 then ''0'' @ hex else hex)
      in pb_pairs hex)"

definition IsNegative :: "int \<Rightarrow> bool" where
  "IsNegative i \<longleftrightarrow> sgn i = - 1"

definition SignInt256toBytes :: "ethlib \<Rightarrow> int \<Rightarrow> u8 list" where
  "SignInt256toBytes lib i = U256Bytes lib i"

definition Bytes2SignInt256 :: "ethlib \<Rightarrow> u8 list \<Rightarrow> int" where
  "Bytes2SignInt256 lib raw = S256 lib (big_SetBytes raw)"

record AmtDelta =
  AD_Id :: "32 word"
  AD_Amt :: int
  AD_Plus :: bool

section \<open>Hex and bytes\<close>

definition strip_0x :: "string \<Rightarrow> string" where
  "strip_0x s =
     (case s of a # b # r \<Rightarrow> if a = CHR ''0'' \<and> (b = CHR ''x'' \<or> b = CHR ''X'') then r else s
      | _ \<Rightarrow> s)"

definition Hex2Bytes :: "string \<Rightarrow> u8 list" where
  "Hex2Bytes s =
     (let s = strip_0x s;
          s = (if length s mod 2 = 1 then ''0'' @ s else s)
      in fst (hex_DecodeString s))"

definition Bytes2Hex :: "u8 list \<Rightarrow> string" where
  "Bytes2Hex b = hex_EncodeToString b"

definition MaxUint256 :: int where
  "MaxUint256 = big_SetBytes (Hex2Bytes (str_Repeat ''ff'' 32))"

definition Hex2Addr :: "ethlib \<Rightarrow> string \<Rightarrow> addr" where
  "Hex2Addr lib s = BytesToAddress lib (Hex2Bytes s)"

definition Addr2Hex :: "addr \<Rightarrow> string" where
  "Addr2Hex a = Bytes2Hex (addr_bytes a)"

definition Bytes2Addr :: "ethlib \<Rightarrow> u8 list \<Rightarrow> addr" where
  "Bytes2Addr lib b = BytesToAddress lib b"

definition Hex2Hash :: "ethlib \<Rightarrow> string \<Rightarrow> hash" where
  "Hex2Hash lib s = BytesToHash lib (Hex2Bytes s)"

definition Bytes2Hash :: "ethlib \<Rightarrow> u8 list \<Rightarrow> hash" where
  "Bytes2Hash lib b = BytesToHash lib b"

definition getHashLockWithPreImage :: "ethlib \<Rightarrow> hash \<Rightarrow> hash" where
  "getHashLockWithPreImage lib p = Bytes2Hash lib (Keccak256 lib (hash_bytes p))"

text \<open>\<open>rand.Read(key)\<close> fills the 32 bytes or fails.\<close>

definition getRandomPreImage :: "ethlib \<Rightarrow> u8 list result \<Rightarrow> hash result" where
  "getRandomPreImage lib r = (case r of Inl e \<Rightarrow> Inl e | Inr key \<Rightarrow> Inr (Bytes2Hash lib key))"

section \<open>Files and the keystore password\<close>

text \<open>A constant of the file that nothing reads.\<close>

definition defaultTimeLockSafeMargin :: int where
  "defaultTimeLockSafeMargin = 1200"

text \<open>What a checked error prints before the process ends with the given code, if anything.\<close>

definition chkErr :: "string option \<Rightarrow> string \<Rightarrow> (string \<times> int) option" where
  "chkErr e msg = (case e of None \<Rightarrow> None | Some err \<Rightarrow> Some (''Err: '' @ msg @ '' '' @ err, 1))"

record os_env =
  ReadFile :: "string \<Rightarrow> string result"
  StdinIsTerminal :: bool
  TerminalPassword :: "string result"
  StdinLine :: "string result"
  JsonAddress :: "string \<Rightarrow> string result"
  DecryptKey :: "string \<Rightarrow> string \<Rightarrow> unit result"

abbreviation newline :: char where "newline \<equiv> CHR 0x0A"

definition GetAddressFromKeystore :: "os_env \<Rightarrow> string \<Rightarrow> string result" where
  "GetAddressFromKeystore os ks = JsonAddress os ks"

definition ReadPassword :: "os_env \<Rightarrow> string \<Rightarrow> string \<Rightarrow> string result" where
  "ReadPassword os ks pwdDir =
     (case GetAddressFromKeystore os ks of
        Inl e \<Rightarrow> Inl e
      | Inr ksAddress \<Rightarrow>
          if pwdDir \<noteq> [] then
            (case ReadFile os pwdDir of
               Inl e \<Rightarrow> Inl e
             | Inr pwdBytes \<Rightarrow> Inr (str_Trim pwdBytes newline))
          else
            (case (if StdinIsTerminal os then
                     (case TerminalPassword os of
                        Inl e \<Rightarrow> Inl (''Cannot read password from terminal: '' @ e)
                      | Inr p \<Rightarrow> Inr p)
                   else
                     (case StdinLine os of
                        Inl e \<Rightarrow> Inl (''Cannot read password from stdin: '' @ e)
                      | Inr p \<Rightarrow> Inr (str_TrimSuffix p [newline]))) of
               Inl e \<Rightarrow> Inl e
             | Inr ksPasswordStr \<Rightarrow>
                 (case DecryptKey os ks ksPasswordStr of
                    Inl e \<Rightarrow> Inl e
                  | Inr _ \<Rightarrow> Inr ksPasswordStr)))"

text \<open>The pair \<open>(Keyjson, Passphrase)\<close>; on an error \<open>log.Fatal\<close> ends the process.\<close>

definition GetTransactorConfig :: "os_env \<Rightarrow> string \<Rightarrow> string \<Rightarrow> (string \<times> string) result" where
  "GetTransactorConfig os ks pwdDir =
     (case ReadFile os ks of
        Inl e \<Rightarrow> Inl (''read ks json err:'' @ e)
      | Inr ksjson \<Rightarrow>
          (case ReadPassword os ksjson pwdDir of
             Inl e \<Rightarrow> Inl e
           | Inr p \<Rightarrow> Inr (ksjson, p)))"

text \<open>\<open>unmarshal\<close> is \<open>protojson.UnmarshalOptions\<close> with \<open>DiscardUnknown\<close>.\<close>

definition ParseCfgFile :: "os_env \<Rightarrow> (string \<Rightarrow> 'cfg result) \<Rightarrow> string \<Rightarrow> 'cfg result" where
  "ParseCfgFile os unmarshal f =
     (case ReadFile os f of Inl e \<Rightarrow> Inl e | Inr raw \<Rightarrow> unmarshal raw)"

section \<open>Facts\<close>

lemma strip_0x_prefix [simp]:
  "strip_0x (CHR ''0'' # CHR ''x'' # s) = s" "strip_0x (CHR ''0'' # CHR ''X'' # s) = s"
  by (simp_all add: strip_0x_def)

lemma char_digit_x [simp]: "char_digit CHR ''x'' = None" "char_digit CHR ''X'' = None"
  by (simp_all add: char_digit_def)

lemma strip_0x_hex: "strip_0x (hex_EncodeToString bs) = hex_EncodeToString bs"
proof (cases bs)
  case Nil
  then show ?thesis by (simp add: strip_0x_def hex_EncodeToString_def)
next
  case (Cons b bs')
  have "char_digit (digit_char (unat b mod 16)) = Some (unat b mod 16)"
    using unat_nibbles [of b] by simp
  then have "digit_char (unat b mod 16) \<noteq> CHR ''x''" "digit_char (unat b mod 16) \<noteq> CHR ''X''"
    using char_digit_x by (metis option.distinct(1))+
  with Cons show ?thesis
    by (simp add: strip_0x_def hex_EncodeToString_def byte_hex_def)
qed

lemma Hex2Bytes_even:
  "strip_0x s = r \<Longrightarrow> even (length r) \<Longrightarrow> Hex2Bytes s = fst (hex_DecodeString r)"
  by (auto simp: Hex2Bytes_def Let_def odd_iff_mod_2_eq_one)

lemma Hex2Bytes_hex [simp]:
  "Hex2Bytes (hex_EncodeToString bs) = bs"
  "Hex2Bytes (CHR ''0'' # CHR ''x'' # hex_EncodeToString bs) = bs"
  "Hex2Bytes (CHR ''0'' # CHR ''X'' # hex_EncodeToString bs) = bs"
  by (simp_all add: Hex2Bytes_even [OF strip_0x_hex] Hex2Bytes_even [OF strip_0x_prefix(1)]
      Hex2Bytes_even [OF strip_0x_prefix(2)] hex_Decode_Encode)

lemma Hex2Hash_String:
  assumes "eth_common_doc lib"
  shows "Hex2Hash lib (HashString lib h) = h"
  using assms by (simp add: Hex2Hash_def eth_common_doc_def)

lemma Hex2Addr_String:
  assumes "eth_common_doc lib"
  shows "Hex2Addr lib (AddrString lib a) = a"
proof -
  obtain s where s: "AddrString lib a = ''0x'' @ s" "length s = 40"
      "hex_DecodeString s = (addr_bytes a, False)"
    using assms unfolding eth_common_doc_def by blast
  then have "Hex2Bytes (AddrString lib a) = addr_bytes a"
    by (simp add: Hex2Bytes_even [OF strip_0x_prefix(1)])
  with assms show ?thesis by (simp add: Hex2Addr_def eth_common_doc_def)
qed

lemma HashString_inj:
  "eth_common_doc lib \<Longrightarrow> HashString lib h = HashString lib h' \<longleftrightarrow> h = h'"
  by (metis Hex2Hash_String)

lemma HashString_nonempty: "eth_common_doc lib \<Longrightarrow> HashString lib h \<noteq> []"
  by (simp add: eth_common_doc_def)

lemma AddrString_inj:
  "eth_common_doc lib \<Longrightarrow> AddrString lib a = AddrString lib a' \<longleftrightarrow> a = a'"
  by (metis Hex2Addr_String)

lemma MaxUint256_eq: "MaxUint256 = 2 ^ 256 - 1"
proof -
  have f: "digit_char 15 = CHR ''f''" by (simp add: digit_char_def) code_simp
  have "concat (replicate n ''ff'') = hex_EncodeToString (replicate n (255 :: u8))" for n
    by (induction n) (simp_all add: hex_EncodeToString_def byte_hex_def f)
  then have "Hex2Bytes (str_Repeat ''ff'' 32) = replicate 32 (255 :: u8)"
    by (simp add: str_Repeat_def)
  moreover have "be_nat (replicate n (255 :: u8)) + 1 = 256 ^ n" for n
    by (induction n) (simp_all add: be_nat_Cons)
  then have "be_nat (replicate 32 (255 :: u8)) = 256 ^ 32 - 1"
    by (metis add_diff_cancel_right')
  ultimately show ?thesis by (simp add: MaxUint256_def big_SetBytes_def)
qed

lemma hex_Decode_value:
  assumes "\<forall>c\<in>set s. \<exists>d<16. c = digit_char d" "even (length s)"
  shows "\<exists>bs. hex_DecodeString s = (bs, False) \<and> length s = 2 * length bs \<and>
    (\<forall>acc. read_digits 16 acc s = Some (acc * 256 ^ length bs + be_nat bs))"
  using assms
proof (induction s rule: hex_DecodeString.induct)
  case 1
  then show ?case by simp
next
  case (2 c)
  then show ?case by simp
next
  case (3 c d s)
  then obtain x y where xy: "x < 16" "c = digit_char x" "y < 16" "d = digit_char y" by auto
  have "\<forall>c\<in>set s. \<exists>d<16. c = digit_char d" "even (length s)" using "3.prems" by simp_all
  with "3.IH" [OF refl, of x y] xy
  obtain bs where bs: "hex_DecodeString s = (bs, False)" "length s = 2 * length bs"
      "\<And>acc. read_digits 16 acc s = Some (acc * 256 ^ length bs + be_nat bs)"
    by auto
  have "unat (of_nat (16 * x + y) :: u8) = 16 * x + y"
    using xy by (subst unat_of_nat) simp
  then have "be_nat (of_nat (16 * x + y) # bs) = (16 * x + y) * 256 ^ length bs + be_nat bs"
    by (simp only: be_nat_Cons)
  with xy bs show ?case
    by (simp add: algebra_simps)
qed

lemma base_text_16_digits: "\<forall>c\<in>set (base_text 16 n). \<exists>d<16. c = digit_char d"
  by (rule base_text_digits) simp_all

text \<open>Reading \<open>\xHH\<close> escapes, as a text-format protobuf parser does.\<close>

fun pb_unescape :: "string \<Rightarrow> u8 list option" where
  "pb_unescape [] = Some []"
| "pb_unescape (a # b # c # d # s) =
     (if a = CHR 0x5C \<and> b = CHR ''x'' then
        (case (char_digit c, char_digit d) of
           (Some x, Some y) \<Rightarrow> map_option ((#) (of_nat (16 * x + y))) (pb_unescape s)
         | _ \<Rightarrow> None)
      else None)"
| "pb_unescape s = None"

lemma pb_unescape_pairs:
  "hex_DecodeString s = (bs, False) \<Longrightarrow> pb_unescape (pb_pairs s) = Some bs"
  by (induction s arbitrary: bs rule: hex_DecodeString.induct)
    (auto split: option.splits prod.splits)

section \<open>Properties\<close>

text \<open>
  A hash or an address written as text and read back by \<open>Hex2Hash\<close> or \<open>Hex2Addr\<close> is the
  same value. Every hash and address column of the database rests on this.
\<close>

lemma hash_addr_text_roundtrip:
  assumes "eth_common_doc lib"
  shows "Hex2Hash lib (HashString lib h) = h \<and> Hex2Addr lib (AddrString lib a) = a"
  using Hex2Hash_String [OF assms] Hex2Addr_String [OF assms] by blast

lemma hash_addr_text_roundtrip_example:
  "Hex2Hash ref_lib (HashString ref_lib 48879) = 48879 \<and>
   Hex2Addr ref_lib (AddrString ref_lib 51966) = 51966"
  by (rule hash_addr_text_roundtrip [OF ref_lib_common])

text \<open>
  C37: \<open>Hex2Bytes\<close> inverts \<open>Bytes2Hex\<close> with no prefix, with \<open>0x\<close> and with \<open>0X\<close>; an odd
  number of digits is read with a leading zero; and \<open>MaxUint256\<close>, built from hex text, is
  2 to the 256 minus 1.
\<close>

theorem Hex2Bytes_roundtrip:
  "Hex2Bytes (Bytes2Hex bs) = bs \<and> Hex2Bytes (''0x'' @ Bytes2Hex bs) = bs \<and>
   Hex2Bytes (''0X'' @ Bytes2Hex bs) = bs \<and>
   (d < 16 \<longrightarrow> Hex2Bytes (''0x'' @ digit_char d # Bytes2Hex bs) = of_nat d # bs) \<and>
   MaxUint256 = 2 ^ 256 - 1"
proof -
  have "Hex2Bytes (CHR ''0'' # CHR ''x'' # digit_char d # hex_EncodeToString bs) = of_nat d # bs"
    if "d < 16"
  proof -
    have "char_digit CHR ''0'' = Some 0" by (simp add: char_digit_def)
    with that show ?thesis
      by (simp add: Hex2Bytes_def hex_Decode_Encode)
  qed
  then show ?thesis by (simp add: Bytes2Hex_def MaxUint256_eq)
qed

theorem Hex2Bytes_roundtrip_witness: "Hex2Bytes (''0x'' @ digit_char 7 # Bytes2Hex [255]) = [7, 255]"
  using Hex2Bytes_roundtrip [of "[255]" 7] by simp

text \<open>
  Malformed hex is not refused: \<open>Hex2Bytes\<close> drops the error of \<open>hex.DecodeString\<close> and
  returns the bytes decoded before the bad character, so a mistyped address in the
  configuration silently becomes another address.
\<close>

lemma Hex2Bytes_truncates:
  assumes "char_digit c = None" "even (length (c # rest))"
  shows "Hex2Bytes (''0x'' @ Bytes2Hex bs @ c # rest) = bs"
proof -
  have "fst (hex_DecodeString (hex_EncodeToString bs @ c # rest)) = bs"
  proof (induction bs)
    case Nil
    from assms(2) obtain d r where "rest = d # r" by (cases rest) auto
    with assms(1) show ?case by (simp add: hex_EncodeToString_def)
  next
    case (Cons b bs)
    have "hex_DecodeString (hex_EncodeToString (b # bs) @ c # rest) =
        hex_DecodeString (digit_char (unat b div 16) # digit_char (unat b mod 16)
          # hex_EncodeToString bs @ c # rest)"
      by (simp add: hex_EncodeToString_def byte_hex_def)
    then show ?case
      using unat_nibbles [of b] Cons.IH by (simp split: prod.splits)
  qed
  with assms(2) show ?thesis
    by (simp add: Bytes2Hex_def Hex2Bytes_even [OF strip_0x_prefix(1)])
qed

lemma Hex2Bytes_truncates_example:
  "Hex2Bytes (''0x'' @ Bytes2Hex [18, 52] @ CHR ''g'' # ''0ff'') = [18, 52]"
  by (rule Hex2Bytes_truncates) (simp_all add: char_digit_def)

text \<open>
  C38: signed 256-bit numbers: \<open>SignInt256toBytes\<close> always gives 32 bytes, \<open>Bytes2SignInt256\<close>
  inverts it on the whole range of an \<open>int256\<close>, and it inverts \<open>Bytes2SignInt256\<close> on every
  32-byte string.
\<close>

theorem signed_int256_roundtrip:
  assumes "eth_math_doc lib"
  shows "length (SignInt256toBytes lib i) = 32 \<and>
    (- (2 ^ 255) \<le> i \<and> i < 2 ^ 255 \<longrightarrow> Bytes2SignInt256 lib (SignInt256toBytes lib i) = i) \<and>
    (length raw = 32 \<longrightarrow> SignInt256toBytes lib (Bytes2SignInt256 lib raw) = raw)"
proof -
  have U: "U256Bytes lib x = be_bytes 32 (nat (x mod 2 ^ 256))" for x
    using assms by (simp add: eth_math_doc_def)
  have S: "S256 lib x = (if x < 2 ^ 255 then x else x - 2 ^ 256)" if "0 \<le> x" "x < 2 ^ 256" for x
    using assms that by (simp add: eth_math_doc_def)
  have "Bytes2SignInt256 lib (SignInt256toBytes lib i) = i"
    if "- (2 ^ 255) \<le> i" "i < 2 ^ 255"
  proof -
    have r: "0 \<le> i mod 2 ^ 256" "i mod 2 ^ 256 < (2::int) ^ 256" by simp_all
    then have "big_SetBytes (SignInt256toBytes lib i) = i mod 2 ^ 256"
      by (simp add: SignInt256toBytes_def big_SetBytes_def U be_nat_be_bytes)
    moreover have "i mod 2 ^ 256 = (if 0 \<le> i then i else i + 2 ^ 256)"
    proof (cases "0 \<le> i")
      case True
      with that show ?thesis by simp
    next
      case False
      with that have "(i + 2 ^ 256) mod 2 ^ 256 = i + 2 ^ 256" by (intro mod_pos_pos_trivial) simp_all
      with False show ?thesis by simp
    qed
    ultimately show ?thesis
      using that S [OF r] by (auto simp: Bytes2SignInt256_def)
  qed
  moreover have "SignInt256toBytes lib (Bytes2SignInt256 lib raw) = raw" if raw: "length raw = 32"
  proof -
    let ?x = "big_SetBytes raw"
    have x: "0 \<le> ?x" "?x < 2 ^ 256"
      using be_nat_less [of raw] raw by (simp_all add: big_SetBytes_def)
    then have "Bytes2SignInt256 lib raw mod 2 ^ 256 = ?x"
      by (auto simp: Bytes2SignInt256_def S)
    then show ?thesis
      using be_bytes_be_nat [of raw] raw by (simp add: SignInt256toBytes_def U big_SetBytes_def)
  qed
  ultimately show ?thesis by (simp add: SignInt256toBytes_def U)
qed

theorem signed_int256_roundtrip_witness:
  "Bytes2SignInt256 ref_lib (SignInt256toBytes ref_lib (- 5)) = - 5"
  using signed_int256_roundtrip [OF ref_lib_math, of "- 5" "[]"] by simp

text \<open>
  \<open>BigInt2PbStr\<close> of an unsigned amount is a sequence of \<open>\xHH\<close> escapes whose bytes,
  read back by \<open>Bytes2Int\<close>, are the amount.
\<close>

lemma BigInt2PbStr_roundtrip:
  assumes "0 \<le> i"
  shows "\<exists>bs. pb_unescape (BigInt2PbStr i) = Some bs \<and> Bytes2Int bs = i"
proof -
  let ?h = "base_text 16 (nat i)"
  let ?p = "if odd (length ?h) then CHR ''0'' # ?h else ?h"
  have zero: "CHR ''0'' = digit_char 0" by (simp add: digit_char_def) code_simp
  have digits: "\<forall>c\<in>set ?p. \<exists>d<16. c = digit_char d"
    using base_text_16_digits [of "nat i"] by (auto simp: zero intro: exI [of _ "0::nat"])
  have "char_digit CHR ''0'' = Some 0" by (simp add: char_digit_def)
  then have "read_digits 16 0 ?p = Some (nat i)"
    by (simp add: read_base_text)
  moreover obtain bs where bs: "hex_DecodeString ?p = (bs, False)"
      "read_digits 16 0 ?p = Some (be_nat bs)"
  proof -
    have "even (length ?p)" by simp
    from hex_Decode_value [OF digits this] that show ?thesis by fastforce
  qed
  ultimately have "Bytes2Int bs = i" using assms by (simp add: Bytes2Int_def big_SetBytes_def)
  moreover have "BigInt2PbStr i = pb_pairs ?p"
    using assms by (simp add: BigInt2PbStr_def big_Text_def odd_iff_mod_2_eq_one)
  ultimately show ?thesis using pb_unescape_pairs [OF bs(1)] by auto
qed

lemma BigInt2PbStr_roundtrip_example:
  "\<exists>bs. pb_unescape (BigInt2PbStr 4660) = Some bs \<and> Bytes2Int bs = 4660"
  by (rule BigInt2PbStr_roundtrip) simp

end
