(* ===== verification/Node_Config.thy ===== *)
theory Node_Config
  imports Complex_Main Util
begin

text \<open>
  The node's own protobuf package, \<open>src/cbridgenode/cbridge_node.pb.go\<close>: the transfer status
  and type enumerations with their number and name tables, and the configuration messages with
  their getters. A message pointer is an option; every getter of a nil pointer gives the zero
  value of the field.
\<close>

section \<open>Enumerations\<close>

datatype TransferStatus =
    TRANSFER_STATUS_UNDEFINED
  | TRANSFER_STATUS_LOCKED
  | TRANSFER_STATUS_CONFIRMED
  | TRANSFER_STATUS_REFUNDED
  | TRANSFER_STATUS_TRANSFER_IN_START
  | TRANSFER_STATUS_TRANSFER_IN_PENDING
  | TRANSFER_STATUS_CONFIRM_PENDING
  | TRANSFER_STATUS_REFUND_PENDING

datatype TransferType =
    TRANSFER_TYPE_UNDEFINED
  | TRANSFER_TYPE_OUT
  | TRANSFER_TYPE_IN

fun TransferStatus_number :: "TransferStatus \<Rightarrow> int" where
  "TransferStatus_number TRANSFER_STATUS_UNDEFINED = 0"
| "TransferStatus_number TRANSFER_STATUS_LOCKED = 1"
| "TransferStatus_number TRANSFER_STATUS_CONFIRMED = 2"
| "TransferStatus_number TRANSFER_STATUS_REFUNDED = 3"
| "TransferStatus_number TRANSFER_STATUS_TRANSFER_IN_START = 4"
| "TransferStatus_number TRANSFER_STATUS_TRANSFER_IN_PENDING = 5"
| "TransferStatus_number TRANSFER_STATUS_CONFIRM_PENDING = 6"
| "TransferStatus_number TRANSFER_STATUS_REFUND_PENDING = 7"

fun TransferType_number :: "TransferType \<Rightarrow> int" where
  "TransferType_number TRANSFER_TYPE_UNDEFINED = 0"
| "TransferType_number TRANSFER_TYPE_OUT = 1"
| "TransferType_number TRANSFER_TYPE_IN = 2"

definition all_TransferStatus :: "TransferStatus list" where
  "all_TransferStatus =
     [TRANSFER_STATUS_UNDEFINED, TRANSFER_STATUS_LOCKED, TRANSFER_STATUS_CONFIRMED,
      TRANSFER_STATUS_REFUNDED, TRANSFER_STATUS_TRANSFER_IN_START,
      TRANSFER_STATUS_TRANSFER_IN_PENDING, TRANSFER_STATUS_CONFIRM_PENDING,
      TRANSFER_STATUS_REFUND_PENDING]"

definition all_TransferType :: "TransferType list" where
  "all_TransferType = [TRANSFER_TYPE_UNDEFINED, TRANSFER_TYPE_OUT, TRANSFER_TYPE_IN]"

definition TransferStatus_of_number :: "int \<Rightarrow> TransferStatus option" where
  "TransferStatus_of_number n = find (\<lambda>s. TransferStatus_number s = n) all_TransferStatus"

definition TransferType_of_number :: "int \<Rightarrow> TransferType option" where
  "TransferType_of_number n = find (\<lambda>s. TransferType_number s = n) all_TransferType"

text \<open>The tables \<open>TransferStatus_name\<close> and \<open>TransferStatus_value\<close>, and those of the type.\<close>

definition TransferStatus_name :: "int \<rightharpoonup> string" where
  "TransferStatus_name =
     [0 \<mapsto> ''TRANSFER_STATUS_UNDEFINED'', 1 \<mapsto> ''TRANSFER_STATUS_LOCKED'',
      2 \<mapsto> ''TRANSFER_STATUS_CONFIRMED'', 3 \<mapsto> ''TRANSFER_STATUS_REFUNDED'',
      4 \<mapsto> ''TRANSFER_STATUS_TRANSFER_IN_START'', 5 \<mapsto> ''TRANSFER_STATUS_TRANSFER_IN_PENDING'',
      6 \<mapsto> ''TRANSFER_STATUS_CONFIRM_PENDING'', 7 \<mapsto> ''TRANSFER_STATUS_REFUND_PENDING'']"

definition TransferStatus_value :: "string \<rightharpoonup> int" where
  "TransferStatus_value =
     [''TRANSFER_STATUS_UNDEFINED'' \<mapsto> 0, ''TRANSFER_STATUS_LOCKED'' \<mapsto> 1,
      ''TRANSFER_STATUS_CONFIRMED'' \<mapsto> 2, ''TRANSFER_STATUS_REFUNDED'' \<mapsto> 3,
      ''TRANSFER_STATUS_TRANSFER_IN_START'' \<mapsto> 4, ''TRANSFER_STATUS_TRANSFER_IN_PENDING'' \<mapsto> 5,
      ''TRANSFER_STATUS_CONFIRM_PENDING'' \<mapsto> 6, ''TRANSFER_STATUS_REFUND_PENDING'' \<mapsto> 7]"

definition TransferType_name :: "int \<rightharpoonup> string" where
  "TransferType_name =
     [0 \<mapsto> ''TRANSFER_TYPE_UNDEFINED'', 1 \<mapsto> ''TRANSFER_TYPE_OUT'', 2 \<mapsto> ''TRANSFER_TYPE_IN'']"

definition TransferType_value :: "string \<rightharpoonup> int" where
  "TransferType_value =
     [''TRANSFER_TYPE_UNDEFINED'' \<mapsto> 0, ''TRANSFER_TYPE_OUT'' \<mapsto> 1, ''TRANSFER_TYPE_IN'' \<mapsto> 2]"

text \<open>\<open>String()\<close> gives the declared name of the number.\<close>

definition TransferStatus_String :: "TransferStatus \<Rightarrow> string" where
  "TransferStatus_String s =
     (case TransferStatus_name (TransferStatus_number s) of Some n \<Rightarrow> n
      | None \<Rightarrow> big_String (TransferStatus_number s))"

definition TransferType_String :: "TransferType \<Rightarrow> string" where
  "TransferType_String s =
     (case TransferType_name (TransferType_number s) of Some n \<Rightarrow> n
      | None \<Rightarrow> big_String (TransferType_number s))"

lemma TransferStatus_of_number [simp]:
  "TransferStatus_of_number (TransferStatus_number s) = Some s"
  by (cases s) (simp_all add: TransferStatus_of_number_def all_TransferStatus_def)

lemma TransferType_of_number [simp]:
  "TransferType_of_number (TransferType_number s) = Some s"
  by (cases s) (simp_all add: TransferType_of_number_def all_TransferType_def)

lemma TransferStatus_number_inj [simp]:
  "TransferStatus_number s = TransferStatus_number t \<longleftrightarrow> s = t"
  by (metis TransferStatus_of_number option.inject)

lemma TransferType_number_inj [simp]:
  "TransferType_number s = TransferType_number t \<longleftrightarrow> s = t"
  by (metis TransferType_of_number option.inject)

section \<open>Messages\<close>

text \<open>A Go \<open>float64\<close>, of which the code only asks whether it is positive.\<close>

datatype float64 = Finite rat | PosInf | NegInf | NaN

fun float_positive :: "float64 \<Rightarrow> bool" where
  "float_positive (Finite q) = (0 < q)"
| "float_positive PosInf = True"
| "float_positive NegInf = False"
| "float_positive NaN = False"

record TokenConfig =
  TC_TokenName :: string
  TC_TokenAddress :: string
  TC_TokenDecimal :: u64

record WatchConfig =
  WC_PollingInterval :: u64
  WC_BlockDelay :: u64
  WC_MaxBlockDelta :: u64
  WC_ForwardBlockDelay :: u64

record TransactorConfig =
  XC_GasLimit :: u64
  XC_AddGasGwei :: u64
  XC_AddGasEstimateRatio :: float64

record ChainConfig =
  CC_Endpoint :: string
  CC_ChainId :: u64
  CC_ContractAddress :: string
  CC_TokenConfig :: "TokenConfig list"
  CC_WatchConfig :: "WatchConfig option"
  CC_ForceGasGwei :: u64
  CC_FeeRate :: u64
  CC_GasTokenName :: string
  CC_GasTokenDecimal :: u64
  CC_TransactorConfig :: "TransactorConfig option"

record CBridgeConfig =
  CB_RelayNodeName :: string
  CB_ChainConfig :: "ChainConfig list"
  CB_Db :: string
  CB_Gateway :: string

section \<open>Getters\<close>

text \<open>\<open>if x != nil { return x.F }; return zero\<close>, the body of every getter.\<close>

definition nil_get :: "'b \<Rightarrow> ('a \<Rightarrow> 'b) \<Rightarrow> 'a option \<Rightarrow> 'b" where
  "nil_get z f x = (case x of Some m \<Rightarrow> f m | None \<Rightarrow> z)"

lemma nil_get_simps [simp]: "nil_get z f None = z" "nil_get z f (Some m) = f m"
  by (simp_all add: nil_get_def)

definition CBridgeConfig_GetRelayNodeName :: "CBridgeConfig option \<Rightarrow> string" where
  "CBridgeConfig_GetRelayNodeName = nil_get [] CB_RelayNodeName"

definition CBridgeConfig_GetChainConfig :: "CBridgeConfig option \<Rightarrow> ChainConfig list" where
  "CBridgeConfig_GetChainConfig = nil_get [] CB_ChainConfig"

definition CBridgeConfig_GetDb :: "CBridgeConfig option \<Rightarrow> string" where
  "CBridgeConfig_GetDb = nil_get [] CB_Db"

definition CBridgeConfig_GetGateway :: "CBridgeConfig option \<Rightarrow> string" where
  "CBridgeConfig_GetGateway = nil_get [] CB_Gateway"

definition ChainConfig_GetEndpoint :: "ChainConfig option \<Rightarrow> string" where
  "ChainConfig_GetEndpoint = nil_get [] CC_Endpoint"

definition ChainConfig_GetChainId :: "ChainConfig option \<Rightarrow> u64" where
  "ChainConfig_GetChainId = nil_get 0 CC_ChainId"

definition ChainConfig_GetContractAddress :: "ChainConfig option \<Rightarrow> string" where
  "ChainConfig_GetContractAddress = nil_get [] CC_ContractAddress"

definition ChainConfig_GetTokenConfig :: "ChainConfig option \<Rightarrow> TokenConfig list" where
  "ChainConfig_GetTokenConfig = nil_get [] CC_TokenConfig"

definition ChainConfig_GetWatchConfig :: "ChainConfig option \<Rightarrow> WatchConfig option" where
  "ChainConfig_GetWatchConfig = nil_get None CC_WatchConfig"

definition ChainConfig_GetForceGasGwei :: "ChainConfig option \<Rightarrow> u64" where
  "ChainConfig_GetForceGasGwei = nil_get 0 CC_ForceGasGwei"

definition ChainConfig_GetFeeRate :: "ChainConfig option \<Rightarrow> u64" where
  "ChainConfig_GetFeeRate = nil_get 0 CC_FeeRate"

definition ChainConfig_GetGasTokenName :: "ChainConfig option \<Rightarrow> string" where
  "ChainConfig_GetGasTokenName = nil_get [] CC_GasTokenName"

definition ChainConfig_GetGasTokenDecimal :: "ChainConfig option \<Rightarrow> u64" where
  "ChainConfig_GetGasTokenDecimal = nil_get 0 CC_GasTokenDecimal"

definition ChainConfig_GetTransactorConfig :: "ChainConfig option \<Rightarrow> TransactorConfig option" where
  "ChainConfig_GetTransactorConfig = nil_get None CC_TransactorConfig"

definition TokenConfig_GetTokenName :: "TokenConfig option \<Rightarrow> string" where
  "TokenConfig_GetTokenName = nil_get [] TC_TokenName"

definition TokenConfig_GetTokenAddress :: "TokenConfig option \<Rightarrow> string" where
  "TokenConfig_GetTokenAddress = nil_get [] TC_TokenAddress"

definition TokenConfig_GetTokenDecimal :: "TokenConfig option \<Rightarrow> u64" where
  "TokenConfig_GetTokenDecimal = nil_get 0 TC_TokenDecimal"

definition WatchConfig_GetPollingInterval :: "WatchConfig option \<Rightarrow> u64" where
  "WatchConfig_GetPollingInterval = nil_get 0 WC_PollingInterval"

definition WatchConfig_GetBlockDelay :: "WatchConfig option \<Rightarrow> u64" where
  "WatchConfig_GetBlockDelay = nil_get 0 WC_BlockDelay"

definition WatchConfig_GetMaxBlockDelta :: "WatchConfig option \<Rightarrow> u64" where
  "WatchConfig_GetMaxBlockDelta = nil_get 0 WC_MaxBlockDelta"

definition WatchConfig_GetForwardBlockDelay :: "WatchConfig option \<Rightarrow> u64" where
  "WatchConfig_GetForwardBlockDelay = nil_get 0 WC_ForwardBlockDelay"

definition TransactorConfig_GetGasLimit :: "TransactorConfig option \<Rightarrow> u64" where
  "TransactorConfig_GetGasLimit = nil_get 0 XC_GasLimit"

definition TransactorConfig_GetAddGasGwei :: "TransactorConfig option \<Rightarrow> u64" where
  "TransactorConfig_GetAddGasGwei = nil_get 0 XC_AddGasGwei"

definition TransactorConfig_GetAddGasEstimateRatio :: "TransactorConfig option \<Rightarrow> float64" where
  "TransactorConfig_GetAddGasEstimateRatio = nil_get (Finite 0) XC_AddGasEstimateRatio"

lemmas config_getters =
  CBridgeConfig_GetRelayNodeName_def CBridgeConfig_GetChainConfig_def CBridgeConfig_GetDb_def
  CBridgeConfig_GetGateway_def ChainConfig_GetEndpoint_def ChainConfig_GetChainId_def
  ChainConfig_GetContractAddress_def ChainConfig_GetTokenConfig_def ChainConfig_GetWatchConfig_def
  ChainConfig_GetForceGasGwei_def ChainConfig_GetFeeRate_def ChainConfig_GetGasTokenName_def
  ChainConfig_GetGasTokenDecimal_def ChainConfig_GetTransactorConfig_def
  TokenConfig_GetTokenName_def TokenConfig_GetTokenAddress_def TokenConfig_GetTokenDecimal_def
  WatchConfig_GetPollingInterval_def WatchConfig_GetBlockDelay_def WatchConfig_GetMaxBlockDelta_def
  WatchConfig_GetForwardBlockDelay_def TransactorConfig_GetGasLimit_def
  TransactorConfig_GetAddGasGwei_def TransactorConfig_GetAddGasEstimateRatio_def

section \<open>Properties\<close>

text \<open>
  The status and type enumerations and their tables agree: the name of a status maps back
  to its number and the number back to the status, so a status column names one status.
\<close>

lemma enum_tables_roundtrip:
  "TransferStatus_of_number (TransferStatus_number s) = Some s \<and>
   TransferStatus_value (TransferStatus_String s) = Some (TransferStatus_number s) \<and>
   TransferType_of_number (TransferType_number ty) = Some ty \<and>
   TransferType_value (TransferType_String ty) = Some (TransferType_number ty)"
proof -
  have "TransferStatus_value (TransferStatus_String s) = Some (TransferStatus_number s)"
    by (cases s)
      (simp_all add: TransferStatus_String_def TransferStatus_name_def TransferStatus_value_def)
  moreover have "TransferType_value (TransferType_String ty) = Some (TransferType_number ty)"
    by (cases ty) (simp_all add: TransferType_String_def TransferType_name_def TransferType_value_def)
  ultimately show ?thesis by simp
qed

end
