(* ===== verification/Gateway_RPC.thy ===== *)
theory Gateway_RPC
  imports Util Node_Config
begin

text \<open>
  The messages of \<open>src/gatewayrpc/gateway_rpc.pb.go\<close> and the client of
  \<open>src/server/gateway.go\<close>. The connection is a record of functions (what \<open>cc.Invoke\<close> returns
  for a request), so the client's own handling of the three ways a call can fail is what is
  modelled.
\<close>

section \<open>Messages\<close>

datatype ErrCode = ErrCode_ERROR_CODE_UNDEFINED | ErrCode_NODE_NOT_PERMITTED | ErrCode_TRANSFER_NOT_FOUND

fun ErrCode_number :: "ErrCode \<Rightarrow> int" where
  "ErrCode_number ErrCode_ERROR_CODE_UNDEFINED = 0"
| "ErrCode_number ErrCode_NODE_NOT_PERMITTED = 1"
| "ErrCode_number ErrCode_TRANSFER_NOT_FOUND = 2"

definition ErrCode_name :: "(int \<times> string) list" where
  "ErrCode_name = [(0, ''ERROR_CODE_UNDEFINED''), (1, ''NODE_NOT_PERMITTED''), (2, ''TRANSFER_NOT_FOUND'')]"

definition ErrCode_value :: "(string \<times> int) list" where
  "ErrCode_value = [(''ERROR_CODE_UNDEFINED'', 0), (''NODE_NOT_PERMITTED'', 1), (''TRANSFER_NOT_FOUND'', 2)]"

record ErrMsg =
  EM_Code :: ErrCode
  EM_Msg :: string

record GetFeeRequest =
  FQ_TransferOutId :: string

record GetFeeResponse =
  FR_Err :: "ErrMsg option"
  FR_Fee :: string

record ChainInfo =
  CI_ChainId :: u64
  CI_TokenAndBalance :: "string \<rightharpoonup> string"
  CI_FeePer_10000 :: u64

record PingRequest =
  PQ_EthAddr :: string
  PQ_ChainInfo :: "ChainInfo list"
  PQ_NickName :: string
  PQ_Sig :: "u8 list"
  PQ_NodeVersion :: string

record GatewayChainInfo =
  GI_GasPrice :: u64

record PingResponse =
  PR_Err :: "ErrMsg option"
  PR_ChainInfo :: "u64 \<rightharpoonup> GatewayChainInfo"

section \<open>Getters\<close>

definition GetFeeRequest_GetTransferOutId :: "GetFeeRequest option \<Rightarrow> string" where
  "GetFeeRequest_GetTransferOutId = nil_get [] FQ_TransferOutId"

definition GetFeeResponse_GetErr :: "GetFeeResponse option \<Rightarrow> ErrMsg option" where
  "GetFeeResponse_GetErr = nil_get None FR_Err"

definition GetFeeResponse_GetFee :: "GetFeeResponse option \<Rightarrow> string" where
  "GetFeeResponse_GetFee = nil_get [] FR_Fee"

definition PingRequest_GetEthAddr :: "PingRequest option \<Rightarrow> string" where
  "PingRequest_GetEthAddr = nil_get [] PQ_EthAddr"

definition PingRequest_GetChainInfo :: "PingRequest option \<Rightarrow> ChainInfo list" where
  "PingRequest_GetChainInfo = nil_get [] PQ_ChainInfo"

definition PingRequest_GetNickName :: "PingRequest option \<Rightarrow> string" where
  "PingRequest_GetNickName = nil_get [] PQ_NickName"

definition PingRequest_GetSig :: "PingRequest option \<Rightarrow> u8 list" where
  "PingRequest_GetSig = nil_get [] PQ_Sig"

definition PingRequest_GetNodeVersion :: "PingRequest option \<Rightarrow> string" where
  "PingRequest_GetNodeVersion = nil_get [] PQ_NodeVersion"

definition PingResponse_GetErr :: "PingResponse option \<Rightarrow> ErrMsg option" where
  "PingResponse_GetErr = nil_get None PR_Err"

definition PingResponse_GetChainInfo :: "PingResponse option \<Rightarrow> (u64 \<rightharpoonup> GatewayChainInfo)" where
  "PingResponse_GetChainInfo = nil_get Map.empty PR_ChainInfo"

definition ErrMsg_GetCode :: "ErrMsg option \<Rightarrow> ErrCode" where
  "ErrMsg_GetCode = nil_get ErrCode_ERROR_CODE_UNDEFINED EM_Code"

definition ErrMsg_GetMsg :: "ErrMsg option \<Rightarrow> string" where
  "ErrMsg_GetMsg = nil_get [] EM_Msg"

definition ChainInfo_GetChainId :: "ChainInfo option \<Rightarrow> u64" where
  "ChainInfo_GetChainId = nil_get 0 CI_ChainId"

definition ChainInfo_GetTokenAndBalance :: "ChainInfo option \<Rightarrow> (string \<rightharpoonup> string)" where
  "ChainInfo_GetTokenAndBalance = nil_get Map.empty CI_TokenAndBalance"

definition ChainInfo_GetFeePer_10000 :: "ChainInfo option \<Rightarrow> u64" where
  "ChainInfo_GetFeePer_10000 = nil_get 0 CI_FeePer_10000"

definition GatewayChainInfo_GetGasPrice :: "GatewayChainInfo option \<Rightarrow> u64" where
  "GatewayChainInfo_GetGasPrice = nil_get 0 GI_GasPrice"

lemmas gateway_getters =
  GetFeeRequest_GetTransferOutId_def GetFeeResponse_GetErr_def GetFeeResponse_GetFee_def
  PingResponse_GetErr_def PingResponse_GetChainInfo_def ErrMsg_GetCode_def ErrMsg_GetMsg_def

section \<open>The generated client\<close>

text \<open>What \<open>cc.Invoke\<close> delivers for a request: an error, or the decoded response.\<close>

record relay_conn =
  InvokePing :: "PingRequest \<Rightarrow> PingResponse result"
  InvokeGetFee :: "GetFeeRequest \<Rightarrow> GetFeeResponse result"

definition relayClient_Ping :: "relay_conn \<Rightarrow> PingRequest \<Rightarrow> PingResponse option result" where
  "relayClient_Ping cc req = (case InvokePing cc req of Inl err \<Rightarrow> Inl err | Inr out \<Rightarrow> Inr (Some out))"

definition relayClient_GetFee :: "relay_conn \<Rightarrow> GetFeeRequest \<Rightarrow> GetFeeResponse option result" where
  "relayClient_GetFee cc req = (case InvokeGetFee cc req of Inl err \<Rightarrow> Inl err | Inr out \<Rightarrow> Inr (Some out))"

section \<open>The gateway client\<close>

datatype gw_error =
    RpcErr string
  | GatewayErr ErrMsg
  | BadFee "GetFeeResponse option"

text \<open>A client wraps its connection. \<open>dial\<close> is \<open>grpc.Dial\<close> with TLS credentials, \<open>close_conn\<close>
  the outcome of closing a connection, which is only logged.\<close>

record 'conn GatewayClient =
  gatewayConn :: 'conn

definition NewGatewayAPI :: "(string \<Rightarrow> 'conn result) \<Rightarrow> string \<Rightarrow> 'conn GatewayClient result" where
  "NewGatewayAPI dial gatewayUrl =
     (case dial gatewayUrl of Inl err \<Rightarrow> Inl err | Inr conn \<Rightarrow> Inr \<lparr>gatewayConn = conn\<rparr>)"

definition GatewayClient_Close ::
  "('conn \<Rightarrow> string option) \<Rightarrow> 'conn GatewayClient \<Rightarrow> string list" where
  "GatewayClient_Close close_conn c =
     (case close_conn (gatewayConn c) of Some err \<Rightarrow> [''closeGatewayConn: error:'' @ err] | None \<Rightarrow> [])"

text \<open>What \<open>GetFee\<close> makes of the client's answer, split off because the relay loop, where the
  answer is an effect, uses it too.\<close>

definition GetFee_result :: "GetFeeResponse option result \<Rightarrow> gw_error + int" where
  "GetFee_result r =
     (case r of
        Inl pingErr \<Rightarrow> Inl (RpcErr pingErr)
      | Inr resp \<Rightarrow>
          (case GetFeeResponse_GetErr resp of
             Some beErr \<Rightarrow> Inl (GatewayErr beErr)
           | None \<Rightarrow>
               (case big_SetString (GetFeeResponse_GetFee resp) of
                  Some fee \<Rightarrow> Inr fee
                | None \<Rightarrow> Inl (BadFee resp))))"

definition GatewayClient_GetFee :: "ethlib \<Rightarrow> relay_conn \<Rightarrow> hash \<Rightarrow> gw_error + int" where
  "GatewayClient_GetFee lib cc transferOutId =
     GetFee_result (relayClient_GetFee cc \<lparr>FQ_TransferOutId = HashString lib transferOutId\<rparr>)"

definition GatewayClient_PingGateway ::
  "relay_conn \<Rightarrow> PingRequest \<Rightarrow> gw_error + PingResponse option" where
  "GatewayClient_PingGateway cc req =
     (case relayClient_Ping cc req of
        Inl pingErr \<Rightarrow> Inl (RpcErr pingErr)
      | Inr resp \<Rightarrow>
          (case PingResponse_GetErr resp of
             Some beErr \<Rightarrow> Inl (GatewayErr beErr)
           | None \<Rightarrow> Inr resp))"

lemma GetFee_result_Inr:
  "GetFee_result r = Inr fee \<longleftrightarrow>
     (\<exists>resp. r = Inr resp \<and> GetFeeResponse_GetErr resp = None \<and>
       big_SetString (GetFeeResponse_GetFee resp) = Some fee)"
  by (auto simp: GetFee_result_def split: sum.splits option.splits)

lemma relayClient_GetFee_Inr:
  "relayClient_GetFee cc req = Inr r \<longleftrightarrow> (\<exists>out. InvokeGetFee cc req = Inr out \<and> r = Some out)"
  by (auto simp: relayClient_GetFee_def split: sum.splits)

section \<open>Properties\<close>

text \<open>C35: The fee client returns a fee exactly when the call succeeded, the response carries no
  error and its text is a number, and then returns that number. Nothing else is checked: whatever
  integer the gateway prints, a negative one included, is returned as it is.\<close>

theorem GetFee_correct:
  "(GatewayClient_GetFee lib cc tid = Inr fee \<longleftrightarrow>
     (\<exists>out. InvokeGetFee cc \<lparr>FQ_TransferOutId = HashString lib tid\<rparr> = Inr out \<and>
        FR_Err out = None \<and> big_SetString (FR_Fee out) = Some fee)) \<and>
   GatewayClient_GetFee lib
     (cc\<lparr>InvokeGetFee := \<lambda>req. Inr \<lparr>FR_Err = None, FR_Fee = big_String fee\<rparr>\<rparr>) tid = Inr fee"
  by (auto simp: GatewayClient_GetFee_def GetFee_result_Inr relayClient_GetFee_Inr gateway_getters)

text \<open>The ping client returns a response exactly when the call succeeded and the response
  carries no error, and the response is then the gateway's own.\<close>

lemma PingGateway_correct:
  "GatewayClient_PingGateway cc req = Inr r \<longleftrightarrow>
     (\<exists>out. InvokePing cc req = Inr out \<and> PR_Err out = None \<and> r = Some out)"
  by (auto simp: GatewayClient_PingGateway_def relayClient_Ping_def gateway_getters
      split: sum.splits option.splits)

end
