(* ===== verification/Transfer_Table.thy ===== *)
theory Transfer_Table
  imports Node_Config
begin

text \<open>
  The abstract transfer table: what the data-access layer of \<open>src/server/dal.go\<close> promises its
  callers. A row is the \<open>Transfer\<close> struct of the code with one bit more, whether its preimage
  column holds text (the code stores the empty string until a preimage is known, and one query
  asks for it). Each write method is a constructor of \<open>stmt\<close>, each read method one of
  \<open>query\<close>; \<open>apply_stmt\<close> and \<open>query_ok\<close> say what they do to and return from a table. The
  theory \<open>DAL\<close> shows that the SQL of the code implements them. The contract that all writes
  but the insert share is the locale \<open>row_update\<close>.
\<close>

section \<open>Rows\<close>

record Transfer =
  TransferId :: hash
  TxHash :: hash
  ChainId :: u64
  Token :: addr
  TransferType :: TransferType
  TimeLock :: gotime
  HashLock :: hash
  Status :: TransferStatus
  RelatedTid :: hash
  RelatedChainId :: u64
  RelatedToken :: addr
  Amount :: int
  Fee :: int
  TransferGasCost :: int
  ConfirmGasCost :: int
  RefundGasCost :: int
  Preimage :: hash
  Sender :: addr
  Receiver :: addr
  TxConfirmHash :: hash
  TxRefundHash :: hash
  UpdateTs :: gotime
  CreateTs :: gotime

record StoredTransfer = Transfer +
  PreimageSet :: bool

type_synonym table = "StoredTransfer list"

text \<open>What a reader gets: the struct, without the bit.\<close>

definition scan :: "StoredTransfer \<Rightarrow> Transfer" where
  "scan r = Transfer.truncate r"

lemma scan_sel [simp]:
  "TransferId (scan r) = TransferId r" "TxHash (scan r) = TxHash r"
  "ChainId (scan r) = ChainId r" "Token (scan r) = Token r"
  "TransferType (scan r) = TransferType r" "TimeLock (scan r) = TimeLock r"
  "HashLock (scan r) = HashLock r" "Status (scan r) = Status r"
  "RelatedTid (scan r) = RelatedTid r" "RelatedChainId (scan r) = RelatedChainId r"
  "RelatedToken (scan r) = RelatedToken r" "Amount (scan r) = Amount r" "Fee (scan r) = Fee r"
  "TransferGasCost (scan r) = TransferGasCost r" "ConfirmGasCost (scan r) = ConfirmGasCost r"
  "RefundGasCost (scan r) = RefundGasCost r" "Preimage (scan r) = Preimage r"
  "Sender (scan r) = Sender r" "Receiver (scan r) = Receiver r"
  "TxConfirmHash (scan r) = TxConfirmHash r" "TxRefundHash (scan r) = TxRefundHash r"
  "UpdateTs (scan r) = UpdateTs r" "CreateTs (scan r) = CreateTs r"
  by (simp_all add: scan_def Transfer.defs)

text \<open>The row an insert stores: no preimage text, and the time of the insert in both time
  columns whatever the struct holds.\<close>

definition inserted_row :: "Transfer \<Rightarrow> gotime \<Rightarrow> StoredTransfer" where
  "inserted_row tx now =
     Transfer.extend (tx\<lparr>Preimage := 0, UpdateTs := now, CreateTs := now\<rparr>)
       (StoredTransfer.fields False)"

lemma inserted_row_sel [simp]:
  "TransferId (inserted_row tx now) = TransferId tx" "TxHash (inserted_row tx now) = TxHash tx"
  "ChainId (inserted_row tx now) = ChainId tx" "Token (inserted_row tx now) = Token tx"
  "TransferType (inserted_row tx now) = TransferType tx"
  "TimeLock (inserted_row tx now) = TimeLock tx" "HashLock (inserted_row tx now) = HashLock tx"
  "Status (inserted_row tx now) = Status tx" "RelatedTid (inserted_row tx now) = RelatedTid tx"
  "RelatedChainId (inserted_row tx now) = RelatedChainId tx"
  "RelatedToken (inserted_row tx now) = RelatedToken tx"
  "Amount (inserted_row tx now) = Amount tx" "Fee (inserted_row tx now) = Fee tx"
  "TransferGasCost (inserted_row tx now) = TransferGasCost tx"
  "ConfirmGasCost (inserted_row tx now) = ConfirmGasCost tx"
  "RefundGasCost (inserted_row tx now) = RefundGasCost tx" "Preimage (inserted_row tx now) = 0"
  "Sender (inserted_row tx now) = Sender tx" "Receiver (inserted_row tx now) = Receiver tx"
  "TxConfirmHash (inserted_row tx now) = TxConfirmHash tx"
  "TxRefundHash (inserted_row tx now) = TxRefundHash tx"
  "UpdateTs (inserted_row tx now) = now" "CreateTs (inserted_row tx now) = now"
  "PreimageSet (inserted_row tx now) = False"
  by (simp_all add: inserted_row_def Transfer.defs StoredTransfer.defs)

section \<open>Statements\<close>

datatype stmt =
    InsertTransferS Transfer gotime
  | SetRelatedTxPreimageS hash hash
  | ConfirmTransferS hash hash hash
  | RefundTransferS hash hash
  | RecordTransferInS hash hash
  | UpdateTransferStatusS hash TransferStatus
  | SetTransferInAmountAndFeeS hash int int
  | SetPendingTransferInS hash TransferStatus TransferStatus gotime
  | SetTransferStatusByFromS hash TransferStatus TransferStatus gotime

definition has_tid :: "hash \<Rightarrow> table \<Rightarrow> bool" where
  "has_tid tid T \<longleftrightarrow> tid \<in> set (map TransferId T)"

definition insert_row :: "StoredTransfer \<Rightarrow> table \<Rightarrow> table" where
  "insert_row r T = (if has_tid (TransferId r) T then T else T @ [r])"

text \<open>The rows an update selects, and what it does to one of them.\<close>

fun stmt_sel :: "stmt \<Rightarrow> StoredTransfer \<Rightarrow> bool" where
  "stmt_sel (InsertTransferS tx now) r = False"
| "stmt_sel (SetRelatedTxPreimageS p rtid) r = (RelatedTid r = rtid)"
| "stmt_sel (ConfirmTransferS tid p h) r = (TransferId r = tid)"
| "stmt_sel (RefundTransferS tid h) r = (TransferId r = tid)"
| "stmt_sel (RecordTransferInS tid h) r =
     (TransferId r = tid \<and>
      (Status r = TRANSFER_STATUS_TRANSFER_IN_START \<or>
       Status r = TRANSFER_STATUS_TRANSFER_IN_PENDING))"
| "stmt_sel (UpdateTransferStatusS tid to) r = (TransferId r = tid)"
| "stmt_sel (SetTransferInAmountAndFeeS tid a f) r = (TransferId r = tid)"
| "stmt_sel (SetPendingTransferInS tid to from now) r = (TransferId r = tid \<and> Status r = from)"
| "stmt_sel (SetTransferStatusByFromS tid to from now) r = (TransferId r = tid \<and> Status r = from)"

fun stmt_upd :: "stmt \<Rightarrow> StoredTransfer \<Rightarrow> StoredTransfer" where
  "stmt_upd (InsertTransferS tx now) r = r"
| "stmt_upd (SetRelatedTxPreimageS p rtid) r = r\<lparr>Preimage := p, PreimageSet := True\<rparr>"
| "stmt_upd (ConfirmTransferS tid p h) r =
     r\<lparr>Status := TRANSFER_STATUS_CONFIRMED, Preimage := p, PreimageSet := True,
       TxConfirmHash := h\<rparr>"
| "stmt_upd (RefundTransferS tid h) r =
     r\<lparr>Status := TRANSFER_STATUS_REFUNDED, TxRefundHash := h\<rparr>"
| "stmt_upd (RecordTransferInS tid h) r = r\<lparr>Status := TRANSFER_STATUS_LOCKED, TxHash := h\<rparr>"
| "stmt_upd (UpdateTransferStatusS tid to) r = r\<lparr>Status := to\<rparr>"
| "stmt_upd (SetTransferInAmountAndFeeS tid a f) r = r\<lparr>Amount := a, Fee := f\<rparr>"
| "stmt_upd (SetPendingTransferInS tid to from now) r = r\<lparr>Status := to, UpdateTs := now\<rparr>"
| "stmt_upd (SetTransferStatusByFromS tid to from now) r = r\<lparr>Status := to, UpdateTs := now\<rparr>"

fun apply_stmt :: "stmt \<Rightarrow> table \<Rightarrow> table" where
  "apply_stmt (InsertTransferS tx now) T = insert_row (inserted_row tx now) T"
| "apply_stmt s T = update_where (stmt_sel s) (stmt_upd s) T"

fun is_insert :: "stmt \<Rightarrow> bool" where
  "is_insert (InsertTransferS tx now) = True"
| "is_insert s = False"

lemma apply_update: "\<not> is_insert s \<Longrightarrow> apply_stmt s T = update_where (stmt_sel s) (stmt_upd s) T"
  by (cases s) simp_all

section \<open>Queries\<close>

text \<open>The query parameters are the values the code binds, such as \<open>time.Now().Add(1 hour)\<close>.\<close>

datatype query =
    ByTidQ hash
  | ByRelatedTidQ hash
  | AllQ
  | AllWithLimitQ u64
  | StartTransferInQ gotime
  | ConfirmableLockedQ
  | RecoverPendingTransferInQ gotime gotime
  | RecoverPendingConfirmQ gotime gotime
  | RecoverPendingRefundQ gotime
  | RefundAbleTransferInQ gotime

fun query_sel :: "query \<Rightarrow> StoredTransfer \<Rightarrow> bool" where
  "query_sel (ByTidQ tid) r = (TransferId r = tid)"
| "query_sel (ByRelatedTidQ rtid) r = (RelatedTid r = rtid)"
| "query_sel AllQ r = True"
| "query_sel (AllWithLimitQ n) r = True"
| "query_sel (StartTransferInQ bnd) r =
     (Status r = TRANSFER_STATUS_TRANSFER_IN_START \<and> bnd < TimeLock r \<and>
      TransferType r = TRANSFER_TYPE_IN)"
| "query_sel ConfirmableLockedQ r = (Status r = TRANSFER_STATUS_LOCKED \<and> PreimageSet r)"
| "query_sel (RecoverPendingTransferInQ upd bnd) r =
     (Status r = TRANSFER_STATUS_TRANSFER_IN_PENDING \<and> UpdateTs r < upd \<and>
      TransferType r = TRANSFER_TYPE_IN \<and> bnd < TimeLock r)"
| "query_sel (RecoverPendingConfirmQ upd bnd) r =
     (Status r = TRANSFER_STATUS_CONFIRM_PENDING \<and> UpdateTs r < upd \<and> bnd < TimeLock r)"
| "query_sel (RecoverPendingRefundQ upd) r =
     (Status r = TRANSFER_STATUS_REFUND_PENDING \<and> UpdateTs r < upd)"
| "query_sel (RefundAbleTransferInQ now) r =
     (Status r = TRANSFER_STATUS_LOCKED \<and> TimeLock r < now \<and> TransferType r = TRANSFER_TYPE_IN)"

text \<open>SQL promises no order without an \<open>order by\<close>: any arrangement of the selected rows may
  come back. The limit query takes a prefix of some arrangement sorted by creation time,
  newest first.\<close>

fun query_ok :: "query \<Rightarrow> table \<Rightarrow> Transfer list \<Rightarrow> bool" where
  "query_ok (AllWithLimitQ n) T rs =
     (\<exists>ts. mset ts = mset (map scan T) \<and> sorted_wrt (\<lambda>a b. CreateTs b \<le> CreateTs a) ts \<and>
        rs = take (unat n) ts)"
| "query_ok q T rs = (mset rs = mset (map scan (filter (query_sel q) T)))"

text \<open>One result the relation allows, for evaluation: table order, or newest first.\<close>

fun run_query :: "query \<Rightarrow> table \<Rightarrow> Transfer list" where
  "run_query (AllWithLimitQ n) T = take (unat n) (sort_key (\<lambda>t. - CreateTs t) (map scan T))"
| "run_query q T = map scan (filter (query_sel q) T)"

lemma run_query_ok: "query_ok q T (run_query q T)"
proof (cases q)
  case (AllWithLimitQ n)
  have "sorted (map (\<lambda>t. - CreateTs t) (sort_key (\<lambda>t. - CreateTs t) (map scan T)))"
    by (rule sorted_sort_key)
  then have "sorted_wrt (\<lambda>a b. CreateTs b \<le> CreateTs a) (sort_key (\<lambda>t. - CreateTs t) (map scan T))"
    by (simp add: sorted_map)
  with AllWithLimitQ show ?thesis
    by (auto intro!: exI [of _ "sort_key (\<lambda>t. - CreateTs t) (map scan T)"])
qed simp_all

lemma query_ok_plain:
  "query_ok q T rs \<Longrightarrow> \<nexists>n. q = AllWithLimitQ n \<Longrightarrow>
   mset rs = mset (map scan (filter (query_sel q) T))"
  by (cases q) simp_all

lemma query_ok_set:
  assumes "query_ok q T rs" "tx \<in> set rs"
  obtains r where "r \<in> set T" "tx = scan r" "query_sel q r"
proof (cases "\<exists>n. q = AllWithLimitQ n")
  case True
  then obtain n where n: "q = AllWithLimitQ n" by blast
  with assms obtain ts where "mset ts = mset (map scan T)" "tx \<in> set ts"
    by (auto dest: in_set_takeD)
  then have "tx \<in> set (map scan T)" by (metis set_mset_mset)
  with n that show ?thesis by auto
next
  case False
  with assms(1) have "mset rs = mset (map scan (filter (query_sel q) T))"
    by (blast intro: query_ok_plain)
  then have "set rs = set (map scan (filter (query_sel q) T))" by (rule mset_eq_setD)
  with assms(2) that show ?thesis by auto
qed

section \<open>Keys and fixed columns\<close>

definition keys_distinct :: "table \<Rightarrow> bool" where
  "keys_distinct T \<longleftrightarrow> distinct (map TransferId T)"

definition find_row :: "hash \<Rightarrow> table \<Rightarrow> StoredTransfer option" where
  "find_row tid T = find (\<lambda>r. TransferId r = tid) T"

text \<open>The columns no update of the code writes.\<close>

definition fixed_cols ::
  "StoredTransfer \<Rightarrow> hash \<times> u64 \<times> addr \<times> TransferType \<times> gotime \<times> hash \<times> hash \<times> u64 \<times> addr \<times>
     (int \<times> int \<times> int) \<times> addr \<times> addr \<times> gotime" where
  "fixed_cols r =
     (TransferId r, ChainId r, Token r, TransferType r, TimeLock r, HashLock r, RelatedTid r,
      RelatedChainId r, RelatedToken r, (TransferGasCost r, ConfirmGasCost r, RefundGasCost r),
      Sender r, Receiver r, CreateTs r)"

text \<open>The amount a transfer-in was created with: what is sent plus what is kept.\<close>

definition gross :: "('a) Transfer_scheme \<Rightarrow> int" where
  "gross r = Amount r + Fee r"

lemma gross_scan [simp]: "gross (scan r) = gross r"
  by (simp add: gross_def)

lemma fixed_colsD:
  assumes "fixed_cols r = fixed_cols r'"
  shows "TransferId r = TransferId r'" "ChainId r = ChainId r'" "Token r = Token r'"
    "TransferType r = TransferType r'" "TimeLock r = TimeLock r'" "HashLock r = HashLock r'"
    "RelatedTid r = RelatedTid r'" "RelatedChainId r = RelatedChainId r'"
    "RelatedToken r = RelatedToken r'" "Sender r = Sender r'" "Receiver r = Receiver r'"
    "CreateTs r = CreateTs r'"
  using assms by (simp_all add: fixed_cols_def)

lemma find_row_Some: "find_row tid T = Some r \<Longrightarrow> r \<in> set T \<and> TransferId r = tid"
  unfolding find_row_def by (rule find_SomeD)

lemma find_row_None: "find_row tid T = None \<longleftrightarrow> \<not> has_tid tid T"
  by (auto simp: find_row_def find_cong_None has_tid_def)

lemma find_row_unique:
  assumes "keys_distinct T" "r \<in> set T"
  shows "find_row (TransferId r) T = Some r"
proof (cases "find_row (TransferId r) T")
  case None
  with assms(2) show ?thesis by (simp add: find_row_None has_tid_def)
next
  case (Some x)
  then have "x \<in> set T" "TransferId x = TransferId r" by (simp_all add: find_row_Some)
  moreover have "inj_on TransferId (set T)"
    using assms(1) by (simp add: keys_distinct_def distinct_map)
  ultimately have "x = r" using assms(2) by (meson inj_onD)
  with Some show ?thesis by simp
qed

section \<open>The contract of an update\<close>

text \<open>
  What the \<open>UPDATE\<close> methods promise together: they rewrite the rows a condition selects, one by
  one, and never a fixed column, so no row appears, disappears or changes its key.
\<close>

locale row_update =
  fixes opr :: "table \<Rightarrow> table"
    and sel :: "StoredTransfer \<Rightarrow> bool"
    and upd :: "StoredTransfer \<Rightarrow> StoredTransfer"
  assumes opr_eq: "opr T = update_where sel upd T"
    and keeps_fixed: "fixed_cols (upd r) = fixed_cols r"
begin

lemma fixed: "map fixed_cols (opr T) = map fixed_cols T"
  by (simp add: opr_eq map_update_where_id keeps_fixed)

lemma upd_key: "TransferId (upd r) = TransferId r"
  by (rule fixed_colsD(1) [OF keeps_fixed])

lemma keys: "map TransferId (opr T) = map TransferId T"
  by (simp add: opr_eq map_update_where_id upd_key)

lemma distinct_kept: "keys_distinct T \<Longrightarrow> keys_distinct (opr T)"
  by (simp add: keys_distinct_def keys)

lemma tids_kept: "has_tid tid (opr T) = has_tid tid T"
  by (simp add: has_tid_def keys)

lemma find_opr:
  "find_row tid (opr T) = map_option (\<lambda>r. if sel r then upd r else r) (find_row tid T)"
  unfolding find_row_def opr_eq update_where_def
  by (rule find_map_same) (simp add: upd_key)

lemma member:
  assumes "r' \<in> set (opr T)"
  obtains r where "r \<in> set T" "fixed_cols r' = fixed_cols r" "r' = (if sel r then upd r else r)"
  using assms by (auto simp: opr_eq set_update_where keeps_fixed split: if_splits)

lemma member_image: "r \<in> set T \<Longrightarrow> (if sel r then upd r else r) \<in> set (opr T)"
  by (auto simp: opr_eq set_update_where)

end

text \<open>An update that writes the status: from a status of \<open>src\<close>, to \<open>dst\<close>.\<close>

locale status_move = row_update +
  fixes src :: "TransferStatus set" and dst :: TransferStatus
  assumes sel_src: "sel r \<Longrightarrow> Status r \<in> src"
    and upd_dst: "Status (upd r) = dst"
begin

lemma moved:
  assumes "find_row tid T = Some r" "find_row tid (opr T) = Some r'"
  shows "Status r' = Status r \<or> (Status r \<in> src \<and> Status r' = dst)"
  using assms sel_src upd_dst by (auto simp: find_opr split: if_splits)

lemma guard_fails: "find_row tid T = Some r \<Longrightarrow> Status r \<notin> src \<Longrightarrow> find_row tid (opr T) = Some r"
  using sel_src by (auto simp: find_opr)

end

text \<open>An update that moves no money between the sent amount and the fee but within a row.\<close>

locale gross_update = row_update +
  assumes keeps_gross: "sel r \<Longrightarrow> gross (upd r) = gross r"
begin

lemma gross_kept:
  assumes "find_row tid T = Some r" "find_row tid (opr T) = Some r'"
  shows "gross r' = gross r"
  using assms keeps_gross by (auto simp: find_opr split: if_splits)

end

text \<open>Every update method of the data-access layer meets its contract.\<close>

interpretation preimage_upd: gross_update "apply_stmt (SetRelatedTxPreimageS p rtid)"
  "stmt_sel (SetRelatedTxPreimageS p rtid)" "stmt_upd (SetRelatedTxPreimageS p rtid)"
  for p rtid
  by unfold_locales (simp_all add: fixed_cols_def gross_def)

interpretation confirm_upd: status_move "apply_stmt (ConfirmTransferS tid p h)"
  "stmt_sel (ConfirmTransferS tid p h)" "stmt_upd (ConfirmTransferS tid p h)"
  UNIV TRANSFER_STATUS_CONFIRMED
  for tid p h
  by unfold_locales (simp_all add: fixed_cols_def)

interpretation refund_upd: status_move "apply_stmt (RefundTransferS tid h)"
  "stmt_sel (RefundTransferS tid h)" "stmt_upd (RefundTransferS tid h)"
  UNIV TRANSFER_STATUS_REFUNDED
  for tid h
  by unfold_locales (simp_all add: fixed_cols_def)

interpretation record_upd: status_move "apply_stmt (RecordTransferInS tid h)"
  "stmt_sel (RecordTransferInS tid h)" "stmt_upd (RecordTransferInS tid h)"
  "{TRANSFER_STATUS_TRANSFER_IN_START, TRANSFER_STATUS_TRANSFER_IN_PENDING}"
  TRANSFER_STATUS_LOCKED
  for tid h
  by unfold_locales (auto simp: fixed_cols_def)

interpretation status_upd: status_move "apply_stmt (UpdateTransferStatusS tid to)"
  "stmt_sel (UpdateTransferStatusS tid to)" "stmt_upd (UpdateTransferStatusS tid to)" UNIV to
  for tid to
  by unfold_locales (simp_all add: fixed_cols_def)

interpretation amount_upd: row_update "apply_stmt (SetTransferInAmountAndFeeS tid a f)"
  "stmt_sel (SetTransferInAmountAndFeeS tid a f)" "stmt_upd (SetTransferInAmountAndFeeS tid a f)"
  for tid a f
  by unfold_locales (simp_all add: fixed_cols_def)

interpretation pending_upd: status_move "apply_stmt (SetPendingTransferInS tid to from now)"
  "stmt_sel (SetPendingTransferInS tid to from now)"
  "stmt_upd (SetPendingTransferInS tid to from now)" "{from}" to
  for tid to "from" now
  by unfold_locales (simp_all add: fixed_cols_def)

interpretation from_upd: status_move "apply_stmt (SetTransferStatusByFromS tid to from now)"
  "stmt_sel (SetTransferStatusByFromS tid to from now)"
  "stmt_upd (SetTransferStatusByFromS tid to from now)" "{from}" to
  for tid to "from" now
  by unfold_locales (simp_all add: fixed_cols_def)

section \<open>All statements\<close>

lemma stmt_row_update: "\<not> is_insert s \<Longrightarrow> row_update (apply_stmt s) (stmt_sel s) (stmt_upd s)"
  by (cases s) (simp_all add: preimage_upd.row_update_axioms confirm_upd.row_update_axioms
      refund_upd.row_update_axioms record_upd.row_update_axioms status_upd.row_update_axioms
      amount_upd.row_update_axioms pending_upd.row_update_axioms from_upd.row_update_axioms)

lemma insert_cases:
  assumes "is_insert s"
  obtains tx now where "s = InsertTransferS tx now"
  using assms by (cases s) auto

lemma insert_row_distinct: "keys_distinct T \<Longrightarrow> keys_distinct (insert_row r T)"
  by (simp add: insert_row_def keys_distinct_def has_tid_def)

lemma find_insert_row:
  "find_row tid (insert_row r T) =
     (case find_row tid T of Some x \<Rightarrow> Some x
      | None \<Rightarrow> if tid = TransferId r then Some r else None)"
proof -
  have "find p (T @ [r]) = (case find p T of Some x \<Rightarrow> Some x | None \<Rightarrow> find p [r])" for p
    by (induction T) auto
  then have app: "find_row tid (T @ [r]) =
      (case find_row tid T of Some x \<Rightarrow> Some x
        | None \<Rightarrow> if tid = TransferId r then Some r else None)"
    by (auto simp: find_row_def split: option.splits)
  show ?thesis
  proof (cases "has_tid (TransferId r) T")
    case True
    then obtain x where "find_row (TransferId r) T = Some x"
      using find_row_None [of "TransferId r" T] by (cases "find_row (TransferId r) T") auto
    with True show ?thesis by (auto simp: insert_row_def split: option.splits)
  next
    case False
    then show ?thesis by (simp add: insert_row_def app)
  qed
qed

lemma set_insert_row: "set (insert_row r T) \<subseteq> insert r (set T)" "set T \<subseteq> set (insert_row r T)"
  by (auto simp: insert_row_def)

lemma apply_stmt_distinct: "keys_distinct T \<Longrightarrow> keys_distinct (apply_stmt s T)"
  by (cases "is_insert s")
    (auto elim!: insert_cases simp: insert_row_distinct
      dest!: stmt_row_update row_update.distinct_kept)

lemma apply_stmt_keeps_row:
  assumes "find_row tid T = Some r"
  shows "\<exists>r'. find_row tid (apply_stmt s T) = Some r' \<and> fixed_cols r' = fixed_cols r"
proof (cases "is_insert s")
  case True
  with assms show ?thesis by (auto elim!: insert_cases simp: find_insert_row)
next
  case False
  then have "row_update (apply_stmt s) (stmt_sel s) (stmt_upd s)"
    by (rule stmt_row_update)
  with assms show ?thesis
    by (auto simp: row_update.find_opr row_update.keeps_fixed)
qed

end
