(* ===== verification/Contract_Bindings.thy ===== *)
theory Contract_Bindings
  imports CB_Prelude
begin

text \<open>
  The parts of the generated bindings \<open>src/contracts/cbridge.go\<close> and \<open>src/contracts/erc20.go\<close>,
  and of the wrapper \<open>src/layer1/eth_utils.go\<close>, that the node calls. A contract call is a
  method name with its arguments as ABI values; what a node answers is a list of ABI values,
  which the binding converts field by field. A conversion to the wrong type is a panic of Go.
\<close>

section \<open>ABI values and calls\<close>

datatype abi_val = VAddress addr | VUint256 int | VBytes32 hash | VUint64 u64 | VUint8 u8 | VBool bool | VString string

type_synonym abi_call = "string \<times> abi_val list"

section \<open>The bridge contract\<close>

definition CBridge_Confirm :: "hash \<Rightarrow> hash \<Rightarrow> abi_call" where
  "CBridge_Confirm transferId preimage = (''confirm'', [VBytes32 transferId, VBytes32 preimage])"

definition CBridge_Refund :: "hash \<Rightarrow> abi_call" where
  "CBridge_Refund transferId = (''refund'', [VBytes32 transferId])"

definition CBridge_TransferIn ::
  "addr \<Rightarrow> addr \<Rightarrow> int \<Rightarrow> hash \<Rightarrow> u64 \<Rightarrow> u64 \<Rightarrow> hash \<Rightarrow> abi_call" where
  "CBridge_TransferIn dstAddress token amount hashlock timelock srcChainId srcTransferId =
     (''transferIn'',
      [VAddress dstAddress, VAddress token, VUint256 amount, VBytes32 hashlock, VUint64 timelock,
       VUint64 srcChainId, VBytes32 srcTransferId])"

definition CBridge_TransferOut ::
  "addr \<Rightarrow> addr \<Rightarrow> int \<Rightarrow> hash \<Rightarrow> u64 \<Rightarrow> u64 \<Rightarrow> addr \<Rightarrow> abi_call" where
  "CBridge_TransferOut bridge token amount hashlock timelock dstChainId dstAddress =
     (''transferOut'',
      [VAddress bridge, VAddress token, VUint256 amount, VBytes32 hashlock, VUint64 timelock,
       VUint64 dstChainId, VAddress dstAddress])"

text \<open>The struct that \<open>transfers(bytes32)\<close> returns.\<close>

record TransfersOut =
  TO_Sender :: addr
  TO_Receiver :: addr
  TO_Token :: addr
  TO_Amount :: int
  TO_Hashlock :: hash
  TO_Timelock :: u64
  TO_Status :: u8

definition CBridge_transfers_call :: "hash \<Rightarrow> abi_call" where
  "CBridge_transfers_call arg0 = (''transfers'', [VBytes32 arg0])"

text \<open>\<open>None\<close> is the panic of a failed conversion.\<close>

definition CBridge_Transfers :: "abi_val list result \<Rightarrow> TransfersOut result option" where
  "CBridge_Transfers r =
     (case r of
        Inl err \<Rightarrow> Some (Inl err)
      | Inr (VAddress s # VAddress rc # VAddress tk # VUint256 am # VBytes32 hk # VUint64 lk # VUint8 st # _) \<Rightarrow>
          Some (Inr \<lparr>TO_Sender = s, TO_Receiver = rc, TO_Token = tk, TO_Amount = am,
            TO_Hashlock = hk, TO_Timelock = lk, TO_Status = st\<rparr>)
      | Inr _ \<Rightarrow> None)"

section \<open>Events of the bridge contract\<close>

record LogNewTransferOut =
  LO_TransferId :: hash
  LO_Sender :: addr
  LO_Receiver :: addr
  LO_Token :: addr
  LO_Amount :: int
  LO_Hashlock :: hash
  LO_Timelock :: u64
  LO_DstChainId :: u64
  LO_DstAddress :: addr

record LogNewTransferIn =
  LI_TransferId :: hash
  LI_Sender :: addr
  LI_Receiver :: addr
  LI_Token :: addr
  LI_Amount :: int
  LI_Hashlock :: hash
  LI_Timelock :: u64
  LI_SrcChainId :: u64
  LI_SrcTransferId :: hash

record LogTransferConfirmed =
  LC_TransferId :: hash
  LC_Preimage :: hash

record LogTransferRefunded =
  LR_TransferId :: hash

text \<open>
  A raw log: the fields the handlers read themselves, and what the library's \<open>UnpackLog\<close>
  delivers for an event name. \<open>ParseEvent\<close> is \<open>UnpackLog\<close> into one of the structs above; a
  list of values of another shape is an error of the library.
\<close>

record ethlog =
  LG_TxHash :: hash
  LG_BlockNumber :: u64
  LG_Unpack :: "string \<Rightarrow> abi_val list result"

definition ParseEvent :: "(abi_val list \<Rightarrow> 'e option) \<Rightarrow> string \<Rightarrow> ethlog \<Rightarrow> 'e result" where
  "ParseEvent conv name log =
     (case LG_Unpack log name of
        Inl err \<Rightarrow> Inl err
      | Inr vs \<Rightarrow> (case conv vs of Some ev \<Rightarrow> Inr ev | None \<Rightarrow> Inl ''abi: cannot unmarshal''))"

definition to_LogNewTransferOut :: "abi_val list \<Rightarrow> LogNewTransferOut option" where
  "to_LogNewTransferOut vs =
     (case vs of
        [VBytes32 t, VAddress s, VAddress r, VAddress k, VUint256 a, VBytes32 h, VUint64 l,
         VUint64 c, VAddress d] \<Rightarrow>
          Some \<lparr>LO_TransferId = t, LO_Sender = s, LO_Receiver = r, LO_Token = k, LO_Amount = a,
            LO_Hashlock = h, LO_Timelock = l, LO_DstChainId = c, LO_DstAddress = d\<rparr>
      | _ \<Rightarrow> None)"

definition to_LogNewTransferIn :: "abi_val list \<Rightarrow> LogNewTransferIn option" where
  "to_LogNewTransferIn vs =
     (case vs of
        [VBytes32 t, VAddress s, VAddress r, VAddress k, VUint256 a, VBytes32 h, VUint64 l,
         VUint64 c, VBytes32 sid] \<Rightarrow>
          Some \<lparr>LI_TransferId = t, LI_Sender = s, LI_Receiver = r, LI_Token = k, LI_Amount = a,
            LI_Hashlock = h, LI_Timelock = l, LI_SrcChainId = c, LI_SrcTransferId = sid\<rparr>
      | _ \<Rightarrow> None)"

definition to_LogTransferConfirmed :: "abi_val list \<Rightarrow> LogTransferConfirmed option" where
  "to_LogTransferConfirmed vs =
     (case vs of
        [VBytes32 t, VBytes32 p] \<Rightarrow> Some \<lparr>LC_TransferId = t, LC_Preimage = p\<rparr>
      | _ \<Rightarrow> None)"

definition to_LogTransferRefunded :: "abi_val list \<Rightarrow> LogTransferRefunded option" where
  "to_LogTransferRefunded vs =
     (case vs of [VBytes32 t] \<Rightarrow> Some \<lparr>LR_TransferId = t\<rparr> | _ \<Rightarrow> None)"

section \<open>The token contract\<close>

definition Erc20_Allowance_call :: "addr \<Rightarrow> addr \<Rightarrow> abi_call" where
  "Erc20_Allowance_call owner spender = (''allowance'', [VAddress owner, VAddress spender])"

definition Erc20_BalanceOf_call :: "addr \<Rightarrow> abi_call" where
  "Erc20_BalanceOf_call account = (''balanceOf'', [VAddress account])"

definition Erc20_Approve :: "addr \<Rightarrow> int \<Rightarrow> abi_call" where
  "Erc20_Approve spender amount = (''approve'', [VAddress spender, VUint256 amount])"

text \<open>The result of \<open>Allowance\<close> and \<open>BalanceOf\<close>: one big integer.\<close>

definition Erc20_out :: "abi_val list result \<Rightarrow> int result option" where
  "Erc20_out r =
     (case r of
        Inl err \<Rightarrow> Some (Inl err)
      | Inr (VUint256 i # _) \<Rightarrow> Some (Inr i)
      | Inr _ \<Rightarrow> None)"

section \<open>The bound contract of \<open>layer1\<close>\<close>

record 'conn BoundContract =
  BC_addr :: addr
  BC_abi :: string
  BC_conn :: 'conn

text \<open>\<open>NewBoundContract\<close> returns the contract even when the ABI text does not parse, with the
  error beside it.\<close>

definition NewBoundContract ::
  "(string \<Rightarrow> string option) \<Rightarrow> 'conn \<Rightarrow> addr \<Rightarrow> string \<Rightarrow> 'conn BoundContract \<times> string option" where
  "NewBoundContract abi_error conn ad rawABI =
     (\<lparr>BC_addr = ad, BC_abi = rawABI, BC_conn = conn\<rparr>, abi_error rawABI)"

definition GetAddr :: "'conn BoundContract \<Rightarrow> addr" where
  "GetAddr c = BC_addr c"

definition GetABI :: "'conn BoundContract \<Rightarrow> string" where
  "GetABI c = BC_abi c"

definition GetETHClient :: "'conn BoundContract \<Rightarrow> 'conn" where
  "GetETHClient c = BC_conn c"

definition SendTransaction ::
  "('conn \<Rightarrow> addr \<Rightarrow> 'auth \<Rightarrow> abi_call \<Rightarrow> 'tx result) \<Rightarrow> 'conn BoundContract \<Rightarrow> 'auth \<Rightarrow>
     string \<Rightarrow> abi_val list \<Rightarrow> 'tx result" where
  "SendTransaction transact c auth method params =
     transact (BC_conn c) (BC_addr c) auth (method, params)"

text \<open>A call is made with a deadline of four seconds.\<close>

definition CallFunc ::
  "('conn \<Rightarrow> addr \<Rightarrow> int \<Rightarrow> abi_call \<Rightarrow> abi_val list result) \<Rightarrow> 'conn BoundContract \<Rightarrow>
     string \<Rightarrow> abi_val list \<Rightarrow> abi_val list result" where
  "CallFunc callc c method params = callc (BC_conn c) (BC_addr c) (4 * second) (method, params)"

text \<open>\<open>WatchEvent\<close>: the subscription fails, or the first log arrives, or the caller is done
  first and gets the empty log with no error.\<close>

definition WatchEvent :: "ethlog \<Rightarrow> string option \<Rightarrow> ethlog option \<Rightarrow> ethlog result" where
  "WatchEvent no_log sub_error first =
     (case sub_error of
        Some err \<Rightarrow> Inl err
      | None \<Rightarrow> (case first of Some log \<Rightarrow> Inr log | None \<Rightarrow> Inr no_log))"

section \<open>The calls determine their arguments\<close>

lemma bridge_call_eq [simp]:
  "CBridge_transfers_call t = CBridge_transfers_call t2 \<longleftrightarrow> t = t2"
  "CBridge_TransferIn d tk a h l c o' = CBridge_TransferIn d2 tk2 a2 h2 l2 c2 o2 \<longleftrightarrow>
      d = d2 \<and> tk = tk2 \<and> a = a2 \<and> h = h2 \<and> l = l2 \<and> c = c2 \<and> o' = o2"
  "CBridge_Confirm t p = CBridge_Confirm t2 p2 \<longleftrightarrow> t = t2 \<and> p = p2"
  "CBridge_Refund t = CBridge_Refund t2 \<longleftrightarrow> t = t2"
  "CBridge_TransferIn d tk a h l c o' \<noteq> CBridge_Confirm t p"
  "CBridge_TransferIn d tk a h l c o' \<noteq> CBridge_Refund t"
  "CBridge_Confirm t p \<noteq> CBridge_TransferIn d tk a h l c o'"
  "CBridge_Refund t \<noteq> CBridge_TransferIn d tk a h l c o'"
  "CBridge_Confirm t p \<noteq> CBridge_Refund t2" "CBridge_Refund t2 \<noteq> CBridge_Confirm t p"
  by (simp_all add: CBridge_TransferIn_def CBridge_Confirm_def CBridge_Refund_def
      CBridge_transfers_call_def)

text \<open>A well-typed answer of \<open>transfers\<close> converts without a panic.\<close>

lemma CBridge_Transfers_typed [simp]:
  "CBridge_Transfers (Inr [VAddress s, VAddress rc, VAddress tk, VUint256 am, VBytes32 hk,
      VUint64 lk, VUint8 st]) =
    Some (Inr \<lparr>TO_Sender = s, TO_Receiver = rc, TO_Token = tk, TO_Amount = am,
      TO_Hashlock = hk, TO_Timelock = lk, TO_Status = st\<rparr>)"
  "CBridge_Transfers (Inl e) = Some (Inl e)"
  by (simp_all add: CBridge_Transfers_def)

end
