(* ===== verification/Proc.thy ===== *)
theory Proc
  imports Transfer_Table Gateway_RPC Contract_Bindings
begin

text \<open>
  Programs of the node as trees of effects, and how they run. A handler or one round of a
  relay loop is a \<open>proc\<close>: every call that leaves the program (the clock, the database, a chain,
  the gateway, a transaction, a sleep) is a node whose continuation takes the answer, so each
  call is one atomic step and between two of them any other goroutine may run. A query answers
  with any list the query allows on the table of that moment; a write that reports an error may
  or may not have happened; all other answers come from the outside and are only restricted by
  a predicate on events. The locale \<open>table_protocol\<close> is the rely-guarantee contract between
  the goroutines that share the table.
\<close>

section \<open>Effect trees\<close>

datatype proc =
    Done bool
  | Panic
  | Now "gotime \<Rightarrow> proc"
  | Exec stmt "string option \<Rightarrow> proc"
  | Query query "Transfer list result \<Rightarrow> proc"
  | BlockNumber u64 "u64 \<Rightarrow> proc"
  | CallContract u64 addr u64 abi_call "abi_val list result \<Rightarrow> proc"
  | FeeRpc GetFeeRequest "GetFeeResponse result \<Rightarrow> proc"
  | Transact u64 addr "abi_call result" "string option \<Rightarrow> proc"
  | Sleep int proc

text \<open>What a step did, with the answer it got. The first argument of the chain effects is the id
  of the chain they go to.\<close>

datatype ev =
    NowE gotime
  | ExecE stmt "string option"
  | QueryE query "Transfer list result"
  | BlockE u64 u64
  | CallE u64 addr u64 abi_call "abi_val list result"
  | FeeE GetFeeRequest "GetFeeResponse result"
  | TransactE u64 addr "abi_call result" "string option"
  | SleepE int

text \<open>\<open>for _, x := range xs { body }\<close>: the body is given the rest of the loop, which it runs
  where the code falls off its end or says \<open>continue\<close>.\<close>

fun for_each :: "('a \<Rightarrow> proc \<Rightarrow> proc) \<Rightarrow> 'a list \<Rightarrow> proc \<Rightarrow> proc" where
  "for_each body [] k = k"
| "for_each body (x # xs) k = body x (for_each body xs k)"

section \<open>Steps\<close>

text \<open>\<open>A\<close> says which answers the outside may give.\<close>

inductive pstep :: "(ev \<Rightarrow> bool) \<Rightarrow> table \<Rightarrow> proc \<Rightarrow> ev \<Rightarrow> table \<Rightarrow> proc \<Rightarrow> bool"
  for A :: "ev \<Rightarrow> bool" where
  now: "A (NowE t) \<Longrightarrow> pstep A T (Now k) (NowE t) T (k t)"
| exec: "pstep A T (Exec s k) (ExecE s None) (apply_stmt s T) (k None)"
| exec_lost: "pstep A T (Exec s k) (ExecE s (Some e)) T (k (Some e))"
| exec_unacknowledged: "pstep A T (Exec s k) (ExecE s (Some e)) (apply_stmt s T) (k (Some e))"
| query: "query_ok q T rs \<Longrightarrow> pstep A T (Query q k) (QueryE q (Inr rs)) T (k (Inr rs))"
| query_failed: "pstep A T (Query q k) (QueryE q (Inl e)) T (k (Inl e))"
| block: "A (BlockE c n) \<Longrightarrow> pstep A T (BlockNumber c k) (BlockE c n) T (k n)"
| call: "A (CallE c a n m r) \<Longrightarrow> pstep A T (CallContract c a n m k) (CallE c a n m r) T (k r)"
| fee: "A (FeeE q r) \<Longrightarrow> pstep A T (FeeRpc q k) (FeeE q r) T (k r)"
| transact: "A (TransactE c a m r) \<Longrightarrow> pstep A T (Transact c a m k) (TransactE c a m r) T (k r)"
| sleep: "pstep A T (Sleep d p) (SleepE d) T p"

inductive_cases pstep_Done [elim!]: "pstep A T (Done b) e T' p'"
inductive_cases pstep_Panic [elim!]: "pstep A T Panic e T' p'"
inductive_cases pstep_Now [elim!]: "pstep A T (Now k) e T' p'"
inductive_cases pstep_Exec [elim!]: "pstep A T (Exec s k) e T' p'"
inductive_cases pstep_Query [elim!]: "pstep A T (Query q k) e T' p'"
inductive_cases pstep_Block [elim!]: "pstep A T (BlockNumber c k) e T' p'"
inductive_cases pstep_Call [elim!]: "pstep A T (CallContract c a n m k) e T' p'"
inductive_cases pstep_Fee [elim!]: "pstep A T (FeeRpc q k) e T' p'"
inductive_cases pstep_Transact [elim!]: "pstep A T (Transact c a m k) e T' p'"
inductive_cases pstep_Sleep [elim!]: "pstep A T (Sleep d p) e T' p'"

text \<open>Goroutines are added by the monitors and the tickers and run interleaved, each with the
  history of its own steps, latest first. A crash of the node loses them all and keeps the
  table.\<close>

type_synonym thread = "ev list \<times> proc"

inductive sys_step ::
  "(ev \<Rightarrow> bool) \<Rightarrow> proc set \<Rightarrow> table \<times> thread list \<Rightarrow> table \<times> thread list \<Rightarrow> bool"
  for A :: "ev \<Rightarrow> bool" and P :: "proc set" where
  spawn: "p \<in> P \<Longrightarrow> sys_step A P (T, ths) (T, ths @ [([], p)])"
| run: "i < length ths \<Longrightarrow> ths ! i = (h, p) \<Longrightarrow> pstep A T p e T' p' \<Longrightarrow>
    sys_step A P (T, ths) (T', ths[i := (e # h, p')])"
| crash: "sys_step A P (T, ths) (T, [])"

inductive sys_reach ::
  "(ev \<Rightarrow> bool) \<Rightarrow> proc set \<Rightarrow> table \<times> thread list \<Rightarrow> table \<times> thread list \<Rightarrow> bool"
  for A :: "ev \<Rightarrow> bool" and P :: "proc set" and s0 :: "table \<times> thread list" where
  refl: "sys_reach A P s0 s0"
| step: "sys_reach A P s0 s \<Longrightarrow> sys_step A P s s' \<Longrightarrow> sys_reach A P s0 s'"

section \<open>Programs that keep a protocol\<close>

text \<open>
  \<open>safe A I X K p T\<close>: from table \<open>T\<close> on, whatever the others do within \<open>I\<close> (what every
  table satisfies) and \<open>X\<close> (how a table may grow), \<open>p\<close> writes only statements \<open>K\<close>
  allows on the table it meets.
\<close>

primrec safe ::
  "(ev \<Rightarrow> bool) \<Rightarrow> (table \<Rightarrow> bool) \<Rightarrow> (table \<Rightarrow> table \<Rightarrow> bool) \<Rightarrow> (table \<Rightarrow> stmt \<Rightarrow> bool) \<Rightarrow>
     proc \<Rightarrow> table \<Rightarrow> bool" where
  "safe A I X K (Done b) T = True"
| "safe A I X K Panic T = True"
| "safe A I X K (Now k) T = (\<forall>t. A (NowE t) \<longrightarrow> safe A I X K (k t) T)"
| "safe A I X K (Exec s k) T =
     (\<forall>T'. X T T' \<longrightarrow> I T' \<longrightarrow>
        K T' s \<and> safe A I X K (k None) (apply_stmt s T') \<and> (\<forall>e. safe A I X K (k (Some e)) T'))"
| "safe A I X K (Query q k) T =
     (\<forall>T'. X T T' \<longrightarrow> I T' \<longrightarrow>
        (\<forall>rs. query_ok q T' rs \<longrightarrow> safe A I X K (k (Inr rs)) T') \<and> (\<forall>e. safe A I X K (k (Inl e)) T'))"
| "safe A I X K (BlockNumber c k) T = (\<forall>n. A (BlockE c n) \<longrightarrow> safe A I X K (k n) T)"
| "safe A I X K (CallContract c a n m k) T =
     (\<forall>r. A (CallE c a n m r) \<longrightarrow> safe A I X K (k r) T)"
| "safe A I X K (FeeRpc q k) T = (\<forall>r. A (FeeE q r) \<longrightarrow> safe A I X K (k r) T)"
| "safe A I X K (Transact c a m k) T = (\<forall>r. A (TransactE c a m r) \<longrightarrow> safe A I X K (k r) T)"
| "safe A I X K (Sleep d p) T = safe A I X K p T"

locale table_protocol =
  fixes I :: "table \<Rightarrow> bool"
    and X :: "table \<Rightarrow> table \<Rightarrow> bool"
    and K :: "table \<Rightarrow> stmt \<Rightarrow> bool"
  assumes X_refl: "X T T"
    and X_trans: "X T T' \<Longrightarrow> X T' T'' \<Longrightarrow> X T T''"
    and apply_I: "I T \<Longrightarrow> K T s \<Longrightarrow> I (apply_stmt s T)"
    and apply_X: "I T \<Longrightarrow> K T s \<Longrightarrow> X T (apply_stmt s T)"
begin

lemma safe_mono: "safe A I X K p T \<Longrightarrow> X T T' \<Longrightarrow> safe A I X K p T'"
proof (induction p arbitrary: T T')
  case (Exec s k)
  then show ?case unfolding safe.simps by (meson X_trans)
next
  case (Query q k)
  then show ?case unfolding safe.simps by (meson X_trans)
qed (simp_all, blast+)

lemma pstep_safe:
  assumes "pstep A T p e T' p'" "I T" "safe A I X K p T"
  shows "I T' \<and> X T T' \<and> safe A I X K p' T'"
  using assms
proof (cases rule: pstep.cases)
  case (exec s k)
  with assms have "K T s" "safe A I X K (k None) (apply_stmt s T)" by (auto simp: X_refl)
  with exec assms show ?thesis by (simp add: apply_I apply_X)
next
  case (exec_unacknowledged s k e)
  with assms have "K T s" "safe A I X K (k (Some e)) T" by (auto simp: X_refl)
  with exec_unacknowledged assms show ?thesis by (auto simp: apply_I apply_X intro: safe_mono)
qed (auto simp: X_refl)

lemma sys_step_safe:
  assumes "sys_step A P (T, ths) (T', ths')" "I T"
    and "\<forall>th\<in>set ths. safe A I X K (snd th) T"
    and "\<And>p T. p \<in> P \<Longrightarrow> I T \<Longrightarrow> safe A I X K p T"
  shows "I T' \<and> X T T' \<and> (\<forall>th\<in>set ths'. safe A I X K (snd th) T')"
  using assms(1)
proof (cases rule: sys_step.cases)
  case (spawn p)
  then show ?thesis using assms by (auto simp: X_refl)
next
  case (run i h p e p')
  then have "(h, p) \<in> set ths" by (metis nth_mem)
  with assms(3) have "safe A I X K p T" by auto
  with run assms(2) have *: "I T'" "X T T'" "safe A I X K p' T'" by (auto dest: pstep_safe)
  have "safe A I X K (snd th) T'" if "th \<in> set ths'" for th
  proof -
    have "th = (e # h, p') \<or> th \<in> set ths"
      using that set_update_subset_insert [of ths i "(e # h, p')"] run(1) by auto
    then show ?thesis using *(2,3) assms(3) by (auto intro: safe_mono)
  qed
  with * show ?thesis by blast
next
  case crash
  then show ?thesis using assms by (simp add: X_refl)
qed

lemma sys_safe_from:
  assumes "sys_reach A P (T0, ths0) s" "I T0" "\<forall>th\<in>set ths0. safe A I X K (snd th) T0"
    and "\<And>p T. p \<in> P \<Longrightarrow> I T \<Longrightarrow> safe A I X K p T"
  shows "I (fst s) \<and> X T0 (fst s) \<and> (\<forall>th\<in>set (snd s). safe A I X K (snd th) (fst s))"
  using assms(1)
proof (induction rule: sys_reach.induct)
  case refl
  then show ?case using assms(2,3) by (simp add: X_refl)
next
  case (step s s')
  obtain T ths T' ths' where "s = (T, ths)" "s' = (T', ths')" by (cases s, cases s')
  with step sys_step_safe [where A = A and P = P and T = T and ths = ths and T' = T' and ths' = ths']
    assms(4) show ?case by (auto intro: X_trans)
qed

lemma sys_safe:
  assumes "sys_reach A P (T0, []) s" "I T0"
    and "\<And>p T. p \<in> P \<Longrightarrow> I T \<Longrightarrow> safe A I X K p T"
  shows "I (fst s) \<and> X T0 (fst s) \<and> (\<forall>th\<in>set (snd s). safe A I X K (snd th) (fst s))"
  using sys_safe_from [OF assms(1,2) _ assms(3)] by simp

lemma safe_Exec:
  assumes "\<And>T'. X T T' \<Longrightarrow> I T' \<Longrightarrow> K T' s"
    and "\<And>r T'. X T T' \<Longrightarrow> I T' \<Longrightarrow> safe A I X K (k r) T'"
  shows "safe A I X K (Exec s k) T"
  using assms by (simp, meson X_trans apply_I apply_X)

lemma safe_Query:
  assumes "\<And>rs T'. X T T' \<Longrightarrow> I T' \<Longrightarrow> query_ok q T' rs \<Longrightarrow> safe A I X K (k (Inr rs)) T'"
    and "\<And>e T'. X T T' \<Longrightarrow> I T' \<Longrightarrow> safe A I X K (k (Inl e)) T'"
  shows "safe A I X K (Query q k) T"
  using assms by auto

lemma safe_for_each:
  assumes "\<And>x k T'. x \<in> set xs \<Longrightarrow> X T T' \<Longrightarrow> safe A I X K k T' \<Longrightarrow> safe A I X K (body x k) T'"
    and "safe A I X K k T"
  shows "safe A I X K (for_each body xs k) T"
  using assms
  by (induction xs) (auto simp: X_refl)

end

section \<open>Programs whose steps are licensed by their own past\<close>

text \<open>\<open>traced_by F A Q p h\<close>: with past \<open>h\<close>, latest first, every step \<open>p\<close> may take from here on
  satisfies \<open>Q\<close> together with the steps before it, if queries answer within \<open>F\<close>. All that
  \<open>traced\<close> knows of a query is that it answers with rows it selects.\<close>

definition answer_fits :: "query \<Rightarrow> Transfer list result \<Rightarrow> bool" where
  "answer_fits q r = (case r of Inl e \<Rightarrow> True | Inr rs \<Rightarrow> \<forall>tx\<in>set rs. \<exists>x. tx = scan x \<and> query_sel q x)"

primrec traced_by ::
  "(query \<Rightarrow> Transfer list result \<Rightarrow> bool) \<Rightarrow> (ev \<Rightarrow> bool) \<Rightarrow> (ev list \<Rightarrow> ev \<Rightarrow> bool) \<Rightarrow>
     proc \<Rightarrow> ev list \<Rightarrow> bool" where
  "traced_by F A Q (Done b) h = True"
| "traced_by F A Q Panic h = True"
| "traced_by F A Q (Now k) h =
     (\<forall>t. A (NowE t) \<longrightarrow> Q h (NowE t) \<and> traced_by F A Q (k t) (NowE t # h))"
| "traced_by F A Q (Exec s k) h = (\<forall>r. Q h (ExecE s r) \<and> traced_by F A Q (k r) (ExecE s r # h))"
| "traced_by F A Q (Query q k) h =
     (\<forall>r. F q r \<longrightarrow> Q h (QueryE q r) \<and> traced_by F A Q (k r) (QueryE q r # h))"
| "traced_by F A Q (BlockNumber c k) h =
     (\<forall>n. A (BlockE c n) \<longrightarrow> Q h (BlockE c n) \<and> traced_by F A Q (k n) (BlockE c n # h))"
| "traced_by F A Q (CallContract c a n m k) h =
     (\<forall>r. A (CallE c a n m r) \<longrightarrow> Q h (CallE c a n m r) \<and> traced_by F A Q (k r) (CallE c a n m r # h))"
| "traced_by F A Q (FeeRpc q k) h =
     (\<forall>r. A (FeeE q r) \<longrightarrow> Q h (FeeE q r) \<and> traced_by F A Q (k r) (FeeE q r # h))"
| "traced_by F A Q (Transact c a m k) h =
     (\<forall>r. A (TransactE c a m r) \<longrightarrow>
        Q h (TransactE c a m r) \<and> traced_by F A Q (k r) (TransactE c a m r # h))"
| "traced_by F A Q (Sleep d p) h = (Q h (SleepE d) \<and> traced_by F A Q p (SleepE d # h))"

abbreviation traced ::
  "(ev \<Rightarrow> bool) \<Rightarrow> (ev list \<Rightarrow> ev \<Rightarrow> bool) \<Rightarrow> proc \<Rightarrow> ev list \<Rightarrow> bool" where
  "traced \<equiv> traced_by answer_fits"

fun history_ok :: "(ev list \<Rightarrow> ev \<Rightarrow> bool) \<Rightarrow> ev list \<Rightarrow> bool" where
  "history_ok Q [] = True"
| "history_ok Q (e # h) = (Q h e \<and> history_ok Q h)"

lemma history_ok_at: "history_ok Q (newer @ e # older) \<Longrightarrow> Q older e"
  by (induction newer) auto

lemma query_answer_fits: "query_ok q T rs \<Longrightarrow> answer_fits q (Inr rs)"
  unfolding answer_fits_def by (auto elim: query_ok_set)

lemma pstep_traced:
  assumes "pstep A T p e T' p'" "traced A Q p h"
  shows "Q h e \<and> traced A Q p' (e # h)"
  using assms
proof (cases rule: pstep.cases)
  case (query q rs k)
  with assms(2) query_answer_fits [OF query(5)] show ?thesis by simp
next
  case (query_failed q k e)
  with assms(2) show ?thesis by (simp add: answer_fits_def)
qed auto

lemma sys_traced:
  assumes "sys_reach A P (T0, []) s" "\<And>p. p \<in> P \<Longrightarrow> traced A Q p []"
  shows "\<forall>(h, p)\<in>set (snd s). history_ok Q h \<and> traced A Q p h"
  using assms(1)
proof (induction rule: sys_reach.induct)
  case refl
  then show ?case by simp
next
  case (step s s')
  from step.hyps(2) show ?case
  proof (cases rule: sys_step.cases)
    case (spawn p T ths)
    with step.IH assms(2) show ?thesis by simp
  next
    case (run i ths h p T e T' p')
    then have "(h, p) \<in> set ths" by (metis nth_mem)
    with step.IH run have "history_ok Q h" "traced A Q p h" by auto
    with pstep_traced [of A T p e T' p' Q h] run have "history_ok Q (e # h) \<and> traced A Q p' (e # h)"
      by simp
    with run step.IH set_update_subset_insert [of ths i "(e # h, p')"] show ?thesis by auto
  qed simp
qed

lemma traced_for_each:
  assumes "\<And>x k h. x \<in> set xs \<Longrightarrow> S h \<Longrightarrow> (\<And>h'. S h' \<Longrightarrow> traced_by F A Q k h') \<Longrightarrow> traced_by F A Q (body x k) h"
    and "\<And>h. S h \<Longrightarrow> traced_by F A Q k h" "S h"
  shows "traced_by F A Q (for_each body xs k) h"
  using assms by (induction xs arbitrary: h) auto

text \<open>What a thread did, whenever it did it, was licensed by what it had done before.\<close>

lemma sys_licensed:
  assumes "sys_reach A P (T0, []) (T, ths)" "\<And>p. p \<in> P \<Longrightarrow> traced A Q p []"
    and "(newer @ e # older, p) \<in> set ths"
  shows "Q older e"
  using sys_traced [OF assms(1,2)] assms(3) by (auto dest: history_ok_at)

section \<open>Running a program alone\<close>

text \<open>The outside as functions: one instant, and an answer for each request. Writes succeed and
  queries answer in table order.\<close>

record outside =
  O_Now :: gotime
  O_Block :: "u64 \<Rightarrow> u64"
  O_Call :: "u64 \<Rightarrow> abi_call \<Rightarrow> abi_val list result"
  O_Fee :: "GetFeeRequest \<Rightarrow> GetFeeResponse result"
  O_Tx :: "u64 \<Rightarrow> abi_call result \<Rightarrow> string option"

text \<open>The table at the end, the steps latest first, and the returned flag or \<open>None\<close> for a panic.\<close>

primrec run_alone :: "outside \<Rightarrow> proc \<Rightarrow> table \<Rightarrow> ev list \<Rightarrow> table \<times> ev list \<times> bool option" where
  "run_alone w (Done b) T h = (T, h, Some b)"
| "run_alone w Panic T h = (T, h, None)"
| "run_alone w (Now k) T h = run_alone w (k (O_Now w)) T (NowE (O_Now w) # h)"
| "run_alone w (Exec s k) T h = run_alone w (k None) (apply_stmt s T) (ExecE s None # h)"
| "run_alone w (Query q k) T h =
     run_alone w (k (Inr (run_query q T))) T (QueryE q (Inr (run_query q T)) # h)"
| "run_alone w (BlockNumber c k) T h =
     run_alone w (k (O_Block w c)) T (BlockE c (O_Block w c) # h)"
| "run_alone w (CallContract c a n m k) T h =
     run_alone w (k (O_Call w c m)) T (CallE c a n m (O_Call w c m) # h)"
| "run_alone w (FeeRpc q k) T h = run_alone w (k (O_Fee w q)) T (FeeE q (O_Fee w q) # h)"
| "run_alone w (Transact c a m k) T h =
     run_alone w (k (O_Tx w c m)) T (TransactE c a m (O_Tx w c m) # h)"
| "run_alone w (Sleep d p) T h = run_alone w p T (SleepE d # h)"

text \<open>Running alone is one of the interleavings, if the outside is one that \<open>A\<close> admits.\<close>

definition admits :: "(ev \<Rightarrow> bool) \<Rightarrow> outside \<Rightarrow> bool" where
  "admits A w \<longleftrightarrow>
     A (NowE (O_Now w)) \<and> (\<forall>c. A (BlockE c (O_Block w c))) \<and>
     (\<forall>c a n m. A (CallE c a n m (O_Call w c m))) \<and> (\<forall>q. A (FeeE q (O_Fee w q))) \<and>
     (\<forall>c a m. A (TransactE c a m (O_Tx w c m)))"

lemma admits_all [simp]: "admits (\<lambda>e. True) w"
  by (simp add: admits_def)

lemma admitsD:
  assumes "admits A w"
  shows "A (NowE (O_Now w))" "A (BlockE c (O_Block w c))" "A (CallE c a n m (O_Call w c m))"
    "A (FeeE q (O_Fee w q))" "A (TransactE c a mr (O_Tx w c mr))"
  using assms unfolding admits_def by blast+

definition ended :: "bool option \<Rightarrow> proc" where
  "ended b = (case b of Some r \<Rightarrow> Done r | None \<Rightarrow> Panic)"

lemma thread_steps:
  assumes "sys_reach A P s0 (T, ths)" "i < length ths" "ths ! i = (h, p)" "pstep A T p e T1 p1"
  shows "sys_reach A P s0 (T1, ths[i := (e # h, p1)])"
  using sys_reach.step [OF assms(1) sys_step.run [OF assms(2-4)]] .

lemma run_thread:
  assumes adm: "admits A w"
    and "sys_reach A P s0 (T, ths)" "i < length ths" "ths ! i = (h, p)"
    and "run_alone w p T h = (T', h', b)"
  shows "sys_reach A P s0 (T', ths[i := (h', ended b)])"
proof -
  note adm_facts = admitsD [OF adm]
  show ?thesis
    using assms(2-5)
  proof (induction p arbitrary: T ths h)
    case (Now k)
    from Now.IH [OF rangeI [of k "O_Now w"] thread_steps [OF Now.prems(1-3) pstep.now [of A "O_Now w"]]] Now.prems
    show ?case by (simp add: adm_facts)
  next
    case (Exec s k)
    from Exec.IH [OF rangeI [of k None] thread_steps [OF Exec.prems(1-3) pstep.exec [of A T s k]]] Exec.prems
    show ?case by (simp add: adm_facts)
  next
    case (Query q k)
    from Query.IH [OF rangeI [of k "Inr (run_query q T)"] thread_steps [OF Query.prems(1-3) pstep.query [OF run_query_ok [of q T], of A k]]] Query.prems
    show ?case by (simp add: adm_facts)
  next
    case (BlockNumber c k)
    from BlockNumber.IH [OF rangeI [of k "O_Block w c"] thread_steps [OF BlockNumber.prems(1-3) pstep.block [of A c "O_Block w c" T k]]] BlockNumber.prems
    show ?case by (simp add: adm_facts)
  next
    case (CallContract c a n m k)
    from CallContract.IH [OF rangeI [of k "O_Call w c m"] thread_steps [OF CallContract.prems(1-3) pstep.call [of A c a n m "O_Call w c m"]]] CallContract.prems
    show ?case by (simp add: adm_facts)
  next
    case (FeeRpc q k)
    from FeeRpc.IH [OF rangeI [of k "O_Fee w q"] thread_steps [OF FeeRpc.prems(1-3) pstep.fee [of A q "O_Fee w q"]]] FeeRpc.prems
    show ?case by (simp add: adm_facts)
  next
    case (Transact c a m k)
    from Transact.IH [OF rangeI [of k "O_Tx w c m"] thread_steps [OF Transact.prems(1-3) pstep.transact [of A c a m "O_Tx w c m"]]] Transact.prems
    show ?case by (simp add: adm_facts)
  next
    case (Sleep d p)
    from Sleep.IH [OF thread_steps [OF Sleep.prems(1-3) pstep.sleep]] Sleep.prems
    show ?case by (simp add: adm_facts)
  qed (metis fst_conv snd_conv run_alone.simps(1,2) ended_def option.case list_update_id)+
qed

text \<open>A new goroutine that runs to its end beside the others, and one that does so after a crash.\<close>

lemma spawn_then_alone:
  assumes "admits A w" "sys_reach A P s0 (T, ths)" "p \<in> P" "run_alone w p T [] = (T', h', b)"
  shows "sys_reach A P s0 (T', ths @ [(h', ended b)])"
  using run_thread [OF assms(1) sys_reach.step [OF assms(2) sys_step.spawn [OF assms(3)]] _ _ assms(4),
      of "length ths"] by simp

lemma alone_then_alone:
  assumes "admits A w" and "sys_reach A P s0 (T, ths)" "p \<in> P" "run_alone w p T [] = (T', h', b)"
  shows "\<exists>p'. sys_reach A P s0 (T', [(h', p')])"
  using spawn_then_alone [OF assms(1) sys_reach.step [OF assms(2) sys_step.crash] assms(3,4)] by auto

end
