(* ===== verification/Server_State.thy ===== *)
theory Server_State
  imports Util Node_Config Gateway_RPC Proc
begin

text \<open>
  The state of \<open>src/server/server.go\<close> that handlers and loops read (it is written only by
  \<open>Init\<close>, modelled in \<open>Server_Init\<close>), the calls to a chain that go through a
  \<open>bridgeConfig\<close>, and the clock-reading wrappers of the data-access layer. Go's \<open>int64\<close>
  and \<open>uint64\<close> values are words of 64 bits, read with \<open>sint\<close> where they are signed.
\<close>

section \<open>State\<close>

record chainGasTokenInfo =
  GT_GasTokenName :: string
  GT_GasTokenDecimal :: u64

text \<open>A \<open>*contracts.Erc20\<close> is bound to the address it is stored under, so the token map is the
  list of its keys.\<close>

record bridgeConfig =
  BG_config :: ChainConfig
  BG_chainId :: int
  BG_contract :: addr
  BG_erc20 :: "addr list"

record server =
  SV_version :: string
  SV_cfg :: "CBridgeConfig option"
  SV_chainMap :: "u64 \<rightharpoonup> bridgeConfig"
  SV_accountAddr :: addr
  SV_gatewayChainInfoMap :: "u64 \<rightharpoonup> GatewayChainInfo"
  SV_chainTokenNameMap :: "u64 \<rightharpoonup> (addr \<rightharpoonup> string)"
  SV_chainTokenAddrMap :: "u64 \<rightharpoonup> (string \<rightharpoonup> addr)"
  SV_chainTokenDecimalMap :: "u64 \<rightharpoonup> (addr \<rightharpoonup> u64)"
  SV_chainGasTokenMap :: "u64 \<rightharpoonup> chainGasTokenInfo"

definition NewServer :: "string \<Rightarrow> server" where
  "NewServer version =
     \<lparr>SV_version = version, SV_cfg = None, SV_chainMap = Map.empty, SV_accountAddr = 0,
      SV_gatewayChainInfoMap = Map.empty, SV_chainTokenNameMap = Map.empty,
      SV_chainTokenAddrMap = Map.empty, SV_chainTokenDecimalMap = Map.empty,
      SV_chainGasTokenMap = Map.empty\<rparr>"

definition remoteTransferStatusUndefined :: u8 where "remoteTransferStatusUndefined = 0"
definition remoteTransferStatusPending :: u8 where "remoteTransferStatusPending = 1"
definition remoteTransferStatusConfirmed :: u8 where "remoteTransferStatusConfirmed = 2"
definition remoteTransferStatusRefunded :: u8 where "remoteTransferStatusRefunded = 3"

lemmas remote_status_defs = remoteTransferStatusUndefined_def remoteTransferStatusPending_def
  remoteTransferStatusConfirmed_def remoteTransferStatusRefunded_def

text \<open>\<open>bc.chainId.Uint64()\<close>.\<close>

definition chain_uint64 :: "bridgeConfig \<Rightarrow> u64" where
  "chain_uint64 bc = of_int (BG_chainId bc)"

section \<open>The libraries around the code\<close>

datatype sol_val = SolAddress addr | SolBytes32 hash | SolString string

text \<open>\<open>NE_SHA3\<close> is \<open>solsha3.SoliditySHA3\<close>; \<open>NE_AbiErr\<close> is the error, if any, of parsing
  the constant ABI text, on which every binding constructor depends.\<close>

record node_env =
  NE_lib :: ethlib
  NE_SHA3 :: "string list \<Rightarrow> sol_val list \<Rightarrow> u8 list"
  NE_AbiErr :: "string option"

definition getTransferId :: "node_env \<Rightarrow> addr \<Rightarrow> addr \<Rightarrow> hash \<Rightarrow> u64 \<Rightarrow> hash" where
  "getTransferId env sender receiver hashLock chainId =
     Bytes2Hash (NE_lib env)
       (NE_SHA3 env [''address'', ''address'', ''bytes32'', ''uint256'']
          [SolAddress sender, SolAddress receiver, SolBytes32 hashLock,
           SolString (FormatUint10 chainId)])"

section \<open>Calls to a chain\<close>

record TransferInfo =
  TI_Sender :: addr
  TI_Receiver :: addr
  TI_Token :: addr
  TI_Amount :: int
  TI_HashLock :: hash
  TI_TimeLock :: u64
  TI_Status :: u8

definition TransferInfo_of :: "TransfersOut \<Rightarrow> TransferInfo" where
  "TransferInfo_of t =
     \<lparr>TI_Sender = TO_Sender t, TI_Receiver = TO_Receiver t, TI_Token = TO_Token t,
      TI_Amount = TO_Amount t, TI_HashLock = TO_Hashlock t, TI_TimeLock = TO_Timelock t,
      TI_Status = TO_Status t\<rparr>"

text \<open>The block the state is read at: the delay is subtracted in \<open>uint64\<close>, so a delay larger
  than the height wraps to a block far in the future.\<close>

definition safeBlkNum :: "bridgeConfig \<Rightarrow> u64 \<Rightarrow> u64" where
  "safeBlkNum bc n =
     n - WatchConfig_GetBlockDelay (ChainConfig_GetWatchConfig (Some (BG_config bc)))"

definition getTransfer ::
  "node_env \<Rightarrow> bridgeConfig \<Rightarrow> hash \<Rightarrow> (TransferInfo result \<Rightarrow> proc) \<Rightarrow> proc" where
  "getTransfer env bc transferId k =
     (case NE_AbiErr env of
        Some err \<Rightarrow> k (Inl err)
      | None \<Rightarrow>
          BlockNumber (chain_uint64 bc) (\<lambda>n.
          CallContract (chain_uint64 bc) (BG_contract bc) (safeBlkNum bc n)
            (CBridge_transfers_call transferId) (\<lambda>r.
          case CBridge_Transfers r of
            None \<Rightarrow> Panic
          | Some (Inl err) \<Rightarrow> k (Inl err)
          | Some (Inr t) \<Rightarrow> k (Inr (TransferInfo_of t)))))"

text \<open>What the callback given to the transactor returns: the error of the binding, or the call.\<close>

definition bound_call :: "node_env \<Rightarrow> abi_call \<Rightarrow> abi_call result" where
  "bound_call env c = (case NE_AbiErr env of Some err2 \<Rightarrow> Inl err2 | None \<Rightarrow> Inr c)"

definition transferIn ::
  "node_env \<Rightarrow> bridgeConfig \<Rightarrow> addr \<Rightarrow> addr \<Rightarrow> int \<Rightarrow> hash \<Rightarrow> hash \<Rightarrow> hash \<Rightarrow> u64 \<Rightarrow> u64 \<Rightarrow>
     (string option \<Rightarrow> proc) \<Rightarrow> proc" where
  "transferIn env bc dstAddr token amount hashLock transferId srcTransferId timeLock srcChainId k =
     Transact (chain_uint64 bc) (BG_contract bc)
       (bound_call env
          (CBridge_TransferIn dstAddr token amount hashLock timeLock srcChainId srcTransferId)) k"

definition confirm ::
  "node_env \<Rightarrow> bridgeConfig \<Rightarrow> hash \<Rightarrow> hash \<Rightarrow> hash \<Rightarrow> hash \<Rightarrow> (string option \<Rightarrow> proc) \<Rightarrow> proc" where
  "confirm env bc transferId srcTransferId preImage hashLock k =
     Transact (chain_uint64 bc) (BG_contract bc)
       (bound_call env (CBridge_Confirm transferId preImage)) k"

definition refund ::
  "node_env \<Rightarrow> bridgeConfig \<Rightarrow> hash \<Rightarrow> hash \<Rightarrow> hash \<Rightarrow> (string option \<Rightarrow> proc) \<Rightarrow> proc" where
  "refund env bc transferId srcTransferId hashLock k =
     Transact (chain_uint64 bc) (BG_contract bc) (bound_call env (CBridge_Refund transferId)) k"

section \<open>Database calls\<close>

text \<open>The methods of the data-access layer that read the clock themselves.\<close>

definition db_InsertTransfer :: "Transfer \<Rightarrow> (string option \<Rightarrow> proc) \<Rightarrow> proc" where
  "db_InsertTransfer tx k = Now (\<lambda>tsNow. Exec (InsertTransferS tx tsNow) k)"

definition db_SetPendingTransferIn ::
  "hash \<Rightarrow> TransferStatus \<Rightarrow> TransferStatus \<Rightarrow> (string option \<Rightarrow> proc) \<Rightarrow> proc" where
  "db_SetPendingTransferIn tid to from k = Now (\<lambda>now. Exec (SetPendingTransferInS tid to from now) k)"

definition db_SetTransferStatusByFrom ::
  "hash \<Rightarrow> TransferStatus \<Rightarrow> TransferStatus \<Rightarrow> (string option \<Rightarrow> proc) \<Rightarrow> proc" where
  "db_SetTransferStatusByFrom tid to from k =
     Now (\<lambda>now. Exec (SetTransferStatusByFromS tid to from now) k)"

definition db_GetAllStartTransferIn :: "(Transfer list result \<Rightarrow> proc) \<Rightarrow> proc" where
  "db_GetAllStartTransferIn k = Now (\<lambda>now. Query (StartTransferInQ (now + hour)) k)"

definition db_GetRecoverTimeoutPendingTransferIn :: "(Transfer list result \<Rightarrow> proc) \<Rightarrow> proc" where
  "db_GetRecoverTimeoutPendingTransferIn k =
     Now (\<lambda>tsNow. Query (RecoverPendingTransferInQ (tsNow - 15 * minute) (tsNow + 6 * minute)) k)"

definition db_GetRecoverTimeoutPendingConfirm :: "(Transfer list result \<Rightarrow> proc) \<Rightarrow> proc" where
  "db_GetRecoverTimeoutPendingConfirm k =
     Now (\<lambda>tsNow. Query (RecoverPendingConfirmQ (tsNow - 15 * minute) (tsNow + 6 * minute)) k)"

definition db_GetRecoverTimeoutPendingRefund :: "(Transfer list result \<Rightarrow> proc) \<Rightarrow> proc" where
  "db_GetRecoverTimeoutPendingRefund k =
     Now (\<lambda>tsNow. Query (RecoverPendingRefundQ (tsNow - 15 * minute)) k)"

definition db_GetAllRefundAbleTransferIn :: "(Transfer list result \<Rightarrow> proc) \<Rightarrow> proc" where
  "db_GetAllRefundAbleTransferIn k = Now (\<lambda>now. Query (RefundAbleTransferInQ now) k)"

text \<open>\<open>GetTransferByTid\<close> takes the first row of the result.\<close>

definition db_GetTransferByTid :: "hash \<Rightarrow> (Transfer option result \<Rightarrow> proc) \<Rightarrow> proc" where
  "db_GetTransferByTid tid k =
     Query (ByTidQ tid) (\<lambda>r. case r of
         Inl err \<Rightarrow> k (Inl err)
       | Inr [] \<Rightarrow> k (Inr None)
       | Inr (tx # _) \<Rightarrow> k (Inr (Some tx)))"

lemmas db_defs [proc_simps] = db_InsertTransfer_def db_SetPendingTransferIn_def
  db_SetTransferStatusByFrom_def db_GetAllStartTransferIn_def
  db_GetRecoverTimeoutPendingTransferIn_def db_GetRecoverTimeoutPendingConfirm_def
  db_GetRecoverTimeoutPendingRefund_def db_GetAllRefundAbleTransferIn_def db_GetTransferByTid_def

lemmas chain_defs [proc_simps] = transferIn_def confirm_def refund_def getTransfer_def

text \<open>The gateway call of a relay loop.\<close>

definition gateway_GetFee :: "node_env \<Rightarrow> hash \<Rightarrow> (gw_error + int \<Rightarrow> proc) \<Rightarrow> proc" where
  "gateway_GetFee env transferOutId k =
     FeeRpc \<lparr>FQ_TransferOutId = HashString (NE_lib env) transferOutId\<rparr>
       (\<lambda>r. k (GetFee_result (case r of Inl err \<Rightarrow> Inl err | Inr out \<Rightarrow> Inr (Some out))))"

end
