(* ===== verification/Monitor_Handlers.thy ===== *)
theory Monitor_Handlers
  imports Server_State
begin

text \<open>
  The four event callbacks of \<open>src/server/server.go\<close> as programs. A callback returns whether
  the monitor shall deliver the event again; here that is the flag of \<open>Done\<close>.
\<close>

section \<open>Monitor configurations\<close>

definition evLogTransferOut :: string where "evLogTransferOut = ''LogNewTransferOut''"
definition evLogTransferIn :: string where "evLogTransferIn = ''LogNewTransferIn''"
definition evLogTransferConfirmed :: string where "evLogTransferConfirmed = ''LogTransferConfirmed''"
definition evLogTransferRefunded :: string where "evLogTransferRefunded = ''LogTransferRefunded''"

section \<open>A new transfer out\<close>

text \<open>The power of ten the code computes in \<open>uint64\<close>, by a loop that wraps.\<close>

fun pow10_loop :: "nat \<Rightarrow> u64 \<Rightarrow> u64" where
  "pow10_loop 0 p = p"
| "pow10_loop (Suc n) p = pow10_loop n (p * 10)"

text \<open>The amount on the destination chain; \<open>None\<close> is the panic of a division by zero.\<close>

definition dst_amount :: "int \<Rightarrow> u64 \<Rightarrow> u64 \<Rightarrow> int option" where
  "dst_amount amount srcTokenDecimal dstTokenDecimal =
     (if dstTokenDecimal < srcTokenDecimal then
        big_Div amount (uint (pow10_loop (unat (srcTokenDecimal - dstTokenDecimal)) 1))
      else if srcTokenDecimal < dstTokenDecimal then
        Some (amount * uint (pow10_loop (unat (dstTokenDecimal - srcTokenDecimal)) 1))
      else Some amount)"

definition out_transfer ::
  "node_env \<Rightarrow> bridgeConfig \<Rightarrow> ethlog \<Rightarrow> LogNewTransferOut \<Rightarrow> addr \<Rightarrow> gotime \<Rightarrow> Transfer" where
  "out_transfer env bc eLog ev dstToken tsNow =
     \<lparr>TransferId = LO_TransferId ev, TxHash = LG_TxHash eLog, ChainId = chain_uint64 bc,
      Token = LO_Token ev, TransferType = TRANSFER_TYPE_OUT,
      TimeLock = sint (LO_Timelock ev) * second, HashLock = LO_Hashlock ev,
      Status = TRANSFER_STATUS_LOCKED,
      RelatedTid =
        getTransferId env (LO_Receiver ev) (LO_DstAddress ev) (LO_Hashlock ev) (LO_DstChainId ev),
      RelatedChainId = LO_DstChainId ev, RelatedToken = dstToken, Amount = LO_Amount ev, Fee = 0,
      TransferGasCost = 0, ConfirmGasCost = 0, RefundGasCost = 0, Preimage = 0,
      Sender = LO_Sender ev, Receiver = LO_Receiver ev, TxConfirmHash = 0, TxRefundHash = 0,
      UpdateTs = tsNow, CreateTs = tsNow\<rparr>"

text \<open>Seconds until the lock of the source expires, in \<open>int64\<close>.\<close>

definition src_timeout :: "LogNewTransferOut \<Rightarrow> gotime \<Rightarrow> u64" where
  "src_timeout ev tsNow = LO_Timelock ev - of_int (tsNow div second)"

text \<open>\<open>tsNow.Add(time.Duration(timeout-(8*3600)) * time.Second)\<close>; the product is an \<open>int64\<close>.\<close>

definition chain2TimeLock :: "LogNewTransferOut \<Rightarrow> gotime \<Rightarrow> gotime" where
  "chain2TimeLock ev tsNow = tsNow + sint ((src_timeout ev tsNow - 8 * 3600) * of_int second)"

definition in_transfer ::
  "node_env \<Rightarrow> bridgeConfig \<Rightarrow> LogNewTransferOut \<Rightarrow> addr \<Rightarrow> int \<Rightarrow> gotime \<Rightarrow> Transfer" where
  "in_transfer env bc ev dstToken dstAmount tsNow =
     \<lparr>TransferId =
        getTransferId env (LO_Receiver ev) (LO_DstAddress ev) (LO_Hashlock ev) (LO_DstChainId ev),
      TxHash = 0, ChainId = LO_DstChainId ev, Token = dstToken, TransferType = TRANSFER_TYPE_IN,
      TimeLock = chain2TimeLock ev tsNow, HashLock = LO_Hashlock ev,
      Status = TRANSFER_STATUS_TRANSFER_IN_START, RelatedTid = LO_TransferId ev,
      RelatedChainId = chain_uint64 bc, RelatedToken = LO_Token ev, Amount = dstAmount, Fee = 0,
      TransferGasCost = 0, ConfirmGasCost = 0, RefundGasCost = 0, Preimage = 0,
      Sender = LO_Receiver ev, Receiver = LO_DstAddress ev, TxConfirmHash = 0, TxRefundHash = 0,
      UpdateTs = tsNow, CreateTs = tsNow\<rparr>"

definition monitorLogTransferOut ::
  "node_env \<Rightarrow> server \<Rightarrow> bridgeConfig \<Rightarrow> ethlog \<Rightarrow> proc" where
  "monitorLogTransferOut env s bc eLog =
     (case ParseEvent to_LogNewTransferOut evLogTransferOut eLog of
        Inl err \<Rightarrow> Done False
      | Inr ev \<Rightarrow>
          if LO_Receiver ev \<noteq> SV_accountAddr s then Done False
          else if SV_chainMap s (LO_DstChainId ev) = None then Done False
          else Now (\<lambda>tsNow.
            case lookup2 (SV_chainTokenNameMap s) (chain_uint64 bc) (LO_Token ev) of
              None \<Rightarrow> Done False
            | Some tokenName \<Rightarrow>
            case SV_chainTokenAddrMap s (LO_DstChainId ev) of
              None \<Rightarrow> Done False
            | Some dstChainTokenMap \<Rightarrow>
            case dstChainTokenMap tokenName of
              None \<Rightarrow> Done False
            | Some dstToken \<Rightarrow>
            case lookup2 (SV_chainTokenDecimalMap s) (chain_uint64 bc) (LO_Token ev) of
              None \<Rightarrow> Done False
            | Some srcTokenDecimal \<Rightarrow>
            case lookup2 (SV_chainTokenDecimalMap s) (LO_DstChainId ev) dstToken of
              None \<Rightarrow> Done False
            | Some dstTokenDecimal \<Rightarrow>
            case dst_amount (LO_Amount ev) srcTokenDecimal dstTokenDecimal of
              None \<Rightarrow> Panic
            | Some dstAmount \<Rightarrow>
              db_InsertTransfer (out_transfer env bc eLog ev dstToken tsNow) (\<lambda>dbErr.
                if dbErr \<noteq> None then Done True
                else if sint (src_timeout ev tsNow) < 3600 * 16 then Done False
                else db_InsertTransfer (in_transfer env bc ev dstToken dstAmount tsNow) (\<lambda>dbErr.
                  if dbErr \<noteq> None then Done True else Done False))))"

section \<open>The other events\<close>

definition monitorLogTransferIn :: "server \<Rightarrow> ethlog \<Rightarrow> proc" where
  "monitorLogTransferIn s eLog =
     (case ParseEvent to_LogNewTransferIn evLogTransferIn eLog of
        Inl err \<Rightarrow> Done False
      | Inr ev \<Rightarrow>
          if LI_Sender ev \<noteq> SV_accountAddr s then Done False
          else Exec (RecordTransferInS (LI_TransferId ev) (LG_TxHash eLog)) (\<lambda>dbErr.
            if dbErr \<noteq> None then Done True else Done False))"

definition monitorLogConfirm :: "ethlog \<Rightarrow> proc" where
  "monitorLogConfirm eLog =
     (case ParseEvent to_LogTransferConfirmed evLogTransferConfirmed eLog of
        Inl err \<Rightarrow> Done False
      | Inr ev \<Rightarrow>
          Exec (ConfirmTransferS (LC_TransferId ev) (LC_Preimage ev) (LG_TxHash eLog)) (\<lambda>dbErr.
            if dbErr \<noteq> None then Done True
            else Exec (SetRelatedTxPreimageS (LC_Preimage ev) (LC_TransferId ev)) (\<lambda>dbErr.
              if dbErr \<noteq> None then Done True else Done False)))"

definition monitorLogRefund :: "ethlog \<Rightarrow> proc" where
  "monitorLogRefund eLog =
     (case ParseEvent to_LogTransferRefunded evLogTransferRefunded eLog of
        Inl err \<Rightarrow> Done False
      | Inr ev \<Rightarrow>
          Exec (RefundTransferS (LR_TransferId ev) (LG_TxHash eLog)) (\<lambda>dbErr.
            if dbErr \<noteq> None then Done True else Done False))"

section \<open>Amounts\<close>

lemma pow10_loop_eq: "pow10_loop n p = p * 10 ^ n"
  by (induction n arbitrary: p) (simp_all add: mult.assoc mult.commute)

lemma uint_pow10:
  assumes "n \<le> 19"
  shows "uint (10 ^ n :: u64) = 10 ^ n"
proof -
  have "(10 :: int) ^ n \<le> 10 ^ 19" using assms by (rule power_increasing) simp
  also have "\<dots> < 2 ^ 64" by simp
  finally have "(10 :: int) ^ n mod 2 ^ 64 = 10 ^ n" by simp
  moreover have "(10 ^ n :: u64) = word_of_int (10 ^ n)" by simp
  ultimately show ?thesis by (simp only: uint_word_of_int) simp
qed

text \<open>In 64 bits the power is zero exactly from the 64th on.\<close>

lemma pow10_zero: "(10 ^ n :: u64) = 0 \<longleftrightarrow> 64 \<le> n"
proof -
  have "(10 ^ n :: u64) = 0 \<longleftrightarrow> (2::nat) ^ 64 dvd 10 ^ n"
    using word_of_nat_eq_0_iff [where ?'a = 64, of "10 ^ n"] by simp
  also have "\<dots> \<longleftrightarrow> 64 \<le> n"
  proof
    assume "(2::nat) ^ 64 dvd 10 ^ n"
    also have "(10::nat) ^ n = 2 ^ n * 5 ^ n" by (simp flip: power_mult_distrib)
    finally have "(2::nat) ^ 64 dvd 2 ^ n * 5 ^ n" .
    moreover have "coprime ((2::nat) ^ k) (5 ^ n)" for k by simp
    from this [of 64] have "((2::nat) ^ 64 dvd 2 ^ n * 5 ^ n) = ((2::nat) ^ 64 dvd 2 ^ n)"
      by (rule coprime_dvd_mult_left_iff)
    ultimately have "(2::nat) ^ 64 dvd 2 ^ n" by blast
    then show "64 \<le> n" by (rule power_dvd_imp_le) simp
  next
    assume "64 \<le> n"
    then have "(2::nat) ^ 64 dvd 2 ^ n" by (rule le_imp_power_dvd)
    also have "(2::nat) ^ n dvd 10 ^ n" by (rule dvd_power_same) simp
    finally show "(2::nat) ^ 64 dvd 10 ^ n" .
  qed
  finally show ?thesis .
qed

lemma unat_diff:
  fixes s d :: u64
  assumes "d < s"
  shows "unat (s - d) = unat s - unat d"
  using assms by (simp add: unat_sub word_le_nat_alt word_less_nat_alt)

text \<open>C23: As long as the decimals of the two tokens differ by at most 19, the destination amount is
  the source amount rescaled: multiplied exactly, or divided rounding down, so that the value sent
  never exceeds the value received.\<close>

theorem dst_amount_correct:
  assumes "unat s - unat d \<le> 19" "unat d - unat s \<le> 19"
  shows "\<exists>res. dst_amount amount s d = Some res \<and>
    res = amount * 10 ^ (unat d - unat s) div 10 ^ (unat s - unat d) \<and>
    res * 10 ^ (unat s - unat d) \<le> amount * 10 ^ (unat d - unat s)"
proof (cases "d < s")
  case True
  then have d: "unat d - unat s = 0" by (simp add: word_less_nat_alt)
  have "(0 :: int) < 10 ^ k" for k by simp
  then have "amount div 10 ^ (unat s - unat d) * 10 ^ (unat s - unat d) \<le> amount"
    by (metis mult.commute mult_div_mod_eq add_increasing2 order_refl pos_mod_sign le_add_same_cancel1)
  with True d assms show ?thesis
    by (simp add: dst_amount_def pow10_loop_eq unat_diff uint_pow10 big_Div_def)
next
  case False
  then have s: "unat s - unat d = 0" by (simp add: word_less_nat_alt)
  show ?thesis
  proof (cases "s < d")
    case True
    with False s assms show ?thesis
      by (simp add: dst_amount_def pow10_loop_eq unat_diff uint_pow10)
  next
    case False
    with \<open>\<not> d < s\<close> have "s = d" by simp
    then show ?thesis by (simp add: dst_amount_def)
  qed
qed

theorem dst_amount_correct_witness:
  "dst_amount 1234567 6 4 = Some 12345 \<and> dst_amount 1000 6 18 = Some 1000000000000000"
  using dst_amount_correct [of 6 4 1234567] dst_amount_correct [of 6 18 1000] by simp

text \<open>C33: The conversion panics, dividing by zero, exactly when the source token has at least 64
  decimals more than the destination token: the power of ten has then wrapped to 0.\<close>

theorem dst_amount_panics: "dst_amount amount s d = None \<longleftrightarrow> 64 \<le> unat s - unat d"
  by (auto simp: dst_amount_def pow10_loop_eq big_Div_def pow10_zero unat_diff word_less_nat_alt
      uint_0_iff)

section \<open>Time locks\<close>

text \<open>A signed timeout of at least 16 hours is the true distance to the lock, whatever the
  64-bit lock is: an overflow of the subtraction cannot look like a long timeout.\<close>

lemma src_timeout_true:
  assumes "0 \<le> now" "now < 2 ^ 63 * second" "0 \<le> sint (src_timeout ev now)"
  shows "uint (LO_Timelock ev) = now div second + sint (src_timeout ev now)"
proof -
  let ?t = "src_timeout ev now" and ?n = "now div second"
  have n: "0 \<le> ?n" "?n < 2 ^ 63" using assms by auto
  have pos: "sint ?t < 2 ^ 63" using sint_lt [of ?t] by simp
  then have t: "uint ?t = sint ?t"
    using assms(3) uint_sint [of ?t] by (simp add: take_bit_eq_mod)
  have word: "uint ?t = (uint (LO_Timelock ev) - ?n) mod 2 ^ 64"
    unfolding src_timeout_def
    by (simp add: uint_word_ariths uint_word_of_int take_bit_eq_mod mod_simps)
  have lk: "0 \<le> uint (LO_Timelock ev)" "uint (LO_Timelock ev) < 2 ^ 64"
    using uint_lt2p [of "LO_Timelock ev"] by simp_all
  show ?thesis
  proof (cases "?n \<le> uint (LO_Timelock ev)")
    case True
    then have "(uint (LO_Timelock ev) - ?n) mod 2 ^ 64 = uint (LO_Timelock ev) - ?n"
      using lk n by (intro mod_pos_pos_trivial) auto
    with word t show ?thesis by linarith
  next
    case False
    then have "(uint (LO_Timelock ev) - ?n + 2 ^ 64) mod 2 ^ 64 = uint (LO_Timelock ev) - ?n + 2 ^ 64"
    proof (intro mod_pos_pos_trivial)
      have "(2 :: int) ^ 63 < 2 ^ 64" by (rule power_strict_increasing) simp_all
      with lk n show "0 \<le> uint (LO_Timelock ev) - ?n + 2 ^ 64" by linarith
    qed (use False in linarith)
    then have "uint ?t = uint (LO_Timelock ev) - ?n + 2 ^ 64" using word by simp
    moreover have "(2 :: int) ^ 64 = 2 * 2 ^ 63" by simp
    ultimately show ?thesis using t pos lk(1) n(2) by linarith
  qed
qed

lemma sint_of_int_bounds:
  assumes "0 \<le> i"
  shows "sint (of_int i :: u64) \<le> i" "i < 2 ^ 63 \<Longrightarrow> sint (of_int i :: u64) = i"
proof -
  have "sint (of_int i :: u64) = (i + 2 ^ 63) mod 2 ^ 64 - 2 ^ 63"
    using int_word_sint [where ?'a = 64, of i] by simp
  moreover have "(i + 2 ^ 63) mod 2 ^ 64 \<le> i + 2 ^ 63"
    using assms by (intro zmod_le_nonneg_dividend) simp
  ultimately show "sint (of_int i :: u64) \<le> i" by linarith
  assume "i < 2 ^ 63"
  then have "(i + 2 ^ 63) mod 2 ^ 64 = i + 2 ^ 63"
    using assms by (intro mod_pos_pos_trivial) auto
  with \<open>sint (of_int i :: u64) = _\<close> show "sint (of_int i :: u64) = i" by linarith
qed

lemma chain2TimeLock_word:
  "chain2TimeLock ev now = now + sint (of_int ((sint (src_timeout ev now) - 28800) * second) :: u64)"
proof -
  have "(of_int a - 8 * 3600) * of_int second = (of_int ((a - 28800) * second) :: u64)" for a
    by simp
  moreover have "(of_int (sint (src_timeout ev now)) :: u64) = src_timeout ev now" by simp
  ultimately have "(src_timeout ev now - 8 * 3600) * of_int second
      = of_int ((sint (src_timeout ev now) - 28800) * second)"
    by metis
  then show ?thesis unfolding chain2TimeLock_def by (rule arg_cong)
qed

text \<open>C22: The lock of a transfer in that the node accepts expires at least eight hours, to within the
  second the clock is truncated to, before the lock of its transfer out, whatever 64-bit lock the
  user chose and even where the arithmetic wraps; and if that lock is less than 292 years away, it
  is also at least eight hours in the future. The clock is assumed to read a time of the present
  epoch that fits an \<open>int64\<close> of seconds.\<close>

theorem timelock_margin:
  assumes "0 \<le> now" "now < 2 ^ 63 * second" "3600 * 16 \<le> sint (src_timeout ev now)"
  shows "chain2TimeLock ev now + 8 * hour < (uint (LO_Timelock ev) + 1) * second \<and>
    (sint (src_timeout ev now) \<le> 9223372036 \<longrightarrow> now + 8 * hour \<le> chain2TimeLock ev now)"
proof -
  let ?x = "sint (src_timeout ev now)"
  let ?d = "sint (of_int ((?x - 28800) * second) :: u64)"
  have true: "uint (LO_Timelock ev) = now div second + ?x"
    using assms by (intro src_timeout_true) auto
  have le: "?d \<le> (?x - 28800) * second" using assms(3) by (intro sint_of_int_bounds) simp
  have "now < (now div second + 1) * second" by (simp add: minus_mod_eq_mult_div [symmetric])
  with true le have "chain2TimeLock ev now + 8 * hour < (uint (LO_Timelock ev) + 1) * second"
    by (simp add: chain2TimeLock_word)
  moreover have "now + 8 * hour \<le> chain2TimeLock ev now" if "?x \<le> 9223372036"
  proof -
    have "?d = (?x - 28800) * second" using assms(3) that by (intro sint_of_int_bounds) auto
    with assms(3) show ?thesis by (simp add: chain2TimeLock_word)
  qed
  ultimately show ?thesis by blast
qed

theorem timelock_margin_witness:
  "chain2TimeLock (LogNewTransferOut.make 1 2 3 4 5 6 (124 * 3600) 7 8) (100 * hour + 7) = 116 * hour + 7 \<and>
   116 * hour + 7 + 8 * hour < (124 * 3600 + 1) * second"
proof -
  let ?ev = "LogNewTransferOut.make 1 2 3 4 5 6 (124 * 3600) 7 8"
  have "sint (src_timeout ?ev (100 * hour + 7)) = 86400"
    by (simp add: src_timeout_def LogNewTransferOut.defs)
  moreover have "LO_Timelock ?ev = 124 * 3600" by (simp add: LogNewTransferOut.defs)
  ultimately show ?thesis
    using timelock_margin [of "100 * hour + 7" ?ev] by (simp add: chain2TimeLock_word)
qed

end
