(* ===== verification/Relay_Loops.thy ===== *)
theory Relay_Loops
  imports Monitor_Handlers
begin

text \<open>
  One round of each background loop of \<open>src/server/server.go\<close>: sending transfers in, confirming,
  refunding, and taking back pending states that timed out. Each body gets the rest of its loop
  as its last argument, which stands for the code's \<open>continue\<close> and for the end of the body.
\<close>

section \<open>Sending a transfer in\<close>

definition send_one :: "node_env \<Rightarrow> server \<Rightarrow> Transfer \<Rightarrow> proc \<Rightarrow> proc" where
  "send_one env s tx next =
     (case SV_chainMap s (ChainId tx) of
        None \<Rightarrow> next
      | Some bc \<Rightarrow>
          Now (\<lambda>tsNow.
          if TimeLock tx + - 6 * minute < tsNow then next
          else getTransfer env bc (TransferId tx) (\<lambda>r. case r of
            Inl err \<Rightarrow> next
          | Inr remoteTransferIn \<Rightarrow>
              if TI_Status remoteTransferIn \<noteq> 0 then
                (if TI_Status remoteTransferIn = remoteTransferStatusPending then
                   db_SetTransferStatusByFrom (TransferId tx) TRANSFER_STATUS_LOCKED
                     TRANSFER_STATUS_TRANSFER_IN_START (\<lambda>err. next)
                 else next)
              else
                let originAmt = Amount tx + Fee tx in
                gateway_GetFee env (RelatedTid tx) (\<lambda>f. case f of
                  Inl getFeeErr \<Rightarrow> next
                | Inr finalFee \<Rightarrow>
                    if originAmt < finalFee then next
                    else
                      let newAmount = originAmt - finalFee in
                      Exec (SetTransferInAmountAndFeeS (TransferId tx) newAmount finalFee) (\<lambda>err.
                      if err \<noteq> None then next
                      else db_SetPendingTransferIn (TransferId tx)
                        TRANSFER_STATUS_TRANSFER_IN_PENDING TRANSFER_STATUS_TRANSFER_IN_START (\<lambda>err.
                      if err \<noteq> None then next
                      else transferIn env bc (Receiver tx) (Token tx) newAmount (HashLock tx)
                        (TransferId tx) (RelatedTid tx) (of_int (TimeLock tx div second))
                        (RelatedChainId tx) (\<lambda>sendTransferInErr.
                      if sendTransferInErr \<noteq> None then
                        Sleep (6 * second)
                          (transferIn env bc (Receiver tx) (Token tx) newAmount (HashLock tx)
                             (TransferId tx) (RelatedTid tx) (of_int (TimeLock tx div second))
                             (RelatedChainId tx) (\<lambda>sendTransferInAgainErr. next))
                      else next)))))))"

definition processTrySendTransferIn :: "node_env \<Rightarrow> server \<Rightarrow> proc" where
  "processTrySendTransferIn env s =
     db_GetAllStartTransferIn (\<lambda>r. case r of
         Inl dbErr \<Rightarrow> Done False
       | Inr startedTransferIn \<Rightarrow> for_each (send_one env s) startedTransferIn (Done False))"

section \<open>Confirming\<close>

text \<open>A failed status update is only logged; the transaction is sent all the same.\<close>

definition confirm_one :: "node_env \<Rightarrow> server \<Rightarrow> Transfer \<Rightarrow> proc \<Rightarrow> proc" where
  "confirm_one env s tx next =
     (case SV_chainMap s (ChainId tx) of
        None \<Rightarrow> next
      | Some dstBcg \<Rightarrow>
          getTransfer env dstBcg (TransferId tx) (\<lambda>r. case r of
            Inl err \<Rightarrow> next
          | Inr remoteTransfer \<Rightarrow>
              if TI_Status remoteTransfer = remoteTransferStatusPending then
                db_SetTransferStatusByFrom (TransferId tx) TRANSFER_STATUS_CONFIRM_PENDING
                  TRANSFER_STATUS_LOCKED (\<lambda>dbErr.
                  confirm env dstBcg (TransferId tx) (RelatedTid tx) (Preimage tx) (HashLock tx)
                    (\<lambda>err. next))
              else if TI_Status remoteTransfer = remoteTransferStatusRefunded then
                Exec (UpdateTransferStatusS (TransferId tx) TRANSFER_STATUS_REFUNDED) (\<lambda>dbErr. next)
              else if TI_Status remoteTransfer = remoteTransferStatusConfirmed then
                Exec (ConfirmTransferS (TransferId tx) (Preimage tx) 0) (\<lambda>dbErr. next)
              else next))"

definition processTryConfirmTransfer :: "node_env \<Rightarrow> server \<Rightarrow> proc" where
  "processTryConfirmTransfer env s =
     Query ConfirmableLockedQ (\<lambda>r. case r of
         Inl dbErr \<Rightarrow> Done False
       | Inr lockedTransfer \<Rightarrow> for_each (confirm_one env s) lockedTransfer (Done False))"

section \<open>Refunding\<close>

text \<open>The transfer in is still pending on its chain: its transfer out decides.\<close>

definition refund_pending ::
  "node_env \<Rightarrow> server \<Rightarrow> bridgeConfig \<Rightarrow> Transfer \<Rightarrow> proc \<Rightarrow> proc" where
  "refund_pending env s bc tx next =
     db_SetTransferStatusByFrom (TransferId tx) TRANSFER_STATUS_REFUND_PENDING
       TRANSFER_STATUS_LOCKED (\<lambda>dbErr.
     db_GetTransferByTid (RelatedTid tx) (\<lambda>r. case r of
       Inl err \<Rightarrow> next
     | Inr None \<Rightarrow> next
     | Inr (Some relatedTransfer) \<Rightarrow>
         if Status relatedTransfer = TRANSFER_STATUS_CONFIRMED then
           confirm env bc (TransferId tx) (TransferId relatedTransfer) (Preimage relatedTransfer)
             (HashLock tx) (\<lambda>err. next)
         else (case SV_chainMap s (ChainId relatedTransfer) of
           None \<Rightarrow> next
         | Some transferOutBc \<Rightarrow>
             getTransfer env transferOutBc (TransferId relatedTransfer) (\<lambda>r2. case r2 of
               Inl err \<Rightarrow> next
             | Inr remoteTransferOut \<Rightarrow>
                 if TI_Status remoteTransferOut = remoteTransferStatusConfirmed then next
                 else refund env bc (TransferId tx) (RelatedTid tx) (HashLock tx) (\<lambda>err. next)))))"

definition refund_one :: "node_env \<Rightarrow> server \<Rightarrow> Transfer \<Rightarrow> proc \<Rightarrow> proc" where
  "refund_one env s tx next =
     (case SV_chainMap s (ChainId tx) of
        None \<Rightarrow> next
      | Some bc \<Rightarrow>
          getTransfer env bc (TransferId tx) (\<lambda>r. case r of
            Inl err \<Rightarrow> next
          | Inr remoteTransferIn \<Rightarrow>
              if TI_Status remoteTransferIn = remoteTransferStatusPending then
                refund_pending env s bc tx next
              else if TI_Status remoteTransferIn = remoteTransferStatusRefunded then
                Exec (UpdateTransferStatusS (TransferId tx) TRANSFER_STATUS_REFUNDED) (\<lambda>dbErr. next)
              else next))"

definition processTryRefundTransferIn :: "node_env \<Rightarrow> server \<Rightarrow> proc" where
  "processTryRefundTransferIn env s =
     db_GetAllRefundAbleTransferIn (\<lambda>r. case r of
         Inl dbErr \<Rightarrow> Done False
       | Inr refundableTransferIn \<Rightarrow> for_each (refund_one env s) refundableTransferIn (Done False))"

section \<open>Recovering pending states\<close>

text \<open>The three recoveries run one after the other in one round; a failed query only ends its
  own.\<close>

definition recover_one :: "TransferStatus \<Rightarrow> TransferStatus \<Rightarrow> Transfer \<Rightarrow> proc \<Rightarrow> proc" where
  "recover_one to from tx next = db_SetTransferStatusByFrom (TransferId tx) to from (\<lambda>dbErr. next)"

definition processRecoverTimeoutPendingTransferIn :: "proc \<Rightarrow> proc" where
  "processRecoverTimeoutPendingTransferIn next =
     db_GetRecoverTimeoutPendingTransferIn (\<lambda>r. case r of
         Inl dbErr \<Rightarrow> next
       | Inr transfers \<Rightarrow>
           for_each (recover_one TRANSFER_STATUS_TRANSFER_IN_START
             TRANSFER_STATUS_TRANSFER_IN_PENDING) transfers next)"

definition processRecoverTimeoutPendingConfirm :: "proc \<Rightarrow> proc" where
  "processRecoverTimeoutPendingConfirm next =
     db_GetRecoverTimeoutPendingConfirm (\<lambda>r. case r of
         Inl dbErr \<Rightarrow> next
       | Inr transfers \<Rightarrow>
           for_each (recover_one TRANSFER_STATUS_LOCKED TRANSFER_STATUS_CONFIRM_PENDING)
             transfers next)"

definition processRecoverTimeoutPendingRefund :: "proc \<Rightarrow> proc" where
  "processRecoverTimeoutPendingRefund next =
     db_GetRecoverTimeoutPendingRefund (\<lambda>r. case r of
         Inl dbErr \<Rightarrow> next
       | Inr transfers \<Rightarrow>
           for_each (recover_one TRANSFER_STATUS_LOCKED TRANSFER_STATUS_REFUND_PENDING)
             transfers next)"

section \<open>The tickers\<close>

definition ProcessSendTransfer :: "node_env \<Rightarrow> server \<Rightarrow> int \<times> proc" where
  "ProcessSendTransfer env s = (10 * second, processTrySendTransferIn env s)"

definition ProcessConfirmTransfer :: "node_env \<Rightarrow> server \<Rightarrow> int \<times> proc" where
  "ProcessConfirmTransfer env s = (10 * second, processTryConfirmTransfer env s)"

definition ProcessRefundTransferIn :: "node_env \<Rightarrow> server \<Rightarrow> int \<times> proc" where
  "ProcessRefundTransferIn env s = (1 * minute, processTryRefundTransferIn env s)"

definition ProcessRecoverTimeoutPendingTransfer :: "int \<times> proc" where
  "ProcessRecoverTimeoutPendingTransfer =
     (2 * minute,
      processRecoverTimeoutPendingTransferIn
        (processRecoverTimeoutPendingConfirm
          (processRecoverTimeoutPendingRefund (Done False))))"

text \<open>Everything that runs against the transfer table: the callbacks of every configured chain on
  the logs of a set, and a round of each ticker. A round may start while another is under way.\<close>

definition node_programs_on :: "ethlog set \<Rightarrow> node_env \<Rightarrow> server \<Rightarrow> proc set" where
  "node_programs_on L env s =
     {monitorLogTransferOut env s bc eLog | bc eLog. bc \<in> ran (SV_chainMap s) \<and> eLog \<in> L} \<union>
     monitorLogTransferIn s ` L \<union> monitorLogConfirm ` L \<union> monitorLogRefund ` L \<union>
     snd ` {ProcessSendTransfer env s, ProcessConfirmTransfer env s, ProcessRefundTransferIn env s,
            ProcessRecoverTimeoutPendingTransfer}"

text \<open>The node on arbitrary logs.\<close>

abbreviation node_programs :: "node_env \<Rightarrow> server \<Rightarrow> proc set" where
  "node_programs \<equiv> node_programs_on UNIV"

lemmas tickers = ProcessSendTransfer_def ProcessConfirmTransfer_def ProcessRefundTransferIn_def
  ProcessRecoverTimeoutPendingTransfer_def

lemma node_programs_on_cases:
  assumes "p \<in> node_programs_on L env s"
  obtains bc eLog where "p = monitorLogTransferOut env s bc eLog" "bc \<in> ran (SV_chainMap s)" "eLog \<in> L"
  | eLog where "p = monitorLogTransferIn s eLog" "eLog \<in> L"
  | eLog where "p = monitorLogConfirm eLog" "eLog \<in> L"
  | eLog where "p = monitorLogRefund eLog" "eLog \<in> L"
  | "p = processTrySendTransferIn env s"
  | "p = processTryConfirmTransfer env s"
  | "p = processTryRefundTransferIn env s"
  | "p = processRecoverTimeoutPendingTransferIn (processRecoverTimeoutPendingConfirm
      (processRecoverTimeoutPendingRefund (Done False)))"
  using assms unfolding node_programs_on_def by (auto simp: tickers)

lemmas node_programs_cases = node_programs_on_cases [where L = UNIV]

end
