(* ===== verification/Relay_Protocol.thy ===== *)
theory Relay_Protocol
  imports Relay_Loops
begin

text \<open>
  What all programs of the node keep of the transfer table, however they interleave: ids stay
  unique, rows are never lost, only the columns of their progress change, the sum of amount and
  fee of a row is fixed, its status never falls back to an earlier phase, and a transfer in
  never stands without its transfer out. This is one instance of \<open>table_protocol\<close>.
\<close>

section \<open>Phases of a transfer\<close>

fun phase :: "TransferStatus \<Rightarrow> nat" where
  "phase TRANSFER_STATUS_UNDEFINED = 0"
| "phase TRANSFER_STATUS_TRANSFER_IN_START = 1"
| "phase TRANSFER_STATUS_TRANSFER_IN_PENDING = 1"
| "phase TRANSFER_STATUS_LOCKED = 2"
| "phase TRANSFER_STATUS_CONFIRM_PENDING = 2"
| "phase TRANSFER_STATUS_REFUND_PENDING = 2"
| "phase TRANSFER_STATUS_CONFIRMED = 3"
| "phase TRANSFER_STATUS_REFUNDED = 3"

lemma phase_le: "phase s \<le> 3"
  by (cases s) simp_all

text \<open>How a row may change.\<close>

definition row_grows :: "StoredTransfer \<Rightarrow> StoredTransfer \<Rightarrow> bool" where
  "row_grows r r' \<longleftrightarrow>
     fixed_cols r' = fixed_cols r \<and> gross r' = gross r \<and> phase (Status r) \<le> phase (Status r')"

lemma row_grows_refl [simp]: "row_grows r r"
  by (simp add: row_grows_def)

lemma row_grows_trans: "row_grows r r' \<Longrightarrow> row_grows r' r'' \<Longrightarrow> row_grows r r''"
  by (simp add: row_grows_def)

section \<open>The protocol\<close>

definition relay_inv :: "table \<Rightarrow> bool" where
  "relay_inv T \<longleftrightarrow>
     keys_distinct T \<and>
     (\<forall>r\<in>set T. TransferType r = TRANSFER_TYPE_IN \<longrightarrow> has_tid (RelatedTid r) T)"

definition relay_ext :: "table \<Rightarrow> table \<Rightarrow> bool" where
  "relay_ext T T' \<longleftrightarrow>
     (\<forall>tid r. find_row tid T = Some r \<longrightarrow> (\<exists>r'. find_row tid T' = Some r' \<and> row_grows r r'))"

fun relay_ok :: "table \<Rightarrow> stmt \<Rightarrow> bool" where
  "relay_ok T (InsertTransferS tx now) =
     (TransferType tx = TRANSFER_TYPE_IN \<longrightarrow> has_tid (RelatedTid tx) T)"
| "relay_ok T (SetTransferInAmountAndFeeS tid a f) =
     (\<forall>r. find_row tid T = Some r \<longrightarrow> a + f = gross r)"
| "relay_ok T (UpdateTransferStatusS tid to) = (phase to = 3)"
| "relay_ok T (SetPendingTransferInS tid to from now) = (phase from \<le> phase to)"
| "relay_ok T (SetTransferStatusByFromS tid to from now) = (phase from \<le> phase to)"
| "relay_ok T s = True"

lemma relay_ext_has_tid: "relay_ext T T' \<Longrightarrow> has_tid tid T \<Longrightarrow> has_tid tid T'"
  unfolding relay_ext_def
  by (metis find_row_None not_None_eq)

lemma relay_ok_row:
  assumes "relay_ok T s" "\<not> is_insert s" "find_row tid T = Some r" "stmt_sel s r"
  shows "row_grows r (stmt_upd s r)"
proof -
  have "fixed_cols (stmt_upd s r) = fixed_cols r"
    using row_update.keeps_fixed [OF stmt_row_update [OF assms(2)]] .
  moreover have "TransferId r = tid" using assms(3) by (simp add: find_row_Some)
  with assms have "gross (stmt_upd s r) = gross r \<and> phase (Status r) \<le> phase (Status (stmt_upd s r))"
    by (cases s) (auto simp: gross_def phase_le)
  ultimately show ?thesis by (simp add: row_grows_def)
qed

lemma relay_apply_ext:
  assumes "relay_ok T s"
  shows "relay_ext T (apply_stmt s T)"
proof (cases "is_insert s")
  case True
  then show ?thesis by (auto elim!: insert_cases simp: relay_ext_def find_insert_row)
next
  case False
  then show ?thesis
    using assms row_update.find_opr [OF stmt_row_update [OF False]]
    by (auto simp: relay_ext_def relay_ok_row)
qed

lemma relay_apply_inv:
  assumes "relay_inv T" "relay_ok T s"
  shows "relay_inv (apply_stmt s T)"
proof -
  have keep: "has_tid tid T \<Longrightarrow> has_tid tid (apply_stmt s T)" for tid
    using relay_apply_ext [OF assms(2)] by (rule relay_ext_has_tid)
  have "has_tid (RelatedTid r') (apply_stmt s T)"
    if mem: "r' \<in> set (apply_stmt s T)" and ty: "TransferType r' = TRANSFER_TYPE_IN" for r'
  proof (cases "is_insert s")
    case True
    then obtain tx now where s: "s = InsertTransferS tx now" by (rule insert_cases)
    with mem have "r' = inserted_row tx now \<or> r' \<in> set T"
      using set_insert_row(1) [of "inserted_row tx now" T] by auto
    with s ty assms keep show ?thesis by (auto simp: relay_inv_def)
  next
    case False
    obtain r where r: "r \<in> set T" "fixed_cols r' = fixed_cols r"
      using row_update.member [OF stmt_row_update [OF False] mem] by blast
    have same: "TransferType r' = TransferType r" "RelatedTid r' = RelatedTid r"
      by (rule fixed_colsD [OF r(2)])+
    have "TransferType r = TRANSFER_TYPE_IN" using same(1) ty by simp
    then have "has_tid (RelatedTid r) T"
      using assms(1) r(1) unfolding relay_inv_def by blast
    then show ?thesis unfolding same(2) by (rule keep)
  qed
  then show ?thesis using assms(1) by (simp add: relay_inv_def apply_stmt_distinct)
qed

interpretation relay: table_protocol relay_inv relay_ext relay_ok
proof unfold_locales
  show "relay_ext T T'' " if "relay_ext T T'" "relay_ext T' T''" for T T' T''
    using that unfolding relay_ext_def by (meson row_grows_trans)
qed (auto simp: relay_ext_def relay_apply_inv intro: relay_apply_ext [unfolded relay_ext_def, rule_format])

declare relay.X_refl [simp]

abbreviation rsafe :: "(ev \<Rightarrow> bool) \<Rightarrow> proc \<Rightarrow> table \<Rightarrow> bool" where
  "rsafe A \<equiv> safe A relay_inv relay_ext relay_ok"

section \<open>Every program keeps it\<close>

text \<open>A row a query delivered is in the table of that moment, and its gross amount is fixed.\<close>

definition known :: "Transfer \<Rightarrow> table \<Rightarrow> bool" where
  "known tx T \<longleftrightarrow> (\<exists>r. find_row (TransferId tx) T = Some r \<and> gross r = gross tx)"

lemma known_ext: "known tx T \<Longrightarrow> relay_ext T T' \<Longrightarrow> known tx T'"
  unfolding known_def relay_ext_def row_grows_def by metis

lemma queried_known:
  assumes "relay_inv T" "query_ok q T rs" "tx \<in> set rs"
  shows "known tx T"
proof -
  obtain r where "r \<in> set T" "tx = scan r" using assms(2,3) by (rule query_ok_set)
  with assms(1) show ?thesis by (auto simp: known_def relay_inv_def find_row_unique)
qed

lemma known_amount: "known tx T \<Longrightarrow> relay_ok T (SetTransferInAmountAndFeeS (TransferId tx) (Amount tx + Fee tx - f) f)"
  by (auto simp: known_def gross_def)

lemmas rsafe_rules = relay.safe_Exec relay.safe_Query

lemma safe_SetTransferStatusByFrom:
  assumes "phase from \<le> phase to" "\<And>r T'. relay_ext T T' \<Longrightarrow> rsafe A (k r) T'"
  shows "rsafe A (db_SetTransferStatusByFrom tid to from k) T"
  using assms by (auto simp: db_defs simp del: safe.simps(4) intro: relay.safe_Exec)

lemma safe_SetPendingTransferIn:
  assumes "phase from \<le> phase to" "\<And>r T'. relay_ext T T' \<Longrightarrow> rsafe A (k r) T'"
  shows "rsafe A (db_SetPendingTransferIn tid to from k) T"
  using assms by (auto simp: db_defs simp del: safe.simps(4) intro: relay.safe_Exec)

lemma safe_getTransfer:
  assumes "\<And>r. rsafe A (k r) T"
  shows "rsafe A (getTransfer env bc tid k) T"
  using assms by (auto simp: getTransfer_def split: option.splits sum.splits)

lemma safe_GetFee:
  assumes "\<And>r. rsafe A (k r) T"
  shows "rsafe A (gateway_GetFee env tid k) T"
  using assms by (simp add: gateway_GetFee_def)

lemma safe_GetTransferByTid:
  assumes "\<And>r T'. relay_ext T T' \<Longrightarrow> rsafe A (k r) T'"
  shows "rsafe A (db_GetTransferByTid tid k) T"
  unfolding db_GetTransferByTid_def
  using assms by (intro relay.safe_Query) (auto split: list.splits)

lemma safe_send_one:
  assumes "known tx T" "rsafe A next T"
  shows "rsafe A (send_one env s tx next) T"
proof -
  have nxt: "rsafe A next T'" if "relay_ext T T'" for T'
    using assms(2) that by (rule relay.safe_mono)
  have amount: "relay_ok T' (SetTransferInAmountAndFeeS (TransferId tx) (Amount tx + Fee tx - f) f)"
    if "relay_ext T T'" for T' f
    using known_amount [OF known_ext [OF assms(1) that]] .
  show ?thesis
    unfolding send_one_def
    by (auto split: option.splits sum.splits simp: Let_def transferIn_def
        simp del: safe.simps(4) relay_ok.simps
        intro!: safe_getTransfer safe_SetTransferStatusByFrom safe_SetPendingTransferIn safe_GetFee
          relay.safe_Exec nxt amount
        intro: assms(2))
      (blast intro: relay.X_trans)+
qed

lemma safe_confirm_one:
  assumes "rsafe A next T"
  shows "rsafe A (confirm_one env s tx next) T"
proof -
  have nxt: "rsafe A next T'" if "relay_ext T T'" for T'
    using assms that by (rule relay.safe_mono)
  show ?thesis
    unfolding confirm_one_def
    by (auto split: option.splits sum.splits simp: confirm_def
        simp del: safe.simps(4)
        intro!: safe_getTransfer safe_SetTransferStatusByFrom relay.safe_Exec nxt
        intro: assms)
qed

lemma safe_refund_pending:
  assumes "rsafe A next T"
  shows "rsafe A (refund_pending env s bc tx next) T"
proof -
  have nxt: "rsafe A next T'" if "relay_ext T T'" for T'
    using assms that by (rule relay.safe_mono)
  show ?thesis
    unfolding refund_pending_def
    by (auto split: option.splits sum.splits simp: confirm_def refund_def
        simp del: safe.simps(4)
        intro!: safe_getTransfer safe_SetTransferStatusByFrom safe_GetTransferByTid nxt
        intro: assms)
      (blast intro: relay.X_trans)+
qed

lemma safe_refund_one:
  assumes "rsafe A next T"
  shows "rsafe A (refund_one env s tx next) T"
proof -
  have nxt: "rsafe A next T'" if "relay_ext T T'" for T'
    using assms that by (rule relay.safe_mono)
  show ?thesis
    unfolding refund_one_def
    by (auto split: option.splits sum.splits simp del: safe.simps(4)
        intro!: safe_getTransfer safe_refund_pending relay.safe_Exec nxt
        intro: assms)
qed

lemma safe_recover_one:
  assumes "phase from \<le> phase to" "rsafe A next T"
  shows "rsafe A (recover_one to from tx next) T"
  unfolding recover_one_def
  using assms by (auto intro!: safe_SetTransferStatusByFrom intro: relay.safe_mono)

lemma safe_round:
  assumes "\<And>T' tx k. relay_ext T T' \<Longrightarrow> known tx T' \<Longrightarrow> rsafe A k T' \<Longrightarrow> rsafe A (body tx k) T'"
    and "rsafe A next T"
  shows "rsafe A (Query q (\<lambda>r. case r of Inl e \<Rightarrow> next | Inr txs \<Rightarrow> for_each body txs next)) T"
proof -
  have nxt: "rsafe A next T'" if "relay_ext T T'" for T'
    using assms(2) that by (rule relay.safe_mono)
  show ?thesis
  proof (rule relay.safe_Query)
    fix rs T'
    assume T': "relay_ext T T'" "relay_inv T'" "query_ok q T' rs"
    have "rsafe A (for_each body rs next) T'"
    proof (rule relay.safe_for_each)
      fix tx k T''
      assume "tx \<in> set rs" "relay_ext T' T''" "rsafe A k T''"
      then show "rsafe A (body tx k) T''"
        using T' by (blast intro: assms(1) known_ext queried_known relay.X_trans)
    qed (rule nxt [OF T'(1)])
    then show "rsafe A (case Inr rs of Inl e \<Rightarrow> next | Inr txs \<Rightarrow> for_each body txs next) T'"
      by simp
  qed (simp add: nxt)
qed

lemma safe_recover_rounds:
  assumes "rsafe A next T"
  shows "rsafe A (processRecoverTimeoutPendingTransferIn next) T"
    "rsafe A (processRecoverTimeoutPendingConfirm next) T"
    "rsafe A (processRecoverTimeoutPendingRefund next) T"
  unfolding processRecoverTimeoutPendingTransferIn_def processRecoverTimeoutPendingConfirm_def
    processRecoverTimeoutPendingRefund_def db_defs
  by (simp_all add: safe_round safe_recover_one assms del: safe.simps(5))

lemma safe_insert:
  assumes "TransferType tx = TRANSFER_TYPE_IN \<Longrightarrow> has_tid (RelatedTid tx) T"
    and "\<And>T'. relay_ext T T' \<Longrightarrow> has_tid (TransferId tx) T' \<Longrightarrow> rsafe A (k None) T'"
    and "\<And>e T'. relay_ext T T' \<Longrightarrow> rsafe A (k (Some e)) T'"
  shows "rsafe A (db_InsertTransfer tx k) T"
proof -
  have "rsafe A (Exec (InsertTransferS tx t) k) T" for t
    unfolding safe.simps
  proof (intro allI impI conjI)
    fix T'
    assume T': "relay_ext T T'" "relay_inv T'"
    show ok: "relay_ok T' (InsertTransferS tx t)"
      using assms(1) relay_ext_has_tid [OF T'(1)] by simp
    have "has_tid (TransferId tx) (apply_stmt (InsertTransferS tx t) T')"
      by (simp add: insert_row_def has_tid_def)
    then show "rsafe A (k None) (apply_stmt (InsertTransferS tx t) T')"
      by (intro assms(2) relay.X_trans [OF T'(1)] relay_apply_ext ok)
    show "rsafe A (k (Some e)) T'" for e by (rule assms(3) [OF T'(1)])
  qed
  then show ?thesis by (simp add: db_InsertTransfer_def del: safe.simps(4))
qed

lemma in_transfer_sel [simp]:
  "TransferType (in_transfer env bc ev tk am t) = TRANSFER_TYPE_IN"
  "RelatedTid (in_transfer env bc ev tk am t) = LO_TransferId ev"
  "TransferType (out_transfer env bc l ev tk t) = TRANSFER_TYPE_OUT"
  "TransferId (out_transfer env bc l ev tk t) = LO_TransferId ev"
  by (simp_all add: in_transfer_def out_transfer_def)

lemma safe_monitorLogTransferOut: "rsafe A (monitorLogTransferOut env s bc eLog) T"
  unfolding monitorLogTransferOut_def
  by (auto split: option.splits sum.splits intro!: safe_insert)

lemma safe_other_monitors:
  "rsafe A (monitorLogTransferIn s eLog) T"
  "rsafe A (monitorLogConfirm eLog) T"
  "rsafe A (monitorLogRefund eLog) T"
  by (auto simp: monitorLogTransferIn_def monitorLogConfirm_def monitorLogRefund_def split: sum.splits)

text \<open>The one lemma the properties of whole systems rest on.\<close>

lemma node_safe: "p \<in> node_programs env s \<Longrightarrow> rsafe A p T"
  by (erule node_programs_cases)
    (simp_all add: safe_monitorLogTransferOut safe_other_monitors safe_recover_rounds
      processTrySendTransferIn_def processTryConfirmTransfer_def processTryRefundTransferIn_def
      db_defs safe_round safe_send_one safe_confirm_one safe_refund_one
      del: safe.simps(4,5))

lemma node_system:
  assumes "sys_reach A (node_programs env s) (T0, []) (T, ths)" "relay_inv T0"
  shows "relay_inv T" "relay_ext T0 T" "\<forall>th\<in>set ths. rsafe A (snd th) T"
  using relay.sys_safe [OF assms] node_safe by auto

text \<open>Two states of one run of the node.\<close>

lemma node_later:
  assumes "sys_reach A (node_programs env s) ([], []) (T, ths)"
    and "sys_reach A (node_programs env s) (T, ths) (T', ths')"
  shows "relay_ext T T'"
proof -
  have "relay_inv []" by (simp add: relay_inv_def keys_distinct_def)
  then have "relay_inv T" "\<forall>th\<in>set ths. rsafe A (snd th) T"
    using node_system [OF assms(1)] by auto
  then show ?thesis using relay.sys_safe_from [OF assms(2)] node_safe by auto
qed

lemma node_later_row:
  assumes "sys_reach A (node_programs env s) ([], []) (T, ths)"
    and "sys_reach A (node_programs env s) (T, ths) (T', ths')" "find_row tid T = Some r"
  obtains r' where "find_row tid T' = Some r'" "row_grows r r'"
  using node_later [OF assms(1,2)] assms(3) unfolding relay_ext_def by blast

end
