(* ===== verification/Relay_Trace.thy ===== *)
theory Relay_Trace
  imports Relay_Loops
begin

text \<open>
  When the node sends a transaction. Each of the three transactions is licensed by the steps the
  same goroutine took just before it: the answers of the chains, the gateway and the database
  that the code looked at. The programs are shown to take no transaction step without such a
  past; being about one thread's own steps, this holds in every interleaving.
\<close>

section \<open>Licences\<close>

text \<open>\<open>getTransfer\<close> leaves two steps: the answer of the contract, and before it the height.\<close>

definition asked :: "bridgeConfig \<Rightarrow> hash \<Rightarrow> u64 \<Rightarrow> abi_val list result \<Rightarrow> ev list" where
  "asked bc tid n r =
     [CallE (chain_uint64 bc) (BG_contract bc) (safeBlkNum bc n) (CBridge_transfers_call tid) r,
      BlockE (chain_uint64 bc) n]"

definition remote_status :: "abi_val list result \<Rightarrow> u8 option" where
  "remote_status r = (case CBridge_Transfers r of Some (Inr t) \<Rightarrow> Some (TO_Status t) | _ \<Rightarrow> None)"

definition fee_of :: "GetFeeResponse result \<Rightarrow> gw_error + int" where
  "fee_of r = GetFee_result (case r of Inl err \<Rightarrow> Inl err | Inr out \<Rightarrow> Inr (Some out))"

text \<open>The steps before a transfer in is sent: the chain does not know it, the fee is known, and the
  statements that store it and that set the row from start to pending reported no error. The
  second reports none either when it matches no row, because the row has left the start status
  since it was selected: the code does not look at the number of rows.\<close>

definition send_checks :: "bridgeConfig \<Rightarrow> Transfer \<Rightarrow> int \<Rightarrow> gotime \<Rightarrow> u64 \<Rightarrow> abi_val list result \<Rightarrow>
    GetFeeRequest \<Rightarrow> GetFeeResponse result \<Rightarrow> gotime \<Rightarrow> ev list \<Rightarrow> ev list" where
  "send_checks bc tx fee now n r q resp t past =
     ExecE (SetPendingTransferInS (TransferId tx) TRANSFER_STATUS_TRANSFER_IN_PENDING
       TRANSFER_STATUS_TRANSFER_IN_START t) None # NowE t #
     ExecE (SetTransferInAmountAndFeeS (TransferId tx) (gross tx - fee) fee) None #
     FeeE q resp # asked bc (TransferId tx) n r @ NowE now # past"

definition send_call :: "Transfer \<Rightarrow> int \<Rightarrow> abi_call" where
  "send_call tx fee =
     CBridge_TransferIn (Receiver tx) (Token tx) (gross tx - fee) (HashLock tx)
       (of_int (TimeLock tx div second)) (RelatedChainId tx) (RelatedTid tx)"

definition send_license ::
  "node_env \<Rightarrow> server \<Rightarrow> ev list \<Rightarrow> u64 \<Rightarrow> addr \<Rightarrow> abi_call \<Rightarrow> bool" where
  "send_license env s older c a call \<longleftrightarrow>
     (\<exists>tx bc fee now n r resp t recent t0 txs.
        SV_chainMap s (ChainId tx) = Some bc \<and> c = chain_uint64 bc \<and> a = BG_contract bc \<and>
        call = send_call tx fee \<and>
        tx \<in> set txs \<and> Status tx = TRANSFER_STATUS_TRANSFER_IN_START \<and>
        TransferType tx = TRANSFER_TYPE_IN \<and> t0 + hour < TimeLock tx \<and>
        now \<le> TimeLock tx - 6 * minute \<and> remote_status r = Some 0 \<and>
        fee_of resp = Inr fee \<and> fee \<le> gross tx \<and>
        (let past = recent @ [QueryE (StartTransferInQ (t0 + hour)) (Inr txs), NowE t0];
             checked = send_checks bc tx fee now n r
               \<lparr>FQ_TransferOutId = HashString (NE_lib env) (RelatedTid tx)\<rparr> resp t past
         in older = checked \<or>
            (\<exists>err. older = SleepE (6 * second) # TransactE c a (Inr call) (Some err) # checked)))"

text \<open>A confirmation: from the confirm loop, with the preimage of the row itself, or from the
  refund loop, with the preimage of its confirmed transfer out.\<close>

definition confirm_license :: "server \<Rightarrow> ev list \<Rightarrow> u64 \<Rightarrow> addr \<Rightarrow> abi_call \<Rightarrow> bool" where
  "confirm_license s older c a call \<longleftrightarrow>
     (\<exists>tx bc n r t dbErr recent preimage.
        SV_chainMap s (ChainId tx) = Some bc \<and> c = chain_uint64 bc \<and> a = BG_contract bc \<and>
        call = CBridge_Confirm (TransferId tx) preimage \<and> remote_status r = Some 1 \<and>
        Status tx = TRANSFER_STATUS_LOCKED \<and>
        ((\<exists>txs. tx \<in> set txs \<and> preimage = Preimage tx \<and>
            older = ExecE (SetTransferStatusByFromS (TransferId tx) TRANSFER_STATUS_CONFIRM_PENDING
                TRANSFER_STATUS_LOCKED t) dbErr # NowE t # asked bc (TransferId tx) n r @ recent @
                [QueryE ConfirmableLockedQ (Inr txs)]) \<or>
         (\<exists>txs out outs t0. tx \<in> set txs \<and> TransferType tx = TRANSFER_TYPE_IN \<and>
            TimeLock tx < t0 \<and> Status out = TRANSFER_STATUS_CONFIRMED \<and>
            TransferId out = RelatedTid tx \<and> preimage = Preimage out \<and>
            older = QueryE (ByTidQ (RelatedTid tx)) (Inr (out # outs)) #
                ExecE (SetTransferStatusByFromS (TransferId tx) TRANSFER_STATUS_REFUND_PENDING
                TRANSFER_STATUS_LOCKED t) dbErr # NowE t # asked bc (TransferId tx) n r @ recent @
                [QueryE (RefundAbleTransferInQ t0) (Inr txs), NowE t0])))"

text \<open>A refund: the lock has expired, the chain still holds the transfer, and neither the table
  nor the other chain shows its transfer out as confirmed.\<close>

definition refund_license :: "server \<Rightarrow> ev list \<Rightarrow> u64 \<Rightarrow> addr \<Rightarrow> abi_call \<Rightarrow> bool" where
  "refund_license s older c a call \<longleftrightarrow>
     (\<exists>tx bc n r t dbErr recent txs t0 out outs bc2 n2 r2.
        SV_chainMap s (ChainId tx) = Some bc \<and> c = chain_uint64 bc \<and> a = BG_contract bc \<and>
        call = CBridge_Refund (TransferId tx) \<and> remote_status r = Some 1 \<and>
        tx \<in> set txs \<and> Status tx = TRANSFER_STATUS_LOCKED \<and>
        TransferType tx = TRANSFER_TYPE_IN \<and> TimeLock tx < t0 \<and>
        TransferId out = RelatedTid tx \<and> Status out \<noteq> TRANSFER_STATUS_CONFIRMED \<and>
        SV_chainMap s (ChainId out) = Some bc2 \<and>
        remote_status r2 \<noteq> None \<and> remote_status r2 \<noteq> Some 2 \<and>
        older = asked bc2 (TransferId out) n2 r2 @
          QueryE (ByTidQ (RelatedTid tx)) (Inr (out # outs)) #
          ExecE (SetTransferStatusByFromS (TransferId tx) TRANSFER_STATUS_REFUND_PENDING
            TRANSFER_STATUS_LOCKED t) dbErr # NowE t # asked bc (TransferId tx) n r @ recent @
          [QueryE (RefundAbleTransferInQ t0) (Inr txs), NowE t0])"

definition licensed :: "node_env \<Rightarrow> server \<Rightarrow> ev list \<Rightarrow> ev \<Rightarrow> bool" where
  "licensed env s older e =
     (case e of
        TransactE c a (Inr call) err \<Rightarrow>
          send_license env s older c a call \<or> confirm_license s older c a call \<or>
          refund_license s older c a call
      | _ \<Rightarrow> True)"

lemma licensed_other [simp]:
  "licensed env s h (NowE t)" "licensed env s h (ExecE st r)" "licensed env s h (QueryE q rs)"
  "licensed env s h (BlockE c n)" "licensed env s h (CallE c a n m cr)" "licensed env s h (FeeE fq fr)"
  "licensed env s h (TransactE c a (Inl e) r')" "licensed env s h (SleepE d)"
  by (simp_all add: licensed_def)

section \<open>The programs have them\<close>

abbreviation ltraced :: "(ev \<Rightarrow> bool) \<Rightarrow> node_env \<Rightarrow> server \<Rightarrow> proc \<Rightarrow> ev list \<Rightarrow> bool" where
  "ltraced A env s \<equiv> traced A (licensed env s)"

text \<open>The history of a round: what its loop did so far, on top of its first steps.\<close>

definition grown_from :: "ev list \<Rightarrow> ev list \<Rightarrow> bool" where
  "grown_from start h \<longleftrightarrow> (\<exists>recent. h = recent @ start)"

lemma grown_from_refl [simp]: "grown_from start start"
  by (simp add: grown_from_def)

lemma grown_from_Cons [intro]: "grown_from start h \<Longrightarrow> grown_from start (e # h)"
  unfolding grown_from_def by (metis append_Cons)

lemma grown_from_asked: "grown_from start h \<Longrightarrow> grown_from start (asked bc tid n r @ h)"
  by (simp add: asked_def grown_from_Cons)

lemma traced_getTransfer:
  assumes "\<And>err h'. grown_from start h' \<Longrightarrow> ltraced A env s (k (Inl err)) h'"
    and "\<And>n r t. CBridge_Transfers r = Some (Inr t) \<Longrightarrow>
      ltraced A env s (k (Inr (TransferInfo_of t))) (asked bc tid n r @ h)"
    and "grown_from start h"
  shows "ltraced A env s (getTransfer env bc tid k) h"
  using assms by (auto simp: getTransfer_def asked_def split: option.splits sum.splits)

lemma traced_Transact:
  assumes "\<And>r. NE_AbiErr env = None \<Longrightarrow> licensed env s h (TransactE c a (Inr call) r)"
    and "\<And>r. ltraced A env s (k r) (TransactE c a (bound_call env call) r # h)"
  shows "ltraced A env s (Transact c a (bound_call env call) k) h"
  using assms by (auto simp: bound_call_def split: option.splits)

lemma TI_Status_of [simp]: "TI_Status (TransferInfo_of t) = TO_Status t"
  by (simp add: TransferInfo_of_def)

lemma remote_status_of: "CBridge_Transfers r = Some (Inr t) \<Longrightarrow> remote_status r = Some (TO_Status t)"
  by (simp add: remote_status_def)

lemma gateway_GetFee_fold:
  "gateway_GetFee env tid k =
     FeeRpc \<lparr>FQ_TransferOutId = HashString (NE_lib env) tid\<rparr> (\<lambda>r. k (fee_of r))"
  by (simp add: gateway_GetFee_def fee_of_def)

lemma send_licensed:
  fixes h :: "ev list"
  defines "checked bc tx fee now n r env resp t \<equiv>
    ExecE (SetPendingTransferInS (TransferId tx) TRANSFER_STATUS_TRANSFER_IN_PENDING
      TRANSFER_STATUS_TRANSFER_IN_START t) None # NowE t #
    ExecE (SetTransferInAmountAndFeeS (TransferId tx) (Amount tx + Fee tx - fee) fee) None #
    FeeE \<lparr>FQ_TransferOutId = HashString (NE_lib env) (RelatedTid tx)\<rparr> resp #
    asked bc (TransferId tx) n r @ NowE now # h"
    and "call tx fee \<equiv> CBridge_TransferIn (Receiver tx) (Token tx) (Amount tx + Fee tx - fee)
      (HashLock tx) (of_int (TimeLock tx div second)) (RelatedChainId tx) (RelatedTid tx)"
  assumes "grown_from [QueryE (StartTransferInQ (t0 + hour)) (Inr txs), NowE t0] h" "tx \<in> set txs"
    and "Status tx = TRANSFER_STATUS_TRANSFER_IN_START" "TransferType tx = TRANSFER_TYPE_IN"
      "t0 + hour < TimeLock tx"
    and "SV_chainMap s (ChainId tx) = Some bc" "\<not> TimeLock tx - 6 * minute < now"
      "remote_status r = Some 0" "fee_of resp = Inr fee" "\<not> Amount tx + Fee tx < fee"
      "NE_AbiErr env = None"
  shows "licensed env s (checked bc tx fee now n r env resp t)
      (TransactE (chain_uint64 bc) (BG_contract bc) (Inr (call tx fee)) err)"
    and "licensed env s
      (SleepE (6 * second) #
        TransactE (chain_uint64 bc) (BG_contract bc) (bound_call env (call tx fee)) (Some e) #
        checked bc tx fee now n r env resp t)
      (TransactE (chain_uint64 bc) (BG_contract bc) (Inr (call tx fee)) err)"
proof -
  obtain recent where
    h: "h = recent @ [QueryE (StartTransferInQ (t0 + hour)) (Inr txs), NowE t0]"
    using assms(3) by (auto simp: grown_from_def)
  have c: "checked bc tx fee now n r env resp t = send_checks bc tx fee now n r
      \<lparr>FQ_TransferOutId = HashString (NE_lib env) (RelatedTid tx)\<rparr> resp t
      (recent @ [QueryE (StartTransferInQ (t0 + hour)) (Inr txs), NowE t0])"
    by (simp add: checked_def send_checks_def gross_def h)
  have k: "call tx fee = send_call tx fee" by (simp add: call_def send_call_def gross_def)
  have facts: "now \<le> TimeLock tx - 6 * minute" "remote_status r = Some 0" "fee \<le> gross tx"
      "bound_call env (call tx fee) = Inr (call tx fee)"
    using assms(9-13) by (simp_all add: gross_def bound_call_def)
  have "send_license env s older (chain_uint64 bc) (BG_contract bc) (call tx fee)"
    if "older = checked bc tx fee now n r env resp t \<or>
      (\<exists>err. older = SleepE (6 * second) #
        TransactE (chain_uint64 bc) (BG_contract bc) (Inr (call tx fee)) (Some err) #
        checked bc tx fee now n r env resp t)" for older
    unfolding send_license_def Let_def
    using that assms(4-8,11) facts unfolding c k by blast
  then show "licensed env s (checked bc tx fee now n r env resp t)
      (TransactE (chain_uint64 bc) (BG_contract bc) (Inr (call tx fee)) err)"
    and "licensed env s
      (SleepE (6 * second) #
        TransactE (chain_uint64 bc) (BG_contract bc) (bound_call env (call tx fee)) (Some e) #
        checked bc tx fee now n r env resp t)
      (TransactE (chain_uint64 bc) (BG_contract bc) (Inr (call tx fee)) err)"
    using facts(4) by (simp_all add: licensed_def)
qed

lemma send_one_traced:
  assumes "grown_from [QueryE (StartTransferInQ (t0 + hour)) (Inr txs), NowE t0] h" "tx \<in> set txs"
    and "Status tx = TRANSFER_STATUS_TRANSFER_IN_START" "TransferType tx = TRANSFER_TYPE_IN"
      "t0 + hour < TimeLock tx"
    and nxt: "\<And>h'. grown_from [QueryE (StartTransferInQ (t0 + hour)) (Inr txs), NowE t0] h' \<Longrightarrow>
      ltraced A env s next h'"
  shows "ltraced A env s (send_one env s tx next) h"
  unfolding send_one_def
  using assms(1-5)
  by (auto simp: Let_def db_defs transferIn_def gateway_GetFee_fold remote_status_of
      simp del: traced_by.simps(9)
      split: option.splits sum.splits
      intro!: traced_getTransfer traced_Transact nxt grown_from_Cons grown_from_asked
        send_licensed [simplified])

lemma confirm_licensed:
  assumes "grown_from [QueryE ConfirmableLockedQ (Inr txs)] h" "tx \<in> set txs"
    and "Status tx = TRANSFER_STATUS_LOCKED" "SV_chainMap s (ChainId tx) = Some bc"
      "remote_status r = Some 1"
  shows "licensed env s
      (ExecE (SetTransferStatusByFromS (TransferId tx) TRANSFER_STATUS_CONFIRM_PENDING
         TRANSFER_STATUS_LOCKED t) dbErr # NowE t # asked bc (TransferId tx) n r @ h)
      (TransactE (chain_uint64 bc) (BG_contract bc)
        (Inr (CBridge_Confirm (TransferId tx) (Preimage tx))) err)"
proof -
  obtain recent where h: "h = recent @ [QueryE ConfirmableLockedQ (Inr txs)]"
    using assms(1) by (auto simp: grown_from_def)
  have "confirm_license s
      (ExecE (SetTransferStatusByFromS (TransferId tx) TRANSFER_STATUS_CONFIRM_PENDING
         TRANSFER_STATUS_LOCKED t) dbErr # NowE t # asked bc (TransferId tx) n r @ h)
      (chain_uint64 bc) (BG_contract bc) (CBridge_Confirm (TransferId tx) (Preimage tx))"
    unfolding confirm_license_def h using assms(2-5) by blast
  then show ?thesis by (simp add: licensed_def)
qed

lemma confirm_one_traced:
  assumes "grown_from [QueryE ConfirmableLockedQ (Inr txs)] h" "tx \<in> set txs"
    and "Status tx = TRANSFER_STATUS_LOCKED"
    and nxt: "\<And>h'. grown_from [QueryE ConfirmableLockedQ (Inr txs)] h' \<Longrightarrow> ltraced A env s next h'"
  shows "ltraced A env s (confirm_one env s tx next) h"
  unfolding confirm_one_def
  using assms(1-3)
  by (auto simp: db_defs confirm_def remote_status_of remote_status_defs
      simp del: traced_by.simps(9)
      split: option.splits sum.splits
      intro!: traced_getTransfer traced_Transact nxt grown_from_Cons grown_from_asked confirm_licensed)

lemma late_confirm_licensed:
  assumes "grown_from [QueryE (RefundAbleTransferInQ t0) (Inr txs), NowE t0] h" "tx \<in> set txs"
    and "Status tx = TRANSFER_STATUS_LOCKED" "TransferType tx = TRANSFER_TYPE_IN" "TimeLock tx < t0"
    and "SV_chainMap s (ChainId tx) = Some bc" "remote_status r = Some 1"
      "TransferId out = RelatedTid tx" "Status out = TRANSFER_STATUS_CONFIRMED"
  shows "licensed env s
      (QueryE (ByTidQ (RelatedTid tx)) (Inr (out # outs)) #
        ExecE (SetTransferStatusByFromS (TransferId tx) TRANSFER_STATUS_REFUND_PENDING
          TRANSFER_STATUS_LOCKED t) dbErr # NowE t # asked bc (TransferId tx) n r @ h)
      (TransactE (chain_uint64 bc) (BG_contract bc)
        (Inr (CBridge_Confirm (TransferId tx) (Preimage out))) err)"
proof -
  obtain recent where h: "h = recent @ [QueryE (RefundAbleTransferInQ t0) (Inr txs), NowE t0]"
    using assms(1) by (auto simp: grown_from_def)
  have "confirm_license s
      (QueryE (ByTidQ (RelatedTid tx)) (Inr (out # outs)) #
        ExecE (SetTransferStatusByFromS (TransferId tx) TRANSFER_STATUS_REFUND_PENDING
          TRANSFER_STATUS_LOCKED t) dbErr # NowE t # asked bc (TransferId tx) n r @ h)
      (chain_uint64 bc) (BG_contract bc) (CBridge_Confirm (TransferId tx) (Preimage out))"
    unfolding confirm_license_def h using assms(2-) by blast
  then show ?thesis by (simp add: licensed_def)
qed

lemma refund_licensed:
  assumes "grown_from [QueryE (RefundAbleTransferInQ t0) (Inr txs), NowE t0] h" "tx \<in> set txs"
    and "Status tx = TRANSFER_STATUS_LOCKED" "TransferType tx = TRANSFER_TYPE_IN" "TimeLock tx < t0"
    and "SV_chainMap s (ChainId tx) = Some bc" "remote_status r = Some 1"
      "TransferId out = RelatedTid tx" "Status out \<noteq> TRANSFER_STATUS_CONFIRMED"
      "SV_chainMap s (ChainId out) = Some bc2" "remote_status r2 \<noteq> None" "remote_status r2 \<noteq> Some 2"
  shows "licensed env s
      (asked bc2 (RelatedTid tx) n2 r2 @ QueryE (ByTidQ (RelatedTid tx)) (Inr (out # outs)) #
        ExecE (SetTransferStatusByFromS (TransferId tx) TRANSFER_STATUS_REFUND_PENDING
          TRANSFER_STATUS_LOCKED t) dbErr # NowE t # asked bc (TransferId tx) n r @ h)
      (TransactE (chain_uint64 bc) (BG_contract bc) (Inr (CBridge_Refund (TransferId tx))) err)"
proof -
  obtain recent where h: "h = recent @ [QueryE (RefundAbleTransferInQ t0) (Inr txs), NowE t0]"
    using assms(1) by (auto simp: grown_from_def)
  have "refund_license s
      (asked bc2 (RelatedTid tx) n2 r2 @ QueryE (ByTidQ (RelatedTid tx)) (Inr (out # outs)) #
        ExecE (SetTransferStatusByFromS (TransferId tx) TRANSFER_STATUS_REFUND_PENDING
          TRANSFER_STATUS_LOCKED t) dbErr # NowE t # asked bc (TransferId tx) n r @ h)
      (chain_uint64 bc) (BG_contract bc) (CBridge_Refund (TransferId tx))"
    unfolding refund_license_def h assms(8) [symmetric] using assms(2-) by blast
  then show ?thesis by (simp add: licensed_def)
qed

lemma refund_one_traced:
  assumes "grown_from [QueryE (RefundAbleTransferInQ t0) (Inr txs), NowE t0] h" "tx \<in> set txs"
    and "Status tx = TRANSFER_STATUS_LOCKED" "TransferType tx = TRANSFER_TYPE_IN" "TimeLock tx < t0"
    and nxt: "\<And>h'. grown_from [QueryE (RefundAbleTransferInQ t0) (Inr txs), NowE t0] h' \<Longrightarrow>
      ltraced A env s next h'"
  shows "ltraced A env s (refund_one env s tx next) h"
  unfolding refund_one_def refund_pending_def
  using assms(1-5)
  by (auto simp: db_defs confirm_def refund_def remote_status_of remote_status_defs answer_fits_def
      simp del: traced_by.simps(9)
      split: option.splits sum.splits list.splits
      intro!: traced_getTransfer traced_Transact nxt grown_from_Cons grown_from_asked
        late_confirm_licensed refund_licensed)

lemma recover_one_traced:
  assumes "grown_from start h" "\<And>h'. grown_from start h' \<Longrightarrow> ltraced A env s next h'"
  shows "ltraced A env s (recover_one to from tx next) h"
  using assms by (simp add: recover_one_def db_defs grown_from_Cons)

text \<open>A round: its query, then the loop over the answer.\<close>

lemma round_traced:
  assumes "\<And>txs tx nx h. tx \<in> set txs \<Longrightarrow> \<exists>x. tx = scan x \<and> query_sel q x \<Longrightarrow>
      grown_from (QueryE q (Inr txs) # h0) h \<Longrightarrow>
      (\<And>h'. grown_from (QueryE q (Inr txs) # h0) h' \<Longrightarrow> ltraced A env s nx h') \<Longrightarrow>
      ltraced A env s (body tx nx) h"
    and "\<And>h. grown_from h0 h \<Longrightarrow> ltraced A env s last_step h"
  shows "ltraced A env s
    (Query q (\<lambda>r. case r of Inl e \<Rightarrow> last_step | Inr txs \<Rightarrow> for_each body txs last_step)) h0"
proof -
  have "ltraced A env s (for_each body txs last_step) (QueryE q (Inr txs) # h0)"
    if "answer_fits q (Inr txs)" for txs
  proof (rule traced_for_each [where S = "grown_from (QueryE q (Inr txs) # h0)"])
    fix tx nx h
    assume "tx \<in> set txs" "grown_from (QueryE q (Inr txs) # h0) h"
      "\<And>h'. grown_from (QueryE q (Inr txs) # h0) h' \<Longrightarrow> ltraced A env s nx h'"
    then show "ltraced A env s (body tx nx) h"
      using that assms(1) [of tx txs h nx] by (simp add: answer_fits_def)
  next
    fix h assume "grown_from (QueryE q (Inr txs) # h0) h"
    then have "grown_from h0 h" by (metis grown_from_def append.assoc append_Cons append_Nil)
    then show "ltraced A env s last_step h" by (rule assms(2))
  qed simp
  moreover have "ltraced A env s last_step (QueryE q (Inl e) # h0)" for e
    by (rule assms(2)) (auto simp: grown_from_def)
  ultimately show ?thesis by (simp split: sum.splits)
qed

lemma recover_rounds_traced:
  assumes "\<And>h'. grown_from h h' \<Longrightarrow> ltraced A env s next h'"
  shows "ltraced A env s (processRecoverTimeoutPendingTransferIn next) h"
    "ltraced A env s (processRecoverTimeoutPendingConfirm next) h"
    "ltraced A env s (processRecoverTimeoutPendingRefund next) h"
proof -
  have nxt: "ltraced A env s next h'" if "grown_from (NowE t # h) h'" for t h'
    using that by (intro assms) (metis grown_from_def append.assoc append_Cons append_Nil)
  show "ltraced A env s (processRecoverTimeoutPendingTransferIn next) h"
    "ltraced A env s (processRecoverTimeoutPendingConfirm next) h"
    "ltraced A env s (processRecoverTimeoutPendingRefund next) h"
    unfolding processRecoverTimeoutPendingTransferIn_def processRecoverTimeoutPendingConfirm_def
      processRecoverTimeoutPendingRefund_def db_defs traced_by.simps(3)
    by (auto simp del: traced_by.simps(5) intro!: round_traced recover_one_traced nxt)
qed

lemma round_programs_traced:
  "ltraced A env s (processTrySendTransferIn env s) []"
  "ltraced A env s (processTryConfirmTransfer env s) []"
  "ltraced A env s (processTryRefundTransferIn env s) []"
  unfolding processTrySendTransferIn_def processTryConfirmTransfer_def
    processTryRefundTransferIn_def db_defs traced_by.simps(3)
  by (auto simp del: traced_by.simps(5) intro!: round_traced
      intro: send_one_traced confirm_one_traced refund_one_traced)

lemma monitors_traced:
  "ltraced A env s (monitorLogTransferOut env s bc eLog) h"
  "ltraced A env s (monitorLogTransferIn s eLog) h"
  "ltraced A env s (monitorLogConfirm eLog) h"
  "ltraced A env s (monitorLogRefund eLog) h"
  by (auto simp: monitorLogTransferOut_def monitorLogTransferIn_def monitorLogConfirm_def
      monitorLogRefund_def db_defs split: option.splits sum.splits)

lemma node_traced: "p \<in> node_programs env s \<Longrightarrow> ltraced A env s p []"
  by (erule node_programs_cases)
    (simp_all only: monitors_traced round_programs_traced, intro recover_rounds_traced, simp)

lemma node_licensed:
  assumes "sys_reach A (node_programs env s) (T0, []) (T, ths)"
    and "(newer @ TransactE c a (Inr call) err # older, p) \<in> set ths"
  shows "send_license env s older c a call \<or> confirm_license s older c a call \<or>
    refund_license s older c a call"
  using sys_licensed [OF assms(1) node_traced assms(2)] by (simp add: licensed_def)

end
