(* ===== verification/Relay_Final.thy ===== *)
theory Relay_Final
  imports Relay_Loops
begin

text \<open>
  The final states of the table against the chains. A contract settles a transfer at most once,
  as confirmed or as refunded; \<open>fate\<close> says how. If the logs that are delivered and the answers
  of the contracts agree with it, so does every final status in the table, in all interleavings:
  a second instance of \<open>table_protocol\<close>.
\<close>

section \<open>Agreement with the chains\<close>

text \<open>\<open>fate tid\<close> is the final status number of the contract for the transfer, 0 for none yet.\<close>

definition log_true :: "(hash \<Rightarrow> u8) \<Rightarrow> ethlog \<Rightarrow> bool" where
  "log_true fate eLog \<longleftrightarrow>
     (\<forall>ev. ParseEvent to_LogTransferConfirmed evLogTransferConfirmed eLog = Inr ev \<longrightarrow>
        fate (LC_TransferId ev) = remoteTransferStatusConfirmed) \<and>
     (\<forall>ev. ParseEvent to_LogTransferRefunded evLogTransferRefunded eLog = Inr ev \<longrightarrow>
        fate (LR_TransferId ev) = remoteTransferStatusRefunded)"

fun answer_true :: "(hash \<Rightarrow> u8) \<Rightarrow> ev \<Rightarrow> bool" where
  "answer_true fate (CallE c a n m r) \<longleftrightarrow>
     (\<forall>tid t. m = CBridge_transfers_call tid \<longrightarrow> CBridge_Transfers r = Some (Inr t) \<longrightarrow>
        TO_Status t = remoteTransferStatusConfirmed \<or> TO_Status t = remoteTransferStatusRefunded \<longrightarrow>
        TO_Status t = fate tid)"
| "answer_true fate e \<longleftrightarrow> True"

definition final_true :: "(hash \<Rightarrow> u8) \<Rightarrow> hash \<Rightarrow> TransferStatus \<Rightarrow> bool" where
  "final_true fate tid st \<longleftrightarrow>
     (st = TRANSFER_STATUS_CONFIRMED \<longrightarrow> fate tid = remoteTransferStatusConfirmed) \<and>
     (st = TRANSFER_STATUS_REFUNDED \<longrightarrow> fate tid = remoteTransferStatusRefunded)"

definition fate_inv :: "(hash \<Rightarrow> u8) \<Rightarrow> table \<Rightarrow> bool" where
  "fate_inv fate T \<longleftrightarrow> (\<forall>r\<in>set T. final_true fate (TransferId r) (Status r))"

fun fate_ok :: "(hash \<Rightarrow> u8) \<Rightarrow> table \<Rightarrow> stmt \<Rightarrow> bool" where
  "fate_ok fate T (InsertTransferS tx now) = final_true fate (TransferId tx) (Status tx)"
| "fate_ok fate T (ConfirmTransferS tid p h) = final_true fate tid TRANSFER_STATUS_CONFIRMED"
| "fate_ok fate T (RefundTransferS tid h) = final_true fate tid TRANSFER_STATUS_REFUNDED"
| "fate_ok fate T (UpdateTransferStatusS tid to) = final_true fate tid to"
| "fate_ok fate T (SetPendingTransferInS tid to from now) = final_true fate tid to"
| "fate_ok fate T (SetTransferStatusByFromS tid to from now) = final_true fate tid to"
| "fate_ok fate T s = True"

lemma final_true_open [simp]:
  "final_true fate tid TRANSFER_STATUS_LOCKED" "final_true fate tid TRANSFER_STATUS_TRANSFER_IN_START"
  "final_true fate tid TRANSFER_STATUS_TRANSFER_IN_PENDING"
  "final_true fate tid TRANSFER_STATUS_CONFIRM_PENDING"
  "final_true fate tid TRANSFER_STATUS_REFUND_PENDING"
  by (simp_all add: final_true_def)

lemma fate_apply:
  assumes "fate_inv fate T" "fate_ok fate T s"
  shows "fate_inv fate (apply_stmt s T)"
proof (cases "is_insert s")
  case True
  then obtain tx now where s: "s = InsertTransferS tx now" by (rule insert_cases)
  have "final_true fate (TransferId r) (Status r)" if "r \<in> set (apply_stmt s T)" for r
    using that assms set_insert_row(1) [of "inserted_row tx now" T]
    by (auto simp: s fate_inv_def)
  then show ?thesis by (simp add: fate_inv_def)
next
  case False
  have "final_true fate (TransferId (stmt_upd s r)) (Status (stmt_upd s r))"
    if "stmt_sel s r" "final_true fate (TransferId r) (Status r)" for r
    using that assms(2) by (cases s) auto
  with assms(1) show ?thesis
    unfolding fate_inv_def apply_update [OF False] by (auto simp: set_update_where)
qed

interpretation fate: table_protocol "fate_inv f" "\<lambda>T T'. True" "fate_ok f" for f
  by unfold_locales (simp_all add: fate_apply)

abbreviation fsafe :: "(hash \<Rightarrow> u8) \<Rightarrow> proc \<Rightarrow> table \<Rightarrow> bool" where
  "fsafe f \<equiv> safe (answer_true f) (fate_inv f) (\<lambda>T T'. True) (fate_ok f)"

section \<open>Every program keeps it\<close>

text \<open>Nothing a program needs is about the table, so being safe is the same on all tables.\<close>

lemma fsafe_Exec:
  assumes "\<And>T. fate_ok f T s" "\<And>r T. fsafe f (k r) T"
  shows "fsafe f (Exec s k) T"
  using assms by (intro fate.safe_Exec) auto

lemma fsafe_Query:
  assumes "\<And>r T. fsafe f (k r) T"
  shows "fsafe f (Query q k) T"
  using assms by (intro fate.safe_Query) auto

lemma fsafe_getTransfer:
  assumes "\<And>err. fsafe f (k (Inl err)) T"
    and "\<And>i. TI_Status i = 2 \<longrightarrow> f tid = 2 \<Longrightarrow> TI_Status i = 3 \<longrightarrow> f tid = 3 \<Longrightarrow>
      fsafe f (k (Inr i)) T"
  shows "fsafe f (getTransfer env bc tid k) T"
  using assms
  by (auto simp: getTransfer_def TransferInfo_of_def remote_status_defs split: option.splits sum.splits)

lemma fsafe_send_one: "(\<And>T. fsafe f next T) \<Longrightarrow> fsafe f (send_one env s tx next) T"
  unfolding send_one_def
  by (auto simp: db_defs Let_def transferIn_def gateway_GetFee_def simp del: safe.simps(4)
      split: option.splits sum.splits intro!: fsafe_getTransfer fsafe_Exec)

lemma fsafe_confirm_one: "(\<And>T. fsafe f next T) \<Longrightarrow> fsafe f (confirm_one env s tx next) T"
  unfolding confirm_one_def
  by (auto simp: db_defs confirm_def remote_status_defs final_true_def simp del: safe.simps(4)
      split: option.splits sum.splits intro!: fsafe_getTransfer fsafe_Exec)

lemma fsafe_refund_one: "(\<And>T. fsafe f next T) \<Longrightarrow> fsafe f (refund_one env s tx next) T"
  unfolding refund_one_def refund_pending_def
  by (auto simp: db_defs confirm_def refund_def remote_status_defs final_true_def
      simp del: safe.simps(4,5)
      split: option.splits sum.splits list.splits intro!: fsafe_getTransfer fsafe_Exec fsafe_Query)

lemma fsafe_recover_one:
  assumes "\<And>T. fsafe f next T" "final_true f (TransferId tx) to"
  shows "fsafe f (recover_one to from tx next) T"
  unfolding recover_one_def using assms
  by (auto simp: db_defs simp del: safe.simps(4) intro!: fsafe_Exec)

lemma fsafe_for_each:
  assumes "\<And>x k T. (\<And>T. fsafe f k T) \<Longrightarrow> fsafe f (body x k) T" "\<And>T. fsafe f k T"
  shows "fsafe f (for_each body xs k) T"
  using assms(2) by (induction xs arbitrary: T) (simp_all add: assms(1))

lemma fsafe_round:
  assumes "\<And>x k T. (\<And>T. fsafe f k T) \<Longrightarrow> fsafe f (body x k) T" "\<And>T. fsafe f next T"
  shows "fsafe f (Query q (\<lambda>r. case r of Inl e \<Rightarrow> next | Inr txs \<Rightarrow> for_each body txs next)) T"
  using assms by (intro fsafe_Query) (auto split: sum.splits intro: fsafe_for_each)

lemma fsafe_recover_rounds:
  assumes "\<And>T. fsafe f next T"
  shows "fsafe f (processRecoverTimeoutPendingTransferIn next) T"
    "fsafe f (processRecoverTimeoutPendingConfirm next) T"
    "fsafe f (processRecoverTimeoutPendingRefund next) T"
  unfolding processRecoverTimeoutPendingTransferIn_def processRecoverTimeoutPendingConfirm_def
    processRecoverTimeoutPendingRefund_def db_defs
  using assms by (auto simp del: safe.simps(5) intro!: fsafe_round fsafe_recover_one)

lemma fsafe_monitors:
  "log_true f eLog \<Longrightarrow> fsafe f (monitorLogConfirm eLog) T"
  "log_true f eLog \<Longrightarrow> fsafe f (monitorLogRefund eLog) T"
  "fsafe f (monitorLogTransferIn s eLog) T"
  "fsafe f (monitorLogTransferOut env s bc eLog) T"
  unfolding monitorLogConfirm_def monitorLogRefund_def monitorLogTransferIn_def
    monitorLogTransferOut_def
  by (auto simp: log_true_def final_true_def db_defs out_transfer_def in_transfer_def
      simp del: safe.simps(4) split: sum.splits option.splits intro!: fsafe_Exec)

lemma node_fsafe:
  "p \<in> node_programs_on {l. log_true f l} env s \<Longrightarrow> fsafe f p T"
  by (erule node_programs_on_cases)
    (auto simp: fsafe_monitors fsafe_recover_rounds processTrySendTransferIn_def
      processTryConfirmTransfer_def processTryRefundTransferIn_def db_defs
      simp del: safe.simps(4,5)
      intro!: fsafe_round fsafe_send_one fsafe_confirm_one fsafe_refund_one)

lemma node_final:
  assumes "sys_reach (answer_true f) (node_programs_on {l. log_true f l} env s) ([], []) (T, ths)"
  shows "fate_inv f T"
  using fate.sys_safe [OF assms] node_fsafe by (auto simp: fate_inv_def)

end
