(* ===== verification/DAL.thy ===== *)
theory DAL
  imports Transfer_Table
begin

text \<open>
  \<open>src/server/dal.go\<close> over the tables of \<open>src/server/schema.sql\<close>: every method as the SQL it
  sends, with its arguments in the order it binds them, its text encodings and its scan. A row
  is a function from column names to SQL values; a method returns the new table or an error. The
  last part shows that the methods implement the statements and queries of \<open>Transfer_Table\<close>.
\<close>

section \<open>SQL values, arguments and conditions\<close>

datatype sqlval = SText string | SInt int | STime gotime | SBool bool | SNull

datatype coltype = TText | TInt | TTime | TBool

text \<open>A bound Go value. \<open>database/sql\<close> refuses a \<open>uint64\<close> whose high bit is set.\<close>

datatype goarg = AText string | AInt int | AUint u64 | ATime gotime | ABool bool

fun bind_arg :: "goarg \<Rightarrow> sqlval result" where
  "bind_arg (AText s) = Inr (SText s)"
| "bind_arg (AInt i) = Inr (SInt i)"
| "bind_arg (AUint n) =
     (if unat n < 2 ^ 63 then Inr (SInt (uint n))
      else Inl ''uint64 values with high bit set are not supported'')"
| "bind_arg (ATime t) = Inr (STime t)"
| "bind_arg (ABool b) = Inr (SBool b)"

fun map_result :: "('a \<Rightarrow> 'b result) \<Rightarrow> 'a list \<Rightarrow> 'b list result" where
  "map_result f [] = Inr []"
| "map_result f (x # xs) =
     (case f x of Inl e \<Rightarrow> Inl e
      | Inr y \<Rightarrow> (case map_result f xs of Inl e \<Rightarrow> Inl e | Inr ys \<Rightarrow> Inr (y # ys)))"

type_synonym sql_row = "string \<Rightarrow> sqlval"
type_synonym sql_table = "sql_row list"

datatype cmp = CEq | CNe | CLt | CGt

datatype sql_cond =
    Cmp string cmp sqlval
  | InList string "sqlval list"
  | IsNotNull string

fun cmp_holds :: "cmp \<Rightarrow> sqlval \<Rightarrow> sqlval \<Rightarrow> bool" where
  "cmp_holds c SNull w = False"
| "cmp_holds c v SNull = False"
| "cmp_holds CEq v w = (v = w)"
| "cmp_holds CNe v w = (v \<noteq> w)"
| "cmp_holds CLt (STime s) (STime t) = (s < t)"
| "cmp_holds CGt (STime s) (STime t) = (t < s)"
| "cmp_holds c v w = False"

fun cond_holds :: "sql_row \<Rightarrow> sql_cond \<Rightarrow> bool" where
  "cond_holds r (Cmp c op v) = cmp_holds op (r c) v"
| "cond_holds r (InList c vs) = (r c \<noteq> SNull \<and> r c \<in> set vs)"
| "cond_holds r (IsNotNull c) = (r c \<noteq> SNull)"

definition where_holds :: "sql_cond list \<Rightarrow> sql_row \<Rightarrow> bool" where
  "where_holds cs r = list_all (cond_holds r) cs"

section \<open>The database around the code\<close>

text \<open>
  What the code does not fix: the go-ethereum functions, the conversion of a text parameter for
  an \<open>INT\<close> column, the order in which a query without \<open>order by\<close> delivers rows, the value
  \<open>big.Int.SetString\<close> leaves when it fails, and what a \<open>TIMESTAMPTZ\<close> value keeps of a time in
  nanoseconds: microseconds, rounded or truncated. A whole number of microseconds is kept as it is,
  and any other time moves by less than one.
\<close>

record dal_env =
  DLib :: ethlib
  TextToInt :: "string \<Rightarrow> int option"
  RowOrder :: "sql_row list \<Rightarrow> sql_row list"
  BadInt :: "string \<Rightarrow> int"
  DTime :: "gotime \<Rightarrow> gotime"

definition dal_doc :: "dal_env \<Rightarrow> bool" where
  "dal_doc env \<longleftrightarrow> eth_common_doc (DLib env) \<and> (\<forall>rs. mset (RowOrder env rs) = mset rs) \<and>
     (\<forall>n. DTime env (n * 1000) = n * 1000) \<and> (\<forall>t. \<bar>DTime env t - t\<bar> < 1000)"

text \<open>The reference database truncates to microseconds.\<close>

definition ref_env :: dal_env where
  "ref_env = \<lparr>DLib = ref_lib, TextToInt = (\<lambda>s. None), RowOrder = (\<lambda>rs. rs), BadInt = (\<lambda>s. 0),
     DTime = (\<lambda>t. t div 1000 * 1000)\<rparr>"

lemma ref_env_doc: "dal_doc ref_env"
  by (auto simp: dal_doc_def ref_env_def ref_lib_common)

lemma ref_env_time: "DTime ref_env t = t div 1000 * 1000"
  by (simp add: ref_env_def)

lemma DTime_micros:
  assumes "dal_doc env" "1000 dvd t"
  shows "DTime env t = t"
proof -
  from assms(2) obtain n where "t = n * 1000" by (auto simp: dvd_def mult.commute)
  with assms(1) show ?thesis by (simp add: dal_doc_def)
qed

lemma DTime_near: "dal_doc env \<Longrightarrow> \<bar>DTime env t - t\<bar> < 1000"
  by (simp add: dal_doc_def)

section \<open>The \<open>transfer\<close> table\<close>

text \<open>\<open>transferAllColumns\<close>, split at its commas.\<close>

definition transferAllColumns :: "string list" where
  "transferAllColumns =
     [''tid'', ''txhash'', ''chainid'', ''token'', ''transfertype'', ''timelock'', ''hashlock'',
      ''status'', ''relatedtid'', ''relatedchainid'', ''relatedtoken'', ''amount'', ''fee'',
      ''transfergascost'', ''confirmgascost'', ''refundgascost'', ''preimage'', ''senderaddr'',
      ''receiveraddr'', ''txconfirmhash'', ''txrefundhash'', ''updatets'', ''createts'']"

text \<open>The column types of \<open>schema.sql\<close>.\<close>

definition transfer_schema :: "string \<Rightarrow> coltype" where
  "transfer_schema c =
     (if c \<in> {''chainid'', ''transfertype'', ''status'', ''relatedchainid''} then TInt
      else if c \<in> {''timelock'', ''updatets'', ''createts''} then TTime
      else TText)"

text \<open>Storing a value in a column: a text parameter of an \<open>INT\<close> column is converted or refused, a
  time loses what the column does not keep.\<close>

fun store_val :: "dal_env \<Rightarrow> coltype \<Rightarrow> sqlval \<Rightarrow> sqlval result" where
  "store_val env TText (SText s) = Inr (SText s)"
| "store_val env TInt (SInt i) = Inr (SInt i)"
| "store_val env TInt (SText s) =
     (case TextToInt env s of Some i \<Rightarrow> Inr (SInt i) | None \<Rightarrow> Inl ''could not parse as type int'')"
| "store_val env TTime (STime t) = Inr (STime (DTime env t))"
| "store_val env TBool (SBool b) = Inr (SBool b)"
| "store_val env t v = Inl ''value type does not match column type''"

definition bind_col :: "dal_env \<Rightarrow> string \<times> goarg \<Rightarrow> (string \<times> sqlval) result" where
  "bind_col env ca =
     (case bind_arg (snd ca) of Inl e \<Rightarrow> Inl e
      | Inr v \<Rightarrow> (case store_val env (transfer_schema (fst ca)) v of
            Inl e \<Rightarrow> Inl e | Inr w \<Rightarrow> Inr (fst ca, w)))"

fun set_cols :: "(string \<times> sqlval) list \<Rightarrow> sql_row \<Rightarrow> sql_row" where
  "set_cols [] r = r"
| "set_cols ((c, v) # cvs) r = set_cols cvs (r(c := v))"

text \<open>\<open>INSERT \<dots> ON CONFLICT DO NOTHING\<close>: the primary key \<open>tid\<close> is the only constraint a
  row can conflict on.\<close>

definition sql_insert :: "dal_env \<Rightarrow> string list \<Rightarrow> goarg list \<Rightarrow> sql_table \<Rightarrow> sql_table result" where
  "sql_insert env cols args R =
     (case map_result (bind_col env) (zip cols args) of
        Inl e \<Rightarrow> Inl e
      | Inr cvs \<Rightarrow>
          (let r = set_cols cvs (\<lambda>c. SNull)
           in if r ''tid'' \<in> (\<lambda>x. x ''tid'') ` set R then Inr R else Inr (R @ [r])))"

definition sql_update ::
  "dal_env \<Rightarrow> (string \<times> goarg) list \<Rightarrow> sql_cond list \<Rightarrow> sql_table \<Rightarrow> sql_table result" where
  "sql_update env sets conds R =
     (case map_result (bind_col env) sets of
        Inl e \<Rightarrow> Inl e
      | Inr cvs \<Rightarrow> Inr (update_where (where_holds conds) (set_cols cvs) R))"

section \<open>Writing methods\<close>

definition InsertTransfer ::
  "dal_env \<Rightarrow> Transfer \<Rightarrow> gotime \<Rightarrow> sql_table \<Rightarrow> sql_table result" where
  "InsertTransfer env tx tsNow R =
     (let hs = HashString (DLib env); ad = AddrString (DLib env)
      in sql_insert env transferAllColumns
       [AText (hs (TransferId tx)), AText (hs (TxHash tx)), AUint (ChainId tx),
        AText (ad (Token tx)), AInt (TransferType_number (TransferType tx)), ATime (TimeLock tx),
        AText (hs (HashLock tx)), AInt (TransferStatus_number (Status tx)),
        AText (hs (RelatedTid tx)), AUint (RelatedChainId tx), AText (ad (RelatedToken tx)),
        AText (big_String (Amount tx)), AText (big_String (Fee tx)),
        AText (big_String (TransferGasCost tx)), AText (big_String (ConfirmGasCost tx)),
        AText (big_String (RefundGasCost tx)), AText [], AText (ad (Sender tx)),
        AText (ad (Receiver tx)), AText (hs (TxConfirmHash tx)), AText (hs (TxRefundHash tx)),
        ATime tsNow, ATime tsNow] R)"

definition SetRelatedTxPreimage :: "dal_env \<Rightarrow> hash \<Rightarrow> hash \<Rightarrow> sql_table \<Rightarrow> sql_table result" where
  "SetRelatedTxPreimage env preimage relatedTid R =
     sql_update env [(''preimage'', AText (HashString (DLib env) preimage))]
       [Cmp ''relatedtid'' CEq (SText (HashString (DLib env) relatedTid))] R"

definition ConfirmTransfer :: "dal_env \<Rightarrow> hash \<Rightarrow> hash \<Rightarrow> hash \<Rightarrow> sql_table \<Rightarrow> sql_table result" where
  "ConfirmTransfer env tid preimage txConfirmHash R =
     sql_update env
       [(''status'', AInt (TransferStatus_number TRANSFER_STATUS_CONFIRMED)),
        (''preimage'', AText (HashString (DLib env) preimage)),
        (''txconfirmhash'', AText (HashString (DLib env) txConfirmHash))]
       [Cmp ''tid'' CEq (SText (HashString (DLib env) tid))] R"

definition RefundTransfer :: "dal_env \<Rightarrow> hash \<Rightarrow> hash \<Rightarrow> sql_table \<Rightarrow> sql_table result" where
  "RefundTransfer env tid txRefundHash R =
     sql_update env
       [(''status'', AInt (TransferStatus_number TRANSFER_STATUS_REFUNDED)),
        (''txrefundhash'', AText (HashString (DLib env) txRefundHash))]
       [Cmp ''tid'' CEq (SText (HashString (DLib env) tid))] R"

definition RecordTransferIn :: "dal_env \<Rightarrow> hash \<Rightarrow> hash \<Rightarrow> sql_table \<Rightarrow> sql_table result" where
  "RecordTransferIn env tid txHash R =
     sql_update env
       [(''status'', AInt (TransferStatus_number TRANSFER_STATUS_LOCKED)),
        (''txhash'', AText (HashString (DLib env) txHash))]
       [Cmp ''tid'' CEq (SText (HashString (DLib env) tid)),
        InList ''status''
          [SInt (TransferStatus_number TRANSFER_STATUS_TRANSFER_IN_START),
           SInt (TransferStatus_number TRANSFER_STATUS_TRANSFER_IN_PENDING)]] R"

definition UpdateTransferStatus ::
  "dal_env \<Rightarrow> hash \<Rightarrow> TransferStatus \<Rightarrow> sql_table \<Rightarrow> sql_table result" where
  "UpdateTransferStatus env tid to R =
     sql_update env [(''status'', AInt (TransferStatus_number to))]
       [Cmp ''tid'' CEq (SText (HashString (DLib env) tid))] R"

definition SetTransferPreimage :: "dal_env \<Rightarrow> hash \<Rightarrow> hash \<Rightarrow> sql_table \<Rightarrow> sql_table result" where
  "SetTransferPreimage env tid preimage R =
     sql_update env [(''status'', AText (HashString (DLib env) preimage))]
       [Cmp ''tid'' CEq (SText (HashString (DLib env) tid))] R"

definition SetTransferInAmountAndFee ::
  "dal_env \<Rightarrow> hash \<Rightarrow> int \<Rightarrow> int \<Rightarrow> sql_table \<Rightarrow> sql_table result" where
  "SetTransferInAmountAndFee env tid amount fee R =
     sql_update env [(''amount'', AText (big_String amount)), (''fee'', AText (big_String fee))]
       [Cmp ''tid'' CEq (SText (HashString (DLib env) tid))] R"

definition SetPendingTransferIn ::
  "dal_env \<Rightarrow> hash \<Rightarrow> TransferStatus \<Rightarrow> TransferStatus \<Rightarrow> gotime \<Rightarrow> sql_table \<Rightarrow> sql_table result" where
  "SetPendingTransferIn env tid to from now R =
     sql_update env [(''status'', AInt (TransferStatus_number to)), (''updatets'', ATime now)]
       [Cmp ''tid'' CEq (SText (HashString (DLib env) tid)),
        Cmp ''status'' CEq (SInt (TransferStatus_number from))] R"

definition SetTransferStatusByFrom ::
  "dal_env \<Rightarrow> hash \<Rightarrow> TransferStatus \<Rightarrow> TransferStatus \<Rightarrow> gotime \<Rightarrow> sql_table \<Rightarrow> sql_table result" where
  "SetTransferStatusByFrom env tid to from now R =
     sql_update env [(''status'', AInt (TransferStatus_number to)), (''updatets'', ATime now)]
       [Cmp ''tid'' CEq (SText (HashString (DLib env) tid)),
        Cmp ''status'' CEq (SInt (TransferStatus_number from))] R"

section \<open>Scanning\<close>

text \<open>Destinations of \<open>Scan\<close>: a string, a \<open>uint64\<close>, an enumeration, a time. A \<open>NULL\<close> or a
  value of another kind is an error.\<close>

definition scan_text :: "sqlval \<Rightarrow> (string \<Rightarrow> 'a result) \<Rightarrow> 'a result" where
  "scan_text v k = (case v of SText s \<Rightarrow> k s | _ \<Rightarrow> Inl ''sql: Scan error: string'')"

definition scan_u64 :: "sqlval \<Rightarrow> (u64 \<Rightarrow> 'a result) \<Rightarrow> 'a result" where
  "scan_u64 v k =
     (case v of SInt i \<Rightarrow> if 0 \<le> i \<and> i < 2 ^ 64 then k (of_int i)
                         else Inl ''sql: Scan error: value out of range''
      | _ \<Rightarrow> Inl ''sql: Scan error: uint64'')"

definition scan_enum :: "(int \<Rightarrow> 'e option) \<Rightarrow> sqlval \<Rightarrow> ('e \<Rightarrow> 'a result) \<Rightarrow> 'a result" where
  "scan_enum f v k =
     (case v of SInt i \<Rightarrow> (case f i of Some x \<Rightarrow> k x | None \<Rightarrow> Inl ''unknown enumeration value'')
      | _ \<Rightarrow> Inl ''sql: Scan error: int32'')"

definition scan_time :: "sqlval \<Rightarrow> (gotime \<Rightarrow> 'a result) \<Rightarrow> 'a result" where
  "scan_time v k = (case v of STime t \<Rightarrow> k t | _ \<Rightarrow> Inl ''sql: Scan error: time'')"

text \<open>\<open>z.SetString(s, 10)\<close> with its result dropped.\<close>

definition set_big :: "dal_env \<Rightarrow> string \<Rightarrow> int" where
  "set_big env s = (case big_SetString s of Some i \<Rightarrow> i | None \<Rightarrow> BadInt env s)"

definition scanTransfer :: "dal_env \<Rightarrow> sqlval list \<Rightarrow> Transfer result" where
  "scanTransfer env vs =
     (case vs of
        [v1, v2, v3, v4, v5, v6, v7, v8, v9, v10, v11, v12, v13, v14, v15, v16, v17, v18, v19,
         v20, v21, v22, v23] \<Rightarrow>
          scan_text v1 (\<lambda>transferId. scan_text v2 (\<lambda>txHash. scan_u64 v3 (\<lambda>chainId.
          scan_text v4 (\<lambda>token. scan_enum TransferType_of_number v5 (\<lambda>ttype.
          scan_time v6 (\<lambda>timeLock. scan_text v7 (\<lambda>hashLock.
          scan_enum TransferStatus_of_number v8 (\<lambda>status. scan_text v9 (\<lambda>relatedTid.
          scan_u64 v10 (\<lambda>relatedChainId. scan_text v11 (\<lambda>relatedToken.
          scan_text v12 (\<lambda>amount. scan_text v13 (\<lambda>fee. scan_text v14 (\<lambda>transferFee.
          scan_text v15 (\<lambda>confirmFee. scan_text v16 (\<lambda>refundFee. scan_text v17 (\<lambda>preimage.
          scan_text v18 (\<lambda>sender. scan_text v19 (\<lambda>receiver. scan_text v20 (\<lambda>txConfirmHash.
          scan_text v21 (\<lambda>txRefundHash. scan_time v22 (\<lambda>updateTs. scan_time v23 (\<lambda>createTs.
            Inr \<lparr>TransferId = Hex2Hash (DLib env) transferId, TxHash = Hex2Hash (DLib env) txHash,
              ChainId = chainId, Token = Hex2Addr (DLib env) token, TransferType = ttype,
              TimeLock = timeLock, HashLock = Hex2Hash (DLib env) hashLock, Status = status,
              RelatedTid = Hex2Hash (DLib env) relatedTid, RelatedChainId = relatedChainId,
              RelatedToken = Hex2Addr (DLib env) relatedToken, Amount = set_big env amount,
              Fee = set_big env fee, TransferGasCost = set_big env transferFee,
              ConfirmGasCost = set_big env confirmFee, RefundGasCost = set_big env refundFee,
              Preimage = Hex2Hash (DLib env) preimage, Sender = Hex2Addr (DLib env) sender,
              Receiver = Hex2Addr (DLib env) receiver,
              TxConfirmHash = Hex2Hash (DLib env) txConfirmHash,
              TxRefundHash = Hex2Hash (DLib env) txRefundHash,
              UpdateTs = updateTs, CreateTs = createTs\<rparr>)))))))))))))))))))))))
      | _ \<Rightarrow> Inl ''sql: expected 23 destination arguments in Scan'')"

text \<open>The loop \<open>for rows.Next()\<close> that all the list queries share: the first row that does not
  scan makes the whole query an error.\<close>

definition scan_rows :: "dal_env \<Rightarrow> sql_row list \<Rightarrow> Transfer list result" where
  "scan_rows env rs = map_result (\<lambda>r. scanTransfer env (map r transferAllColumns)) rs"

definition select_where :: "dal_env \<Rightarrow> sql_cond list \<Rightarrow> sql_table \<Rightarrow> Transfer list result" where
  "select_where env conds R = scan_rows env (RowOrder env (filter (where_holds conds) R))"

section \<open>Reading methods\<close>

text \<open>\<open>QueryRow\<close> takes the first row; the flag is \<open>found\<close> of \<open>sqldb.ChkQueryRow\<close>, false with no
  error when there is no row.\<close>

definition query_row :: "dal_env \<Rightarrow> sql_cond list \<Rightarrow> sql_table \<Rightarrow> Transfer option result" where
  "query_row env conds R =
     (case RowOrder env (filter (where_holds conds) R) of
        [] \<Rightarrow> Inr None
      | r # _ \<Rightarrow> (case scanTransfer env (map r transferAllColumns) of
           Inl e \<Rightarrow> Inl e | Inr tx \<Rightarrow> Inr (Some tx)))"

definition GetTransferByTid :: "dal_env \<Rightarrow> hash \<Rightarrow> sql_table \<Rightarrow> Transfer option result" where
  "GetTransferByTid env tid R =
     query_row env [Cmp ''tid'' CEq (SText (HashString (DLib env) tid))] R"

definition GetTransferByRelatedTid :: "dal_env \<Rightarrow> hash \<Rightarrow> sql_table \<Rightarrow> Transfer option result" where
  "GetTransferByRelatedTid env relatedTid R =
     query_row env [Cmp ''relatedtid'' CEq (SText (HashString (DLib env) relatedTid))] R"

definition GetAllTransfers :: "dal_env \<Rightarrow> sql_table \<Rightarrow> Transfer list result" where
  "GetAllTransfers env R = select_where env [] R"

text \<open>\<open>order by createts desc limit n\<close>, with the limit printed into the text: a limit is a signed
  64-bit integer of the database, which refuses 2^63 or more.\<close>

definition createts_of :: "sql_row \<Rightarrow> int" where
  "createts_of r = (case r ''createts'' of STime t \<Rightarrow> t | _ \<Rightarrow> 0)"

definition GetAllTransfersWithLimit :: "dal_env \<Rightarrow> u64 \<Rightarrow> sql_table \<Rightarrow> Transfer list result" where
  "GetAllTransfersWithLimit env n R =
     (if unat n < 2 ^ 63 then
        scan_rows env (take (unat n) (sort_key (\<lambda>r. - createts_of r) (RowOrder env R)))
      else Inl ''pq: bigint out of range'')"

text \<open>The methods below compare a time column with a time parameter, which is a \<open>TIMESTAMPTZ\<close> value
  too.\<close>

definition GetAllStartTransferIn :: "dal_env \<Rightarrow> gotime \<Rightarrow> sql_table \<Rightarrow> Transfer list result" where
  "GetAllStartTransferIn env now R =
     select_where env
       [Cmp ''status'' CEq (SInt (TransferStatus_number TRANSFER_STATUS_TRANSFER_IN_START)),
        Cmp ''timelock'' CGt (STime (DTime env (now + 1 * hour))),
        Cmp ''transfertype'' CEq (SInt (TransferType_number TRANSFER_TYPE_IN))] R"

definition GetAllConfirmableLockedTransfer :: "dal_env \<Rightarrow> sql_table \<Rightarrow> Transfer list result" where
  "GetAllConfirmableLockedTransfer env R =
     select_where env
       [Cmp ''status'' CEq (SInt (TransferStatus_number TRANSFER_STATUS_LOCKED)),
        IsNotNull ''preimage'', Cmp ''preimage'' CNe (SText [])] R"

text \<open>What closing the rows of a query logs.\<close>

definition closeRows :: "string option \<Rightarrow> string list" where
  "closeRows res = (case res of Some err \<Rightarrow> [''closeRows: error:'' @ err] | None \<Rightarrow> [])"

definition timeLockSafeMargin :: int where
  "timeLockSafeMargin = 6 * minute"

text \<open>Declared beside the other two, and used by no query.\<close>

definition refundSafeMargin :: int where
  "refundSafeMargin = 3 * minute"

definition maxPendingTimeOutRetryDuration :: int where
  "maxPendingTimeOutRetryDuration = 15 * minute"

definition GetRecoverTimeoutPendingTransferIn ::
  "dal_env \<Rightarrow> gotime \<Rightarrow> sql_table \<Rightarrow> Transfer list result" where
  "GetRecoverTimeoutPendingTransferIn env tsNow R =
     select_where env
       [Cmp ''status'' CEq (SInt (TransferStatus_number TRANSFER_STATUS_TRANSFER_IN_PENDING)),
        Cmp ''updatets'' CLt (STime (DTime env (tsNow + - 1 * maxPendingTimeOutRetryDuration))),
        Cmp ''transfertype'' CEq (SInt (TransferType_number TRANSFER_TYPE_IN)),
        Cmp ''timelock'' CGt (STime (DTime env (tsNow + timeLockSafeMargin)))] R"

definition GetRecoverTimeoutPendingConfirm ::
  "dal_env \<Rightarrow> gotime \<Rightarrow> sql_table \<Rightarrow> Transfer list result" where
  "GetRecoverTimeoutPendingConfirm env tsNow R =
     select_where env
       [Cmp ''status'' CEq (SInt (TransferStatus_number TRANSFER_STATUS_CONFIRM_PENDING)),
        Cmp ''updatets'' CLt (STime (DTime env (tsNow + - 1 * maxPendingTimeOutRetryDuration))),
        Cmp ''timelock'' CGt (STime (DTime env (tsNow + timeLockSafeMargin)))] R"

definition GetRecoverTimeoutPendingRefund ::
  "dal_env \<Rightarrow> gotime \<Rightarrow> sql_table \<Rightarrow> Transfer list result" where
  "GetRecoverTimeoutPendingRefund env tsNow R =
     select_where env
       [Cmp ''status'' CEq (SInt (TransferStatus_number TRANSFER_STATUS_REFUND_PENDING)),
        Cmp ''updatets'' CLt (STime (DTime env (tsNow + - 1 * maxPendingTimeOutRetryDuration)))] R"

definition GetAllRefundAbleTransferIn :: "dal_env \<Rightarrow> gotime \<Rightarrow> sql_table \<Rightarrow> Transfer list result" where
  "GetAllRefundAbleTransferIn env now R =
     select_where env
       [Cmp ''status'' CEq (SInt (TransferStatus_number TRANSFER_STATUS_LOCKED)),
        Cmp ''timelock'' CLt (STime (DTime env now)),
        Cmp ''transfertype'' CEq (SInt (TransferType_number TRANSFER_TYPE_IN))] R"

section \<open>The representation of a row\<close>

text \<open>The 23 column values of a stored row, and when an SQL row represents it. Only chain ids
  that fit a signed 64-bit column can have been stored.\<close>

definition row_vals :: "ethlib \<Rightarrow> StoredTransfer \<Rightarrow> sqlval list" where
  "row_vals lib x =
     [SText (HashString lib (TransferId x)), SText (HashString lib (TxHash x)),
      SInt (uint (ChainId x)), SText (AddrString lib (Token x)),
      SInt (TransferType_number (TransferType x)), STime (TimeLock x),
      SText (HashString lib (HashLock x)), SInt (TransferStatus_number (Status x)),
      SText (HashString lib (RelatedTid x)), SInt (uint (RelatedChainId x)),
      SText (AddrString lib (RelatedToken x)), SText (big_String (Amount x)),
      SText (big_String (Fee x)), SText (big_String (TransferGasCost x)),
      SText (big_String (ConfirmGasCost x)), SText (big_String (RefundGasCost x)),
      SText (if PreimageSet x then HashString lib (Preimage x) else []),
      SText (AddrString lib (Sender x)), SText (AddrString lib (Receiver x)),
      SText (HashString lib (TxConfirmHash x)), SText (HashString lib (TxRefundHash x)),
      STime (UpdateTs x), STime (CreateTs x)]"

definition chain_ids_fit :: "('a) Transfer_scheme \<Rightarrow> bool" where
  "chain_ids_fit x \<longleftrightarrow> unat (ChainId x) < 2 ^ 63 \<and> unat (RelatedChainId x) < 2 ^ 63"

definition rel_row :: "dal_env \<Rightarrow> sql_row \<Rightarrow> StoredTransfer \<Rightarrow> bool" where
  "rel_row env r x \<longleftrightarrow>
     map r transferAllColumns = row_vals (DLib env) x \<and> chain_ids_fit x \<and>
     (\<not> PreimageSet x \<longrightarrow> Preimage x = 0)"

definition rel_table :: "dal_env \<Rightarrow> sql_table \<Rightarrow> table \<Rightarrow> bool" where
  "rel_table env R T \<longleftrightarrow> list_all2 (rel_row env) R T"

lemma rel_row_cols:
  assumes "rel_row env r x"
  shows "r ''tid'' = SText (HashString (DLib env) (TransferId x))"
    "r ''relatedtid'' = SText (HashString (DLib env) (RelatedTid x))"
    "r ''status'' = SInt (TransferStatus_number (Status x))"
    "r ''transfertype'' = SInt (TransferType_number (TransferType x))"
    "r ''timelock'' = STime (TimeLock x)"
    "r ''updatets'' = STime (UpdateTs x)"
    "r ''createts'' = STime (CreateTs x)"
    "r ''preimage'' = SText (if PreimageSet x then HashString (DLib env) (Preimage x) else [])"
  using assms by (simp_all add: rel_row_def row_vals_def transferAllColumns_def)

lemma scan_row:
  assumes "dal_doc env" "rel_row env r x"
  shows "scanTransfer env (map r transferAllColumns) = Inr (scan x)"
proof -
  have lib: "eth_common_doc (DLib env)" using assms(1) by (simp add: dal_doc_def)
  have "BytesToHash (DLib env) [] = 0" using lib by (simp add: eth_common_doc_def)
  then have empty: "Hex2Hash (DLib env) [] = 0"
    by (simp add: Hex2Hash_def Hex2Bytes_def strip_0x_def)
  have pre: "Hex2Hash (DLib env) (if PreimageSet x then HashString (DLib env) (Preimage x) else [])
      = Preimage x"
    using assms(2) by (simp add: rel_row_def empty Hex2Hash_String [OF lib])
  have range: "uint (w :: u64) < 18446744073709551616" for w
    using unsigned_less [of w, where ?'a = int] by simp
  have big: "set_big env (big_String i) = i" for i by (simp add: set_big_def)
  have "map r transferAllColumns = row_vals (DLib env) x"
    using assms(2) by (simp add: rel_row_def)
  then show ?thesis
    by (simp add: scanTransfer_def row_vals_def scan_text_def scan_u64_def scan_enum_def
        scan_time_def range big pre Hex2Hash_String [OF lib] Hex2Addr_String [OF lib]
        scan_def Transfer.defs)
qed

section \<open>Writes implement their statements\<close>

fun exec_sql :: "dal_env \<Rightarrow> stmt \<Rightarrow> sql_table \<Rightarrow> sql_table result" where
  "exec_sql env (InsertTransferS tx now) R = InsertTransfer env tx now R"
| "exec_sql env (SetRelatedTxPreimageS p rtid) R = SetRelatedTxPreimage env p rtid R"
| "exec_sql env (ConfirmTransferS tid p h) R = ConfirmTransfer env tid p h R"
| "exec_sql env (RefundTransferS tid h) R = RefundTransfer env tid h R"
| "exec_sql env (RecordTransferInS tid h) R = RecordTransferIn env tid h R"
| "exec_sql env (UpdateTransferStatusS tid to) R = UpdateTransferStatus env tid to R"
| "exec_sql env (SetTransferInAmountAndFeeS tid a f) R = SetTransferInAmountAndFee env tid a f R"
| "exec_sql env (SetPendingTransferInS tid to from now) R = SetPendingTransferIn env tid to from now R"
| "exec_sql env (SetTransferStatusByFromS tid to from now) R =
     SetTransferStatusByFrom env tid to from now R"

text \<open>What the columns and the time parameters keep of a statement and of a query: the statement or
  query whose times are those of the database.\<close>

definition stored_tx :: "dal_env \<Rightarrow> Transfer \<Rightarrow> Transfer" where
  "stored_tx env tx = tx\<lparr>TimeLock := DTime env (TimeLock tx)\<rparr>"

fun stored_stmt :: "dal_env \<Rightarrow> stmt \<Rightarrow> stmt" where
  "stored_stmt env (InsertTransferS tx now) = InsertTransferS (stored_tx env tx) (DTime env now)"
| "stored_stmt env (SetPendingTransferInS tid to from now) =
     SetPendingTransferInS tid to from (DTime env now)"
| "stored_stmt env (SetTransferStatusByFromS tid to from now) =
     SetTransferStatusByFromS tid to from (DTime env now)"
| "stored_stmt env s = s"

fun stored_query :: "dal_env \<Rightarrow> query \<Rightarrow> query" where
  "stored_query env (StartTransferInQ bnd) = StartTransferInQ (DTime env bnd)"
| "stored_query env (RecoverPendingTransferInQ upd bnd) =
     RecoverPendingTransferInQ (DTime env upd) (DTime env bnd)"
| "stored_query env (RecoverPendingConfirmQ upd bnd) =
     RecoverPendingConfirmQ (DTime env upd) (DTime env bnd)"
| "stored_query env (RecoverPendingRefundQ upd) = RecoverPendingRefundQ (DTime env upd)"
| "stored_query env (RefundAbleTransferInQ now) = RefundAbleTransferInQ (DTime env now)"
| "stored_query env q = q"

lemma stored_tx_fields [simp]:
  "TransferId (stored_tx env tx) = TransferId tx"
  "TimeLock (stored_tx env tx) = DTime env (TimeLock tx)"
  "chain_ids_fit (stored_tx env tx) = chain_ids_fit tx"
  by (simp_all add: stored_tx_def chain_ids_fit_def)

lemma sql_update_sim:
  assumes "rel_table env R T" "map_result (bind_col env) sets = Inr cvs"
    and "\<And>r x. rel_row env r x \<Longrightarrow> where_holds conds r = sel x"
    and "\<And>r x. rel_row env r x \<Longrightarrow> rel_row env (set_cols cvs r) (upd x)"
  shows "\<exists>R'. sql_update env sets conds R = Inr R' \<and> rel_table env R' (update_where sel upd T)"
  using assms unfolding rel_table_def update_where_def sql_update_def
  by (auto simp: list_all2_map1 list_all2_map2 elim!: list_all2_mono)

lemmas bind_simps = bind_col_def transfer_schema_def

lemmas rel_row_unfold = rel_row_def row_vals_def transferAllColumns_def chain_ids_fit_def

text \<open>The three obligations of \<open>sql_update_sim\<close>: binding succeeds, the condition selects the
  statement's rows, and the assigned columns are those of the statement's rewriting.\<close>

lemma where_sim:
  assumes "eth_common_doc (DLib env)" "rel_row env r x"
  shows "cond_holds r (Cmp ''tid'' CEq (SText (HashString (DLib env) h))) = (TransferId x = h)"
    "cond_holds r (Cmp ''relatedtid'' CEq (SText (HashString (DLib env) h))) = (RelatedTid x = h)"
    "cond_holds r (Cmp ''status'' CEq (SInt (TransferStatus_number s))) = (Status x = s)"
    "cond_holds r (InList ''status'' [SInt (TransferStatus_number s), SInt (TransferStatus_number s')])
      = (Status x = s \<or> Status x = s')"
  using assms(2) by (simp_all add: rel_row_cols HashString_inj [OF assms(1)])

lemma update_sims:
  assumes "eth_common_doc (DLib env)" "rel_table env R T"
  shows "\<exists>R'. SetRelatedTxPreimage env p rtid R = Inr R' \<and>
      rel_table env R' (apply_stmt (SetRelatedTxPreimageS p rtid) T)"
    "\<exists>R'. ConfirmTransfer env tid p h R = Inr R' \<and>
      rel_table env R' (apply_stmt (ConfirmTransferS tid p h) T)"
    "\<exists>R'. RefundTransfer env tid h R = Inr R' \<and>
      rel_table env R' (apply_stmt (RefundTransferS tid h) T)"
    "\<exists>R'. RecordTransferIn env tid h R = Inr R' \<and>
      rel_table env R' (apply_stmt (RecordTransferInS tid h) T)"
    "\<exists>R'. UpdateTransferStatus env tid to R = Inr R' \<and>
      rel_table env R' (apply_stmt (UpdateTransferStatusS tid to) T)"
    "\<exists>R'. SetTransferInAmountAndFee env tid a f R = Inr R' \<and>
      rel_table env R' (apply_stmt (SetTransferInAmountAndFeeS tid a f) T)"
    "\<exists>R'. SetPendingTransferIn env tid to from now R = Inr R' \<and>
      rel_table env R' (apply_stmt (SetPendingTransferInS tid to from (DTime env now)) T)"
    "\<exists>R'. SetTransferStatusByFrom env tid to from now R = Inr R' \<and>
      rel_table env R' (apply_stmt (SetTransferStatusByFromS tid to from (DTime env now)) T)"
  unfolding SetRelatedTxPreimage_def ConfirmTransfer_def RefundTransfer_def RecordTransferIn_def
    UpdateTransferStatus_def SetTransferInAmountAndFee_def SetPendingTransferIn_def
    SetTransferStatusByFrom_def apply_stmt.simps
  by (rule sql_update_sim [OF assms(2)], simp add: bind_simps,
      simp add: where_holds_def where_sim [OF assms(1)] del: TransferStatus_number.simps cond_holds.simps,
      simp add: rel_row_unfold)+

text \<open>The insert binds 23 arguments to 23 columns; it fails only on a chain id that does not fit.\<close>

lemma has_tid_sim:
  assumes "eth_common_doc (DLib env)" "rel_table env R T"
  shows "SText (HashString (DLib env) tid) \<in> (\<lambda>r. r ''tid'') ` set R \<longleftrightarrow> has_tid tid T"
  using assms(2) unfolding rel_table_def
  by (induction rule: list_all2_induct)
    (auto simp: has_tid_def rel_row_cols HashString_inj [OF assms(1)])

definition inserted_sql_row :: "dal_env \<Rightarrow> Transfer \<Rightarrow> gotime \<Rightarrow> sql_row" where
  "inserted_sql_row env tx now =
     set_cols (zip transferAllColumns (row_vals (DLib env) (inserted_row tx now))) (\<lambda>c. SNull)"

lemma InsertTransfer_fits:
  assumes "chain_ids_fit tx"
  shows "InsertTransfer env tx now R =
    (let r = inserted_sql_row env (stored_tx env tx) (DTime env now)
     in if r ''tid'' \<in> (\<lambda>x. x ''tid'') ` set R then Inr R else Inr (R @ [r]))"
  using assms
  by (simp add: InsertTransfer_def sql_insert_def transferAllColumns_def bind_simps
      chain_ids_fit_def inserted_sql_row_def row_vals_def stored_tx_def Let_def)

lemma InsertTransfer_unfit:
  assumes "\<not> chain_ids_fit tx"
  shows "\<exists>e. InsertTransfer env tx now R = Inl e"
  using assms
  by (auto simp: InsertTransfer_def sql_insert_def transferAllColumns_def bind_simps
      chain_ids_fit_def Let_def)

lemma inserted_sql_row_rel:
  assumes "chain_ids_fit tx"
  shows "rel_row env (inserted_sql_row env tx now) (inserted_row tx now)"
  using assms by (simp add: inserted_sql_row_def rel_row_unfold)

lemma InsertTransfer_sim:
  assumes "eth_common_doc (DLib env)" "rel_table env R T" "chain_ids_fit tx"
  shows "\<exists>R'. InsertTransfer env tx now R = Inr R' \<and>
    rel_table env R' (apply_stmt (InsertTransferS (stored_tx env tx) (DTime env now)) T)"
proof -
  let ?tx = "stored_tx env tx" and ?now = "DTime env now"
  have rel: "rel_row env (inserted_sql_row env ?tx ?now) (inserted_row ?tx ?now)"
    using assms(3) by (intro inserted_sql_row_rel) simp
  have "rel_table env (R @ [inserted_sql_row env ?tx ?now]) (T @ [inserted_row ?tx ?now])"
    using assms(2) rel by (simp add: rel_table_def list_all2_appendI)
  then show ?thesis
    using assms(2) has_tid_sim [OF assms(1,2), of "TransferId tx"]
    by (simp add: InsertTransfer_fits [OF assms(3)] insert_row_def rel_row_cols(1) [OF rel])
qed

section \<open>Reads implement their queries\<close>

lemma scan_rows_sim:
  assumes "dal_doc env" "list_all2 (rel_row env) rs xs"
  shows "scan_rows env rs = Inr (map scan xs)"
  using assms(2) unfolding scan_rows_def
  by (induction rule: list_all2_induct) (simp_all add: scan_row [OF assms(1)])

lemma filter_sim:
  assumes "list_all2 (rel_row env) R T"
    and "\<And>r x. rel_row env r x \<Longrightarrow> P r = Q x"
  shows "list_all2 (rel_row env) (filter P R) (filter Q T)"
  using assms(1) by (induction rule: list_all2_induct) (simp_all add: assms(2))

lemma select_where_sim:
  assumes "dal_doc env" "rel_table env R T"
    and "\<And>r x. rel_row env r x \<Longrightarrow> where_holds conds r = query_sel q x"
    and "\<nexists>n. q = AllWithLimitQ n"
  shows "\<exists>txs. select_where env conds R = Inr txs \<and> query_ok q T txs"
proof -
  have "list_all2 (rel_row env) (filter (where_holds conds) R) (filter (query_sel q) T)"
    using assms(2,3) unfolding rel_table_def by (rule filter_sim)
  moreover have "mset (RowOrder env (filter (where_holds conds) R)) = mset (filter (where_holds conds) R)"
    using assms(1) by (simp add: dal_doc_def)
  ultimately obtain ys where
    ys: "list_all2 (rel_row env) (RowOrder env (filter (where_holds conds) R)) ys"
      "mset ys = mset (filter (query_sel q) T)"
    using list_all2_reorder_left_invariance by blast
  have "mset (map scan ys) = mset (map scan (filter (query_sel q) T))"
    using ys(2) by (simp only: mset_map)
  then have "query_ok q T (map scan ys)" using assms(4) by (cases q) simp_all
  then show ?thesis
    using scan_rows_sim [OF assms(1) ys(1)] by (simp add: select_where_def)
qed

lemma query_row_sim:
  assumes "dal_doc env" "rel_table env R T"
    and "\<And>r x. rel_row env r x \<Longrightarrow> where_holds conds r = query_sel q x"
    and "\<nexists>n. q = AllWithLimitQ n"
  shows "\<exists>txs. query_row env conds R = Inr (case txs of [] \<Rightarrow> None | tx # _ \<Rightarrow> Some tx) \<and> query_ok q T txs"
proof -
  obtain txs where "select_where env conds R = Inr txs" "query_ok q T txs"
    using select_where_sim [OF assms] by blast
  then show ?thesis
    by (intro exI [of _ txs])
      (auto simp: query_row_def select_where_def scan_rows_def split: list.splits sum.splits)
qed

lemma limit_query_sim:
  assumes "dal_doc env" "rel_table env R T" "unat n < 2 ^ 63"
  shows "\<exists>txs. GetAllTransfersWithLimit env n R = Inr txs \<and> query_ok (AllWithLimitQ n) T txs"
proof -
  let ?S = "sort_key (\<lambda>r. - createts_of r) (RowOrder env R)"
  have "mset ?S = mset R" using assms(1) by (simp add: dal_doc_def)
  then obtain ys where ys: "list_all2 (rel_row env) ?S ys" "mset ys = mset T"
    using assms(2) list_all2_reorder_left_invariance unfolding rel_table_def by blast
  have key: "createts_of r = CreateTs x" if "rel_row env r x" for r x
    using rel_row_cols(7) [OF that] by (simp add: createts_of_def)
  have "sorted (map (\<lambda>r. - createts_of r) ?S)" by (rule sorted_sort_key)
  moreover have "map (\<lambda>r. - createts_of r) ?S = map (\<lambda>x. - CreateTs x) ys"
    using ys(1) by (induction rule: list_all2_induct) (simp_all add: key)
  ultimately have "sorted (map (\<lambda>x. - CreateTs x) ys)" by simp
  then have sorted: "sorted_wrt (\<lambda>a b. CreateTs b \<le> CreateTs a) (map scan ys)"
    by (simp add: sorted_map sorted_wrt_map)
  have "mset (map scan ys) = mset (map scan T)" using ys(2) by (simp only: mset_map)
  then have "query_ok (AllWithLimitQ n) T (take (unat n) (map scan ys))"
    using sorted by (auto intro!: exI [of _ "map scan ys"])
  moreover have "scan_rows env (take (unat n) ?S) = Inr (map scan (take (unat n) ys))"
    using ys(1) by (intro scan_rows_sim [OF assms(1)] list_all2_takeI)
  ultimately show ?thesis using assms(3) by (simp add: GetAllTransfersWithLimit_def take_map)
qed

lemma limit_query_refused:
  "\<not> unat n < 2 ^ 63 \<Longrightarrow> \<exists>e. GetAllTransfersWithLimit env n R = Inl e"
  by (simp add: GetAllTransfersWithLimit_def)

lemma where_query_sim:
  assumes "eth_common_doc (DLib env)" "rel_row env r x"
  shows "where_holds [Cmp ''tid'' CEq (SText (HashString (DLib env) h))] r = query_sel (ByTidQ h) x"
    "where_holds [Cmp ''relatedtid'' CEq (SText (HashString (DLib env) h))] r
      = query_sel (ByRelatedTidQ h) x"
  using where_sim [OF assms] by (simp_all add: where_holds_def del: cond_holds.simps)

lemma HashString_not_empty: "eth_common_doc lib \<Longrightarrow> HashString lib h \<noteq> []"
  using Hex2Hash_String [of lib h] by (auto simp: eth_common_doc_def)

lemma status_number_eq [simp]:
  "TransferStatus_number s = TransferStatus_number s' \<longleftrightarrow> s = s'"
  "TransferType_number t = TransferType_number t' \<longleftrightarrow> t = t'"
  by (cases s; cases s'; simp) (cases t; cases t'; simp)

lemma list_methods_sim:
  assumes "dal_doc env" "rel_table env R T"
  shows "\<exists>txs. GetAllTransfers env R = Inr txs \<and> query_ok AllQ T txs"
    "\<exists>txs. GetAllStartTransferIn env now R = Inr txs \<and>
      query_ok (StartTransferInQ (DTime env (now + hour))) T txs"
    "\<exists>txs. GetAllConfirmableLockedTransfer env R = Inr txs \<and> query_ok ConfirmableLockedQ T txs"
    "\<exists>txs. GetRecoverTimeoutPendingTransferIn env now R = Inr txs \<and>
      query_ok (RecoverPendingTransferInQ (DTime env (now - 15 * minute)) (DTime env (now + 6 * minute))) T txs"
    "\<exists>txs. GetRecoverTimeoutPendingConfirm env now R = Inr txs \<and>
      query_ok (RecoverPendingConfirmQ (DTime env (now - 15 * minute)) (DTime env (now + 6 * minute))) T txs"
    "\<exists>txs. GetRecoverTimeoutPendingRefund env now R = Inr txs \<and>
      query_ok (RecoverPendingRefundQ (DTime env (now - 15 * minute))) T txs"
    "\<exists>txs. GetAllRefundAbleTransferIn env now R = Inr txs \<and>
      query_ok (RefundAbleTransferInQ (DTime env now)) T txs"
  unfolding GetAllTransfers_def GetAllStartTransferIn_def GetAllConfirmableLockedTransfer_def
    GetRecoverTimeoutPendingTransferIn_def GetRecoverTimeoutPendingConfirm_def
    GetRecoverTimeoutPendingRefund_def GetAllRefundAbleTransferIn_def
    maxPendingTimeOutRetryDuration_def timeLockSafeMargin_def
  by (rule select_where_sim [OF assms]; use assms(1) in
      \<open>auto simp: where_holds_def rel_row_cols HashString_not_empty dal_doc_def
        simp del: TransferStatus_number.simps TransferType_number.simps\<close>)+

section \<open>Properties\<close>

definition example_tx :: Transfer where
  "example_tx = \<lparr>TransferId = 17, TxHash = 3, ChainId = 56, Token = 9,
     TransferType = TRANSFER_TYPE_IN, TimeLock = 40 * hour, HashLock = 5,
     Status = TRANSFER_STATUS_TRANSFER_IN_START, RelatedTid = 18, RelatedChainId = 1,
     RelatedToken = 8, Amount = 1000, Fee = 0, TransferGasCost = 0, ConfirmGasCost = 0,
     RefundGasCost = 0, Preimage = 77, Sender = 4, Receiver = 6, TxConfirmHash = 0,
     TxRefundHash = 0, UpdateTs = 1, CreateTs = 1\<rparr>"

lemma example_tx_fits: "chain_ids_fit example_tx"
  by (simp add: chain_ids_fit_def example_tx_def)

lemma example_tables:
  "rel_table ref_env [] []"
  "rel_table ref_env [inserted_sql_row ref_env example_tx 7000] [inserted_row example_tx 7000]"
  by (simp_all add: rel_table_def inserted_sql_row_rel [OF example_tx_fits])

lemma exec_sql_sim:
  assumes "dal_doc env" "rel_table env R T" "\<And>tx now. s = InsertTransferS tx now \<Longrightarrow> chain_ids_fit tx"
  shows "\<exists>R'. exec_sql env s R = Inr R' \<and> rel_table env R' (apply_stmt (stored_stmt env s) T)"
proof -
  have lib: "eth_common_doc (DLib env)" using assms(1) by (simp add: dal_doc_def)
  show ?thesis
  proof (cases s)
    case (InsertTransferS tx now)
    with assms(3) InsertTransfer_sim [OF lib assms(2), of tx now] show ?thesis by simp
  qed (simp_all only: exec_sql.simps stored_stmt.simps update_sims [OF lib assms(2)])
qed

lemma exec_sql_Inr:
  assumes "dal_doc env" "rel_table env R T" "exec_sql env s R = Inr R'"
  shows "rel_table env R' (apply_stmt (stored_stmt env s) T)"
proof -
  have "chain_ids_fit tx" if "s = InsertTransferS tx now" for tx now
    using InsertTransfer_unfit [of tx env now R] assms(3) that by auto
  with exec_sql_sim [OF assms(1,2), of s] obtain R1
    where "exec_sql env s R = Inr R1" "rel_table env R1 (apply_stmt (stored_stmt env s) T)" by blast
  with assms(3) show ?thesis by (simp del: exec_sql.simps)
qed

lemma exec_sql_Inl:
  assumes "dal_doc env" "rel_table env R T" "exec_sql env s R = Inl e"
  shows "\<exists>tx now. s = InsertTransferS tx now \<and> \<not> chain_ids_fit tx"
proof (rule ccontr)
  assume "\<not> ?thesis"
  with exec_sql_sim [OF assms(1,2), of s] have "\<exists>R'. exec_sql env s R = Inr R'" by blast
  with assms(3) show False by (simp del: exec_sql.simps)
qed

text \<open>C25: The writing methods of the data-access layer implement their statements: on a database
  that represents a table, each of the nine SQL writes succeeds and leaves a database that
  represents the updated table, updated with the times that the time columns keep of those the
  method sends; the one exception is the insert of a transfer with a chain id of 2^63 or more, which
  the driver refuses.\<close>

theorem writes_implement_statements:
  assumes "dal_doc env" "rel_table env R T"
  shows "case exec_sql env s R of
      Inr R' \<Rightarrow> rel_table env R' (apply_stmt (stored_stmt env s) T)
    | Inl e \<Rightarrow> (\<exists>tx now. s = InsertTransferS tx now \<and> \<not> chain_ids_fit tx)"
  using exec_sql_Inr [OF assms] exec_sql_Inl [OF assms] by (auto split: sum.split)

theorem writes_implement_statements_witness:
  "case exec_sql ref_env (SetPendingTransferInS 17 TRANSFER_STATUS_TRANSFER_IN_PENDING
      TRANSFER_STATUS_TRANSFER_IN_START 9001) [inserted_sql_row ref_env example_tx 7000] of
    Inr R' \<Rightarrow> rel_table ref_env R'
      [(inserted_row example_tx 7000)\<lparr>Status := TRANSFER_STATUS_TRANSFER_IN_PENDING, UpdateTs := 9000\<rparr>]
  | Inl e \<Rightarrow> False"
  using writes_implement_statements [OF ref_env_doc example_tables(2), of
      "SetPendingTransferInS 17 TRANSFER_STATUS_TRANSFER_IN_PENDING
        TRANSFER_STATUS_TRANSFER_IN_START 9001"]
  by (simp add: update_where_def example_tx_def ref_env_time split: sum.splits del: exec_sql.simps)

text \<open>C26: The reading methods implement their queries: on a database that represents a table each
  list method returns, without error, the rows its query selects in some order, and the two
  single-row methods return a selected row exactly when there is one. The limit query returns a
  prefix of the newest first, and is refused for a limit of 2^63 or more. The bounds on the time
  columns are those of the code, as the database keeps a time: a transfer-in is started
  only with more than an hour left on its lock, a pending one is recovered after 15 minutes and
  with more than 6 minutes left, and refundable means expired.\<close>

theorem reads_implement_queries:
  assumes "dal_doc env" "rel_table env R T"
  shows "(\<exists>txs. GetTransferByTid env tid R = Inr (case txs of [] \<Rightarrow> None | tx # _ \<Rightarrow> Some tx) \<and>
        query_ok (ByTidQ tid) T txs) \<and>
    (\<exists>txs. GetTransferByRelatedTid env tid R = Inr (case txs of [] \<Rightarrow> None | tx # _ \<Rightarrow> Some tx) \<and>
        query_ok (ByRelatedTidQ tid) T txs) \<and>
    (\<exists>txs. GetAllTransfers env R = Inr txs \<and> query_ok AllQ T txs) \<and>
    (if unat n < 2 ^ 63
     then \<exists>txs. GetAllTransfersWithLimit env n R = Inr txs \<and> query_ok (AllWithLimitQ n) T txs
     else \<exists>e. GetAllTransfersWithLimit env n R = Inl e) \<and>
    (\<exists>txs. GetAllStartTransferIn env now R = Inr txs \<and>
        query_ok (StartTransferInQ (DTime env (now + hour))) T txs) \<and>
    (\<exists>txs. GetAllConfirmableLockedTransfer env R = Inr txs \<and> query_ok ConfirmableLockedQ T txs) \<and>
    (\<exists>txs. GetRecoverTimeoutPendingTransferIn env now R = Inr txs \<and>
        query_ok (RecoverPendingTransferInQ (DTime env (now - 15 * minute)) (DTime env (now + 6 * minute))) T txs) \<and>
    (\<exists>txs. GetRecoverTimeoutPendingConfirm env now R = Inr txs \<and>
        query_ok (RecoverPendingConfirmQ (DTime env (now - 15 * minute)) (DTime env (now + 6 * minute))) T txs) \<and>
    (\<exists>txs. GetRecoverTimeoutPendingRefund env now R = Inr txs \<and>
        query_ok (RecoverPendingRefundQ (DTime env (now - 15 * minute))) T txs) \<and>
    (\<exists>txs. GetAllRefundAbleTransferIn env now R = Inr txs \<and>
        query_ok (RefundAbleTransferInQ (DTime env now)) T txs)"
proof -
  have lib: "eth_common_doc (DLib env)" using assms(1) by (simp add: dal_doc_def)
  have "\<exists>txs. GetTransferByTid env tid R = Inr (case txs of [] \<Rightarrow> None | tx # _ \<Rightarrow> Some tx) \<and>
      query_ok (ByTidQ tid) T txs"
    unfolding GetTransferByTid_def
    by (rule query_row_sim [OF assms where_query_sim(1) [OF lib]]) auto
  moreover have
    "\<exists>txs. GetTransferByRelatedTid env tid R = Inr (case txs of [] \<Rightarrow> None | tx # _ \<Rightarrow> Some tx) \<and>
      query_ok (ByRelatedTidQ tid) T txs"
    unfolding GetTransferByRelatedTid_def
    by (rule query_row_sim [OF assms where_query_sim(2) [OF lib]]) auto
  moreover have "if unat n < 2 ^ 63
      then \<exists>txs. GetAllTransfersWithLimit env n R = Inr txs \<and> query_ok (AllWithLimitQ n) T txs
      else \<exists>e. GetAllTransfersWithLimit env n R = Inl e"
  proof (cases "unat n < 2 ^ 63")
    case True
    then show ?thesis using limit_query_sim [OF assms True] by (simp only: if_True)
  next
    case False
    then show ?thesis using limit_query_refused [OF False] by (simp only: if_False)
  qed
  ultimately show ?thesis by (intro conjI list_methods_sim [OF assms])
qed

theorem reads_implement_queries_witness:
  "GetAllStartTransferIn ref_env (38 * hour) [inserted_sql_row ref_env example_tx 7000]
    = Inr [scan (inserted_row example_tx 7000)] \<and>
   GetAllStartTransferIn ref_env (39 * hour) [inserted_sql_row ref_env example_tx 7000] = Inr [] \<and>
   (\<exists>e. GetAllTransfersWithLimit ref_env (2 ^ 63) [inserted_sql_row ref_env example_tx 7000] = Inl e)"
  using reads_implement_queries [OF ref_env_doc example_tables(2), of 17 0 "38 * hour"]
    reads_implement_queries [OF ref_env_doc example_tables(2), of 17 "2 ^ 63" "39 * hour"]
  by (simp add: example_tx_def ref_env_time)

text \<open>C27: A transfer that is inserted under a fresh id is read back field by field, with these
  exceptions: its preimage is gone, which the insert does not write; both time stamps are the time
  of the insert; and of that time and of the lock the database keeps the microseconds, so that what
  is read back differs from a lock in nanoseconds by less than a microsecond, and not at all from
  a lock in whole microseconds. A second insert under the same id succeeds and changes nothing,
  whatever it carries.\<close>

theorem insert_get_roundtrip:
  assumes "dal_doc env" "rel_table env R T" "chain_ids_fit tx" "\<not> has_tid (TransferId tx) T"
    "chain_ids_fit tx'" "TransferId tx' = TransferId tx"
  shows "\<exists>R'. InsertTransfer env tx now R = Inr R' \<and>
    GetTransferByTid env (TransferId tx) R'
      = Inr (Some (tx\<lparr>TimeLock := DTime env (TimeLock tx), Preimage := 0,
          UpdateTs := DTime env now, CreateTs := DTime env now\<rparr>)) \<and>
    \<bar>DTime env (TimeLock tx) - TimeLock tx\<bar> < 1000 \<and> \<bar>DTime env now - now\<bar> < 1000 \<and>
    (1000 dvd TimeLock tx \<longrightarrow> DTime env (TimeLock tx) = TimeLock tx) \<and>
    InsertTransfer env tx' now' R' = Inr R'"
proof -
  have lib: "eth_common_doc (DLib env)" using assms(1) by (simp add: dal_doc_def)
  define r where "r = inserted_sql_row env (stored_tx env tx) (DTime env now)"
  define x where "x = inserted_row (stored_tx env tx) (DTime env now)"
  have r: "rel_row env r x"
    unfolding r_def x_def by (rule inserted_sql_row_rel) (simp add: assms(3))
  have tid: "r ''tid'' = SText (HashString (DLib env) (TransferId tx))"
    using rel_row_cols(1) [OF r] by (simp add: x_def)
  have fresh: "r ''tid'' \<notin> (\<lambda>x. x ''tid'') ` set R"
    using has_tid_sim [OF lib assms(2), of "TransferId tx"] assms(4) by (simp add: tid)
  have ins: "InsertTransfer env tx now R = Inr (R @ [r])"
    using fresh by (simp add: InsertTransfer_fits [OF assms(3)] r_def [symmetric])
  have "InsertTransfer env tx' now' (R @ [r]) = Inr (R @ [r])"
    using rel_row_cols(1) [OF inserted_sql_row_rel [of "stored_tx env tx'" env "DTime env now'"]]
      tid assms(5,6) by (simp add: InsertTransfer_fits [OF assms(5)])
  moreover have "rel_table env (R @ [r]) (T @ [x])"
    using assms(2) r by (simp add: rel_table_def list_all2_appendI)
  then obtain txs where get: "GetTransferByTid env (TransferId tx) (R @ [r])
        = Inr (case txs of [] \<Rightarrow> None | tx # _ \<Rightarrow> Some tx)"
      "query_ok (ByTidQ (TransferId tx)) (T @ [x]) txs"
    unfolding GetTransferByTid_def
    using query_row_sim [OF assms(1) _ where_query_sim(1) [OF lib]] by blast
  have "filter (query_sel (ByTidQ (TransferId tx))) T = []"
    using assms(4) unfolding has_tid_def filter_empty_conv query_sel.simps
    by (metis image_eqI set_map)
  with get(2) have "mset txs = mset [scan x]" by (simp add: x_def del: mset_filter)
  then have "txs = [scan x]" by simp
  moreover have "scan x = tx\<lparr>TimeLock := DTime env (TimeLock tx), Preimage := 0,
      UpdateTs := DTime env now, CreateTs := DTime env now\<rparr>"
    by (simp add: x_def scan_def inserted_row_def stored_tx_def Transfer.defs StoredTransfer.defs)
  ultimately show ?thesis
    using ins get(1) DTime_near [OF assms(1)] DTime_micros [OF assms(1)] by simp
qed

theorem insert_get_roundtrip_witness:
  "\<exists>R'. InsertTransfer ref_env (example_tx\<lparr>TimeLock := 40 * hour + 1234\<rparr>) 7003 [] = Inr R' \<and>
    GetTransferByTid ref_env 17 R' = Inr (Some (example_tx\<lparr>TimeLock := 40 * hour + 1000,
      Preimage := 0, UpdateTs := 7000, CreateTs := 7000\<rparr>)) \<and>
    InsertTransfer ref_env (example_tx\<lparr>Amount := 2000\<rparr>) 8 R' = Inr R'"
proof -
  have "chain_ids_fit (example_tx\<lparr>TimeLock := 40 * hour + 1234\<rparr>)"
    "chain_ids_fit (example_tx\<lparr>Amount := 2000\<rparr>)"
    by (simp_all add: chain_ids_fit_def example_tx_def)
  from insert_get_roundtrip [OF ref_env_doc example_tables(1) this(1) _ this(2), of 7003 8]
  show ?thesis by (simp add: has_tid_def example_tx_def ref_env_time)
qed

text \<open>C36: \<open>SetTransferPreimage\<close> never sets a preimage: the statement assigns its text to the
  status column. A database that refuses the text for an \<open>INT\<close> column makes the method fail on
  every table; one that converts it leaves every preimage column as it was.\<close>

theorem SetTransferPreimage_sets_no_preimage:
  "case SetTransferPreimage env tid p R of
     Inl e \<Rightarrow> TextToInt env (HashString (DLib env) p) = None
   | Inr R' \<Rightarrow> map (\<lambda>r. r ''preimage'') R' = map (\<lambda>r. r ''preimage'') R"
  by (auto simp: SetTransferPreimage_def sql_update_def bind_simps map_update_where_id
      split: option.splits)

end
