(* ===== verification/SQL_System.thy ===== *)
theory SQL_System
  imports DAL Relay_Loops
begin

text \<open>
  The node on its database. \<open>Proc\<close> runs the programs of the node over the abstract transfer table;
  here the same programs run over the SQL table, where each write and each query is the method of
  \<open>src/server/dal.go\<close> with the SQL it sends. The two systems are related by a forward simulation
  through \<open>rel_table\<close>. A time column keeps microseconds: the abstract run that simulates a run on
  the database is one of the programs in whose statements and queries each time is what the
  database keeps of it; where the programs only use times the database keeps, it is a run of the
  programs themselves.
\<close>

section \<open>Queries as SQL\<close>

text \<open>The conditions the reading methods send, with the time bounds of the query as the database
  takes them.\<close>

fun sql_conds :: "dal_env \<Rightarrow> query \<Rightarrow> sql_cond list" where
  "sql_conds env (ByTidQ tid) = [Cmp ''tid'' CEq (SText (HashString (DLib env) tid))]"
| "sql_conds env (ByRelatedTidQ tid) = [Cmp ''relatedtid'' CEq (SText (HashString (DLib env) tid))]"
| "sql_conds env AllQ = []"
| "sql_conds env (AllWithLimitQ n) = []"
| "sql_conds env (StartTransferInQ bnd) =
     [Cmp ''status'' CEq (SInt (TransferStatus_number TRANSFER_STATUS_TRANSFER_IN_START)),
      Cmp ''timelock'' CGt (STime (DTime env bnd)),
      Cmp ''transfertype'' CEq (SInt (TransferType_number TRANSFER_TYPE_IN))]"
| "sql_conds env ConfirmableLockedQ =
     [Cmp ''status'' CEq (SInt (TransferStatus_number TRANSFER_STATUS_LOCKED)),
      IsNotNull ''preimage'', Cmp ''preimage'' CNe (SText [])]"
| "sql_conds env (RecoverPendingTransferInQ upd bnd) =
     [Cmp ''status'' CEq (SInt (TransferStatus_number TRANSFER_STATUS_TRANSFER_IN_PENDING)),
      Cmp ''updatets'' CLt (STime (DTime env upd)),
      Cmp ''transfertype'' CEq (SInt (TransferType_number TRANSFER_TYPE_IN)),
      Cmp ''timelock'' CGt (STime (DTime env bnd))]"
| "sql_conds env (RecoverPendingConfirmQ upd bnd) =
     [Cmp ''status'' CEq (SInt (TransferStatus_number TRANSFER_STATUS_CONFIRM_PENDING)),
      Cmp ''updatets'' CLt (STime (DTime env upd)), Cmp ''timelock'' CGt (STime (DTime env bnd))]"
| "sql_conds env (RecoverPendingRefundQ upd) =
     [Cmp ''status'' CEq (SInt (TransferStatus_number TRANSFER_STATUS_REFUND_PENDING)),
      Cmp ''updatets'' CLt (STime (DTime env upd))]"
| "sql_conds env (RefundAbleTransferInQ now) =
     [Cmp ''status'' CEq (SInt (TransferStatus_number TRANSFER_STATUS_LOCKED)),
      Cmp ''timelock'' CLt (STime (DTime env now)),
      Cmp ''transfertype'' CEq (SInt (TransferType_number TRANSFER_TYPE_IN))]"

definition query_sql :: "dal_env \<Rightarrow> query \<Rightarrow> sql_table \<Rightarrow> Transfer list result" where
  "query_sql env q R =
     (case q of AllWithLimitQ n \<Rightarrow> GetAllTransfersWithLimit env n R
      | _ \<Rightarrow> select_where env (sql_conds env q) R)"

text \<open>They are the methods; the single-row methods deliver the first row of their query.\<close>

lemma query_sql_methods:
  "query_sql env AllQ R = GetAllTransfers env R"
  "query_sql env (AllWithLimitQ n) R = GetAllTransfersWithLimit env n R"
  "query_sql env (StartTransferInQ (now + hour)) R = GetAllStartTransferIn env now R"
  "query_sql env ConfirmableLockedQ R = GetAllConfirmableLockedTransfer env R"
  "query_sql env (RecoverPendingTransferInQ (now - 15 * minute) (now + 6 * minute)) R
     = GetRecoverTimeoutPendingTransferIn env now R"
  "query_sql env (RecoverPendingConfirmQ (now - 15 * minute) (now + 6 * minute)) R
     = GetRecoverTimeoutPendingConfirm env now R"
  "query_sql env (RecoverPendingRefundQ (now - 15 * minute)) R = GetRecoverTimeoutPendingRefund env now R"
  "query_sql env (RefundAbleTransferInQ now) R = GetAllRefundAbleTransferIn env now R"
  by (simp_all add: query_sql_def GetAllTransfers_def GetAllStartTransferIn_def
      GetAllConfirmableLockedTransfer_def GetRecoverTimeoutPendingTransferIn_def
      GetRecoverTimeoutPendingConfirm_def GetRecoverTimeoutPendingRefund_def
      GetAllRefundAbleTransferIn_def maxPendingTimeOutRetryDuration_def timeLockSafeMargin_def)

lemma query_sql_single:
  assumes "query_sql env (ByTidQ tid) R = Inr txs"
  shows "GetTransferByTid env tid R = Inr (case txs of [] \<Rightarrow> None | tx # _ \<Rightarrow> Some tx)"
  using assms
  by (auto simp: query_sql_def GetTransferByTid_def query_row_def select_where_def scan_rows_def
      split: list.splits sum.splits)

lemma sql_conds_sel:
  assumes "dal_doc env" "rel_row env r x" "\<nexists>n. q = AllWithLimitQ n"
  shows "where_holds (sql_conds env q) r = query_sel (stored_query env q) x"
proof -
  have lib: "eth_common_doc (DLib env)" using assms(1) by (simp add: dal_doc_def)
  show ?thesis
    using assms(2,3) lib
    by (cases q) (auto simp: where_holds_def rel_row_cols HashString_not_empty HashString_inj
        simp del: TransferStatus_number.simps TransferType_number.simps)
qed

lemma stored_query_limit: "(stored_query env q = AllWithLimitQ n) = (q = AllWithLimitQ n)"
  by (cases q) auto

lemma query_sql_sim:
  assumes "dal_doc env" "rel_table env R T" "query_sql env q R = Inr txs"
  shows "query_ok (stored_query env q) T txs"
proof (cases "\<exists>n. q = AllWithLimitQ n")
  case True
  then obtain n where n: "q = AllWithLimitQ n" by blast
  then have lim: "GetAllTransfersWithLimit env n R = Inr txs" using assms(3) by (simp add: query_sql_def)
  then have "unat n < 2 ^ 63" using limit_query_refused [of n env R] by fastforce
  from limit_query_sim [OF assms(1,2) this] lim n show ?thesis by (auto simp del: query_ok.simps)
next
  case False
  have "query_sql env q R = select_where env (sql_conds env q) R"
    using False by (cases q) (simp_all add: query_sql_def)
  moreover have "\<nexists>n. stored_query env q = AllWithLimitQ n" using False by (simp add: stored_query_limit)
  ultimately show ?thesis
    using select_where_sim [OF assms(1,2) sql_conds_sel [OF assms(1) _ False]] assms(3) by auto
qed

section \<open>Steps over the database\<close>

fun on_table :: "ev \<Rightarrow> bool" where
  "on_table (ExecE s r) = True"
| "on_table (QueryE q r) = True"
| "on_table e = False"

text \<open>A write does what its method does, or fails with an error of the connection, before or after
  it took effect. A query likewise. The other steps do not touch the database.\<close>

inductive sql_pstep ::
  "dal_env \<Rightarrow> (ev \<Rightarrow> bool) \<Rightarrow> sql_table \<Rightarrow> proc \<Rightarrow> ev \<Rightarrow> sql_table \<Rightarrow> proc \<Rightarrow> bool"
  for env :: dal_env and A :: "ev \<Rightarrow> bool" where
  written: "exec_sql env s R = Inr R' \<Longrightarrow> sql_pstep env A R (Exec s k) (ExecE s None) R' (k None)"
| write_refused: "exec_sql env s R = Inl e \<Longrightarrow>
    sql_pstep env A R (Exec s k) (ExecE s (Some e)) R (k (Some e))"
| write_lost: "sql_pstep env A R (Exec s k) (ExecE s (Some e)) R (k (Some e))"
| write_unacknowledged: "exec_sql env s R = Inr R' \<Longrightarrow>
    sql_pstep env A R (Exec s k) (ExecE s (Some e)) R' (k (Some e))"
| read: "query_sql env q R = Inr txs \<Longrightarrow>
    sql_pstep env A R (Query q k) (QueryE q (Inr txs)) R (k (Inr txs))"
| read_refused: "query_sql env q R = Inl e \<Longrightarrow>
    sql_pstep env A R (Query q k) (QueryE q (Inl e)) R (k (Inl e))"
| read_lost: "sql_pstep env A R (Query q k) (QueryE q (Inl e)) R (k (Inl e))"
| elsewhere: "pstep A [] p e [] p' \<Longrightarrow> \<not> on_table e \<Longrightarrow> sql_pstep env A R p e R p'"

inductive sql_step ::
  "dal_env \<Rightarrow> (ev \<Rightarrow> bool) \<Rightarrow> proc set \<Rightarrow> sql_table \<times> thread list \<Rightarrow> sql_table \<times> thread list \<Rightarrow> bool"
  for env :: dal_env and A :: "ev \<Rightarrow> bool" and P :: "proc set" where
  sql_spawn: "p \<in> P \<Longrightarrow> sql_step env A P (R, ths) (R, ths @ [([], p)])"
| sql_run: "i < length ths \<Longrightarrow> ths ! i = (h, p) \<Longrightarrow> sql_pstep env A R p e R' p' \<Longrightarrow>
    sql_step env A P (R, ths) (R', ths[i := (e # h, p')])"
| sql_crash: "sql_step env A P (R, ths) (R, [])"

abbreviation sql_reach ::
  "dal_env \<Rightarrow> (ev \<Rightarrow> bool) \<Rightarrow> proc set \<Rightarrow> sql_table \<times> thread list \<Rightarrow> sql_table \<times> thread list \<Rightarrow> bool" where
  "sql_reach env A P \<equiv> (sql_step env A P)\<^sup>*\<^sup>*"

lemma sql_reach_mono:
  assumes "sql_reach env A P s0 st" "P \<subseteq> P'"
  shows "sql_reach env A P' s0 st"
proof -
  have "sql_step env A P \<le> sql_step env A P'"
    using assms(2) by (auto elim!: sql_step.cases intro: sql_step.intros)
  from rtranclp_mono [OF this] assms(1) show ?thesis by blast
qed

section \<open>The simulation\<close>

lemma pstep_elsewhere:
  assumes "pstep A T p e T' p'" "\<not> on_table e"
  shows "pstep A T2 p e T2 p'"
  using assms by (cases rule: pstep.cases) (auto intro: pstep.intros)

text \<open>A program, a step and a goroutine with the times that the database keeps.\<close>

primrec stored_prog :: "dal_env \<Rightarrow> proc \<Rightarrow> proc" where
  "stored_prog env (Done b) = Done b"
| "stored_prog env Panic = Panic"
| "stored_prog env (Now k) = Now (\<lambda>t. stored_prog env (k t))"
| "stored_prog env (Exec s k) = Exec (stored_stmt env s) (\<lambda>r. stored_prog env (k r))"
| "stored_prog env (Query q k) = Query (stored_query env q) (\<lambda>r. stored_prog env (k r))"
| "stored_prog env (BlockNumber c k) = BlockNumber c (\<lambda>n. stored_prog env (k n))"
| "stored_prog env (CallContract c a n m k) = CallContract c a n m (\<lambda>r. stored_prog env (k r))"
| "stored_prog env (FeeRpc q k) = FeeRpc q (\<lambda>r. stored_prog env (k r))"
| "stored_prog env (Transact c a m k) = Transact c a m (\<lambda>r. stored_prog env (k r))"
| "stored_prog env (Sleep d p) = Sleep d (stored_prog env p)"

fun stored_ev :: "dal_env \<Rightarrow> ev \<Rightarrow> ev" where
  "stored_ev env (ExecE s r) = ExecE (stored_stmt env s) r"
| "stored_ev env (QueryE q r) = QueryE (stored_query env q) r"
| "stored_ev env e = e"

definition stored_thread :: "dal_env \<Rightarrow> thread \<Rightarrow> thread" where
  "stored_thread env th = (map (stored_ev env) (fst th), stored_prog env (snd th))"

lemma stored_thread_Pair [simp]:
  "stored_thread env (h, p) = (map (stored_ev env) h, stored_prog env p)"
  by (simp add: stored_thread_def)

text \<open>Programs that only use times the database keeps.\<close>

definition same_times :: "dal_env \<Rightarrow> ev list \<Rightarrow> ev \<Rightarrow> bool" where
  "same_times env older e \<longleftrightarrow> stored_ev env e = e"

definition keeps_times :: "dal_env \<Rightarrow> (ev \<Rightarrow> bool) \<Rightarrow> proc set \<Rightarrow> bool" where
  "keeps_times env A P \<longleftrightarrow> (\<forall>p\<in>P. traced A (same_times env) p [])"

lemma same_timesD:
  "traced A (same_times env) (Exec s k) h \<Longrightarrow> stored_stmt env s = s"
  "traced A (same_times env) (Query q kq) h \<Longrightarrow> stored_query env q = q"
proof -
  show "stored_stmt env s = s" if "traced A (same_times env) (Exec s k) h"
    using that by (simp add: same_times_def)
  assume "traced A (same_times env) (Query q kq) h"
  then have "same_times env h (QueryE q (Inl []))" by (simp add: answer_fits_def)
  then show "stored_query env q = q" by (simp add: same_times_def)
qed

text \<open>One step on the database is one step of the program with stored times, and of the program
  itself if its times are stored as they are.\<close>

lemma sql_pstep_sim:
  assumes "sql_pstep env A R p e R' p'" "dal_doc env" "rel_table env R T"
  shows "\<exists>T'. rel_table env R' T' \<and>
    pstep A T (stored_prog env p) (stored_ev env e) T' (stored_prog env p') \<and>
    (traced A (same_times env) p h \<longrightarrow> pstep A T p e T' p')"
proof -
  have exec: "rel_table env R1 (apply_stmt (stored_stmt env s) T)" if "exec_sql env s R = Inr R1" for s R1
    using exec_sql_Inr [OF assms(2,3) that] .
  from assms(1) show ?thesis
  proof (cases rule: sql_pstep.cases)
    case (written s k)
    with exec [OF written(4)] show ?thesis
      by (intro exI [of _ "apply_stmt (stored_stmt env s) T"])
        (metis pstep.exec same_timesD(1) stored_ev.simps(1) stored_prog.simps(4))
  next
    case (write_unacknowledged s k err)
    with exec [OF write_unacknowledged(4)] show ?thesis
      by (intro exI [of _ "apply_stmt (stored_stmt env s) T"])
        (metis pstep.exec_unacknowledged same_timesD(1) stored_ev.simps(1) stored_prog.simps(4))
  next
    case (read q txs k)
    have "query_ok (stored_query env q) T txs" using query_sql_sim [OF assms(2,3) read(5)] .
    with read assms(3) show ?thesis
      by (intro exI [of _ T])
        (metis pstep.query same_timesD(2) stored_ev.simps(2) stored_prog.simps(5))
  next
    case elsewhere
    have "pstep A T p e T p'" using pstep_elsewhere [OF elsewhere(2,3)] .
    moreover from this elsewhere(3) have "pstep A T (stored_prog env p) (stored_ev env e) T (stored_prog env p')"
      by (cases rule: pstep.cases) (auto intro: pstep.intros)
    ultimately show ?thesis using assms(3) elsewhere(1) by blast
  qed (use assms(3) in \<open>auto intro: pstep.intros\<close>)
qed

text \<open>Whole runs: what each goroutine did is known with its stored times, and as it was if the
  programs keep their times.\<close>

lemma sql_reach_sim:
  assumes "sql_reach env A P (R0, []) (R, ths)" "dal_doc env" "rel_table env R0 T0"
  obtains T where "rel_table env R T"
    "sys_reach A (stored_prog env ` P) (T0, []) (T, map (stored_thread env) ths)"
    "keeps_times env A P \<Longrightarrow> sys_reach A P (T0, []) (T, ths)"
proof -
  let ?J = "\<lambda>st T. rel_table env (fst st) T \<and>
    sys_reach A (stored_prog env ` P) (T0, []) (T, map (stored_thread env) (snd st)) \<and>
    (keeps_times env A P \<longrightarrow> sys_reach A P (T0, []) (T, snd st))"
  have "\<exists>T. ?J st T" if "sql_reach env A P (R0, []) st" for st
    using that
  proof (induction rule: rtranclp_induct)
    case base
    then show ?case using assms(3) by (auto intro: sys_reach.refl)
  next
    case (step st st')
    then obtain T where T: "?J st T" by blast
    from step.hyps(2) show ?case
    proof (cases rule: sql_step.cases)
      case (sql_spawn p R ths)
      have "sys_step A (stored_prog env ` P) (T, map (stored_thread env) ths)
          (T, map (stored_thread env) ths @ [([], stored_prog env p)])"
        by (rule sys_step.spawn) (simp add: sql_spawn(3))
      moreover have "sys_step A P (T, ths) (T, ths @ [([], p)])"
        by (rule sys_step.spawn) (rule sql_spawn(3))
      ultimately show ?thesis
        using T unfolding sql_spawn(1,2)
        by (intro exI [of _ T]) (auto intro: sys_reach.step)
    next
      case (sql_run i ths h p R e R' p')
      obtain T' where T': "rel_table env R' T'"
        "pstep A T (stored_prog env p) (stored_ev env e) T' (stored_prog env p')"
        "traced A (same_times env) p h \<Longrightarrow> pstep A T p e T' p'"
        using sql_pstep_sim [OF sql_run(5) assms(2)] T sql_run(1) by fastforce
      have "sys_step A (stored_prog env ` P) (T, map (stored_thread env) ths)
          (T', (map (stored_thread env) ths)[i := (stored_ev env e # map (stored_ev env) h, stored_prog env p')])"
        by (rule sys_step.run [OF _ _ T'(2)]) (simp_all add: sql_run(3,4))
      then have "sys_reach A (stored_prog env ` P) (T0, [])
          (T', map (stored_thread env) (ths[i := (e # h, p')]))"
        using T unfolding sql_run(1,2)
        by (auto simp: map_update intro: sys_reach.step)
      moreover have "sys_reach A P (T0, []) (T', ths[i := (e # h, p')])" if keeps: "keeps_times env A P"
      proof -
        have "sys_reach A P (T0, []) (T, ths)" using T keeps sql_run(1) by simp
        moreover have "traced A (same_times env) p h"
          using sys_traced [OF calculation] keeps nth_mem [OF sql_run(3)] sql_run(4)
          by (fastforce simp: keeps_times_def)
        ultimately show ?thesis
          using sys_step.run [OF sql_run(3,4) T'(3)] by (auto intro: sys_reach.step)
      qed
      ultimately show ?thesis using T'(1) sql_run(2) by auto
    next
      case (sql_crash R ths)
      with T show ?thesis by (intro exI [of _ T]) (auto intro: sys_reach.step sys_step.crash)
    qed
  qed
  from this [OF assms(1)] that show thesis by auto
qed

text \<open>Every program keeps its times on a database whose columns are exact.\<close>

lemma stored_exact:
  assumes "DTime env = (\<lambda>t. t)"
  shows "stored_stmt env s = s" "stored_query env q = q" "stored_ev env e = e" "stored_prog env p = p"
proof -
  show s: "stored_stmt env s = s" for s by (cases s) (simp_all add: assms stored_tx_def)
  show q: "stored_query env q = q" for q by (cases q) (simp_all add: assms)
  show "stored_ev env e = e" by (cases e) (simp_all add: s q)
  show "stored_prog env p = p" by (induction p) (simp_all add: s q)
qed

lemma traced_all: "(\<And>h e. Q h e) \<Longrightarrow> traced_by F A Q p h"
  by (induction p arbitrary: h) simp_all

lemma keeps_times_exact: "DTime env = (\<lambda>t. t) \<Longrightarrow> keeps_times env A P"
  by (simp add: keeps_times_def traced_all same_times_def stored_exact)

section \<open>Running a program on the database\<close>

primrec sql_run_alone ::
  "dal_env \<Rightarrow> outside \<Rightarrow> proc \<Rightarrow> sql_table \<Rightarrow> ev list \<Rightarrow> sql_table \<times> ev list \<times> bool option" where
  "sql_run_alone env w (Done b) R h = (R, h, Some b)"
| "sql_run_alone env w Panic R h = (R, h, None)"
| "sql_run_alone env w (Now k) R h = sql_run_alone env w (k (O_Now w)) R (NowE (O_Now w) # h)"
| "sql_run_alone env w (Exec s k) R h =
     (case exec_sql env s R of
        Inl e \<Rightarrow> sql_run_alone env w (k (Some e)) R (ExecE s (Some e) # h)
      | Inr R' \<Rightarrow> sql_run_alone env w (k None) R' (ExecE s None # h))"
| "sql_run_alone env w (Query q k) R h =
     sql_run_alone env w (k (query_sql env q R)) R (QueryE q (query_sql env q R) # h)"
| "sql_run_alone env w (BlockNumber c k) R h =
     sql_run_alone env w (k (O_Block w c)) R (BlockE c (O_Block w c) # h)"
| "sql_run_alone env w (CallContract c a n m k) R h =
     sql_run_alone env w (k (O_Call w c m)) R (CallE c a n m (O_Call w c m) # h)"
| "sql_run_alone env w (FeeRpc q k) R h =
     sql_run_alone env w (k (O_Fee w q)) R (FeeE q (O_Fee w q) # h)"
| "sql_run_alone env w (Transact c a m k) R h =
     sql_run_alone env w (k (O_Tx w c m)) R (TransactE c a m (O_Tx w c m) # h)"
| "sql_run_alone env w (Sleep d p) R h = sql_run_alone env w p R (SleepE d # h)"

lemma sql_thread_step:
  assumes "sql_reach env A P s0 (R, ths)" "i < length ths" "ths ! i = (h, p)" "sql_pstep env A R p e R1 p1"
  shows "sql_reach env A P s0 (R1, ths[i := (e # h, p1)])"
  using assms(1) sql_run [OF assms(2-4)] by (rule rtranclp.rtrancl_into_rtrancl)

lemma sql_query_step:
  "sql_pstep env A R (Query q k) (QueryE q (query_sql env q R)) R (k (query_sql env q R))"
  by (cases "query_sql env q R") (auto intro: sql_pstep.intros)

lemma sql_run_thread:
  assumes adm: "admits A w"
    and "sql_reach env A P s0 (R, ths)" "i < length ths" "ths ! i = (h, p)"
    and "sql_run_alone env w p R h = (R', h', b)"
  shows "sql_reach env A P s0 (R', ths[i := (h', ended b)])"
proof -
  have free: "sql_pstep env A R (Now kn) (NowE (O_Now w)) R (kn (O_Now w))"
    "sql_pstep env A R (BlockNumber c kb) (BlockE c (O_Block w c)) R (kb (O_Block w c))"
    "sql_pstep env A R (CallContract c a n m kc) (CallE c a n m (O_Call w c m)) R (kc (O_Call w c m))"
    "sql_pstep env A R (FeeRpc q kf) (FeeE q (O_Fee w q)) R (kf (O_Fee w q))"
    "sql_pstep env A R (Transact c a mr kt) (TransactE c a mr (O_Tx w c mr)) R (kt (O_Tx w c mr))"
    "sql_pstep env A R (Sleep d p) (SleepE d) R p"
    for R kn c kb a n m kc q kf mr kt d p
    by (auto intro!: elsewhere pstep.intros admitsD [OF adm])
  show ?thesis
    using assms(2-5)
  proof (induction p arbitrary: R ths h)
    case (Now k)
    from Now.IH [OF rangeI sql_thread_step [OF Now.prems(1-3) free(1)]] Now.prems show ?case by simp
  next
    case (Exec s k)
    show ?case
    proof (cases "exec_sql env s R")
      case (Inl e)
      from Exec.IH [OF rangeI sql_thread_step [OF Exec.prems(1-3) write_refused [OF Inl]]] Exec.prems Inl
      show ?thesis by simp
    next
      case (Inr R1)
      from Exec.IH [OF rangeI sql_thread_step [OF Exec.prems(1-3) written [OF Inr]]] Exec.prems Inr
      show ?thesis by simp
    qed
  next
    case (Query q k)
    from Query.IH [OF rangeI sql_thread_step [OF Query.prems(1-3) sql_query_step]] Query.prems
    show ?case by simp
  next
    case (BlockNumber c k)
    from BlockNumber.IH [OF rangeI sql_thread_step [OF BlockNumber.prems(1-3) free(2)]] BlockNumber.prems
    show ?case by simp
  next
    case (CallContract c a n m k)
    from CallContract.IH [OF rangeI sql_thread_step [OF CallContract.prems(1-3) free(3)]] CallContract.prems
    show ?case by simp
  next
    case (FeeRpc q k)
    from FeeRpc.IH [OF rangeI sql_thread_step [OF FeeRpc.prems(1-3) free(4)]] FeeRpc.prems show ?case by simp
  next
    case (Transact c a m k)
    from Transact.IH [OF rangeI sql_thread_step [OF Transact.prems(1-3) free(5)]] Transact.prems
    show ?case by simp
  next
    case (Sleep d p)
    from Sleep.IH [OF sql_thread_step [OF Sleep.prems(1-3) free(6)]] Sleep.prems show ?case by simp
  qed (metis fst_conv snd_conv sql_run_alone.simps(1,2) ended_def option.case list_update_id)+
qed

lemma sql_alone_then_alone:
  assumes "admits A w" "sql_reach env A P s0 (R, ths)" "p \<in> P" "sql_run_alone env w p R [] = (R', h', b)"
  shows "\<exists>p'. sql_reach env A P s0 (R', [(h', p')])"
proof -
  have "sql_reach env A P s0 (R, [])"
    using assms(2) sql_crash by (rule rtranclp.rtrancl_into_rtrancl)
  then have "sql_reach env A P s0 (R, [] @ [([], p)])"
    using sql_spawn [OF assms(3)] by (rule rtranclp.rtrancl_into_rtrancl)
  from sql_run_thread [OF assms(1) this _ _ assms(4), of 0] show ?thesis by auto
qed

section \<open>Rows of the database\<close>

lemma rel_row_ids:
  assumes "rel_row env r x"
  shows "r ''tid'' = SText (HashString (DLib env) (TransferId x))"
    "r ''relatedtid'' = SText (HashString (DLib env) (RelatedTid x))"
    "r ''hashlock'' = SText (HashString (DLib env) (HashLock x))"
    "r ''chainid'' = SInt (uint (ChainId x))" "r ''relatedchainid'' = SInt (uint (RelatedChainId x))"
    "r ''token'' = SText (AddrString (DLib env) (Token x))"
    "r ''relatedtoken'' = SText (AddrString (DLib env) (RelatedToken x))"
    "r ''transfertype'' = SInt (TransferType_number (TransferType x))"
    "r ''amount'' = SText (big_String (Amount x))" "r ''fee'' = SText (big_String (Fee x))"
  using assms by (simp_all add: rel_row_def row_vals_def transferAllColumns_def)

lemma rel_table_keys:
  assumes "eth_common_doc (DLib env)" "rel_table env R T" "keys_distinct T"
  shows "distinct (map (\<lambda>r. r ''tid'') R)"
  using assms(2,3) unfolding rel_table_def keys_distinct_def
proof (induction rule: list_all2_induct)
  case (Cons r R x T)
  have "rel_table env R T" using Cons.hyps(2) by (simp add: rel_table_def)
  from has_tid_sim [OF assms(1) this, of "TransferId x"] Cons rel_row_ids(1) [OF Cons.hyps(1)]
  show ?case by (auto simp: has_tid_def)
qed simp

lemma rel_table_row:
  assumes "rel_table env R T" "r \<in> set R"
  obtains x where "x \<in> set T" "rel_row env r x"
  using assms unfolding rel_table_def by (metis in_set_conv_nth list_all2_conv_all_nth)

lemma rel_table_row':
  assumes "rel_table env R T" "x \<in> set T"
  obtains r where "r \<in> set R" "rel_row env r x"
  using assms unfolding rel_table_def by (metis in_set_conv_nth list_all2_conv_all_nth)

end
