(* ===== verification/Relay_Inserts.thy ===== *)
theory Relay_Inserts
  imports Relay_Loops
begin

text \<open>
  When a row enters the table. Only the callback for a new transfer out inserts rows: the locale
  \<open>insert_watch\<close> shows, for any property of steps that only an insert, or a time other than the
  clock's, can violate, that all other programs have it. A transfer in is inserted right after its transfer out, for an event addressed
  to this node, between configured chains and tokens, with at least 16 hours left on the lock.
\<close>

section \<open>Properties of inserts\<close>

text \<open>\<open>D\<close> says which logs the monitor of a chain delivers for new transfers out; the other
  callbacks may get any.\<close>

definition node_programs_from ::
  "(bridgeConfig \<Rightarrow> ethlog \<Rightarrow> bool) \<Rightarrow> node_env \<Rightarrow> server \<Rightarrow> proc set" where
  "node_programs_from D env s =
     {monitorLogTransferOut env s bc eLog | bc eLog. bc \<in> ran (SV_chainMap s) \<and> D bc eLog} \<union>
     range (monitorLogTransferIn s) \<union> range monitorLogConfirm \<union> range monitorLogRefund \<union>
     node_programs_on {} env s"

lemma node_programs_from_all: "node_programs_from (\<lambda>bc eLog. True) env s = node_programs env s"
  by (auto simp: node_programs_from_def node_programs_on_def)

lemma node_programs_from_subset: "node_programs_from D env s \<subseteq> node_programs env s"
  by (auto simp: node_programs_from_def node_programs_on_def)

text \<open>A property of steps that only inserts can violate, or steps with times that are not the
  clock's: of all programs, only the callback for a new transfer out has to be looked at.\<close>

fun inserts :: "ev \<Rightarrow> bool" where
  "inserts (ExecE (InsertTransferS tx t) r) = True"
| "inserts e = False"

lemma inserts_iff [simp]: "inserts (ExecE s r) = is_insert s"
  by (cases s) simp_all

text \<open>The times in the other statements and in the queries are readings of the clock, or a fixed
  distance from one.\<close>

fun clock_times :: "(ev \<Rightarrow> bool) \<Rightarrow> ev \<Rightarrow> bool" where
  "clock_times A (ExecE (SetPendingTransferInS tid to from t) r) = A (NowE t)"
| "clock_times A (ExecE (SetTransferStatusByFromS tid to from t) r) = A (NowE t)"
| "clock_times A (QueryE (StartTransferInQ bnd) r) = A (NowE (bnd - hour))"
| "clock_times A (QueryE (RecoverPendingTransferInQ upd bnd) r) =
     (A (NowE (upd + 15 * minute)) \<and> A (NowE (bnd - 6 * minute)))"
| "clock_times A (QueryE (RecoverPendingConfirmQ upd bnd) r) =
     (A (NowE (upd + 15 * minute)) \<and> A (NowE (bnd - 6 * minute)))"
| "clock_times A (QueryE (RecoverPendingRefundQ upd) r) = A (NowE (upd + 15 * minute))"
| "clock_times A (QueryE (RefundAbleTransferInQ now) r) = A (NowE now)"
| "clock_times A e = True"

locale insert_watch =
  fixes A :: "ev \<Rightarrow> bool" and Q :: "ev list \<Rightarrow> ev \<Rightarrow> bool"
  assumes other: "\<not> inserts e \<Longrightarrow> clock_times A e \<Longrightarrow> Q h e"
begin

lemma others [simp]:
  "Q h (NowE t)" "Q h (BlockE c n)" "Q h (CallE c a n m cr)" "Q h (FeeE fq fr)"
  "Q h (TransactE c a mr r')" "Q h (SleepE d)"
  "clock_times A (QueryE q rs) \<Longrightarrow> Q h (QueryE q rs)"
  "\<not> is_insert st \<Longrightarrow> clock_times A (ExecE st r) \<Longrightarrow> Q h (ExecE st r)"
  by (simp_all add: other)

lemma events:
  "traced_by F A Q (monitorLogTransferIn s eLog) h" "traced_by F A Q (monitorLogConfirm eLog) h"
  "traced_by F A Q (monitorLogRefund eLog) h"
  by (auto simp: monitorLogTransferIn_def monitorLogConfirm_def monitorLogRefund_def split: sum.splits)

lemma bodies:
  assumes "\<And>h. traced_by F A Q next h"
  shows "traced_by F A Q (send_one env s tx next) h" "traced_by F A Q (confirm_one env s tx next) h"
    "traced_by F A Q (refund_one env s tx next) h" "traced_by F A Q (recover_one to from tx next) h"
  using assms
  by (auto simp: send_one_def confirm_one_def refund_one_def refund_pending_def recover_one_def
      getTransfer_def gateway_GetFee_def transferIn_def confirm_def refund_def db_defs Let_def
      split: option.splits sum.splits list.splits)

lemma round:
  assumes "\<And>tx nx h. (\<And>h. traced_by F A Q nx h) \<Longrightarrow> traced_by F A Q (body tx nx) h"
    and "\<And>h. traced_by F A Q last_step h" "\<And>r. clock_times A (QueryE q r)"
  shows "traced_by F A Q
    (Query q (\<lambda>r. case r of Inl e \<Rightarrow> last_step | Inr txs \<Rightarrow> for_each body txs last_step)) h"
proof -
  have "traced_by F A Q (for_each body txs last_step) h" for txs h
    by (rule traced_for_each [where S = "\<lambda>h. True"]) (simp_all add: assms)
  then show ?thesis using assms(2,3) by (simp split: sum.splits)
qed

lemma recover_rounds:
  assumes "\<And>h. traced_by F A Q next h"
  shows "traced_by F A Q (processRecoverTimeoutPendingTransferIn next) h"
    "traced_by F A Q (processRecoverTimeoutPendingConfirm next) h"
    "traced_by F A Q (processRecoverTimeoutPendingRefund next) h"
  unfolding processRecoverTimeoutPendingTransferIn_def processRecoverTimeoutPendingConfirm_def
    processRecoverTimeoutPendingRefund_def db_defs
  using assms by (auto simp del: traced_by.simps(5) intro!: round bodies)

lemma loops: "p \<in> node_programs_on {} env s \<Longrightarrow> traced_by F A Q p []"
  by (erule node_programs_on_cases)
    (auto simp: processTrySendTransferIn_def processTryConfirmTransfer_def
      processTryRefundTransferIn_def db_defs
      simp del: traced_by.simps(5) intro!: round bodies recover_rounds)

lemma node:
  assumes "\<And>bc eLog. bc \<in> ran (SV_chainMap s) \<Longrightarrow> D bc eLog \<Longrightarrow>
      traced_by F A Q (monitorLogTransferOut env s bc eLog) []"
    and "p \<in> node_programs_from D env s"
  shows "traced_by F A Q p []"
  using assms(2) unfolding node_programs_from_def by (auto intro: assms(1) events loops)

end

section \<open>The licence of an insert\<close>

text \<open>The callback accepts the event of a log at the given time: it is addressed to this node, both
  chains and the tokens of the name are configured, with an amount, and 16 hours are left.\<close>

definition accepted ::
  "server \<Rightarrow> bridgeConfig \<Rightarrow> ethlog \<Rightarrow> gotime \<Rightarrow> LogNewTransferOut \<Rightarrow> addr \<Rightarrow> int \<Rightarrow> bool" where
  "accepted s bc eLog now ev dstToken amount \<longleftrightarrow>
     ParseEvent to_LogNewTransferOut evLogTransferOut eLog = Inr ev \<and>
     LO_Receiver ev = SV_accountAddr s \<and> SV_chainMap s (LO_DstChainId ev) \<noteq> None \<and>
     (\<exists>tokenName sd dd.
        lookup2 (SV_chainTokenNameMap s) (chain_uint64 bc) (LO_Token ev) = Some tokenName \<and>
        lookup2 (SV_chainTokenAddrMap s) (LO_DstChainId ev) tokenName = Some dstToken \<and>
        lookup2 (SV_chainTokenDecimalMap s) (chain_uint64 bc) (LO_Token ev) = Some sd \<and>
        lookup2 (SV_chainTokenDecimalMap s) (LO_DstChainId ev) dstToken = Some dd \<and>
        dst_amount (LO_Amount ev) sd dd = Some amount) \<and>
     3600 * 16 \<le> sint (src_timeout ev now)"

definition in_license :: "node_env \<Rightarrow> server \<Rightarrow> ev list \<Rightarrow> Transfer \<Rightarrow> bool" where
  "in_license env s older tx \<longleftrightarrow>
     (\<exists>bc eLog ev dstToken amount t0 t1 t2.
        bc \<in> ran (SV_chainMap s) \<and> accepted s bc eLog t0 ev dstToken amount \<and>
        tx = in_transfer env bc ev dstToken amount t0 \<and>
        older = [NowE t2, ExecE (InsertTransferS (out_transfer env bc eLog ev dstToken t0) t1) None,
          NowE t1, NowE t0])"

definition insert_licensed :: "node_env \<Rightarrow> server \<Rightarrow> ev list \<Rightarrow> ev \<Rightarrow> bool" where
  "insert_licensed env s older e \<longleftrightarrow>
     (\<forall>tx t r. e = ExecE (InsertTransferS tx t) r \<longrightarrow> TransferType tx = TRANSFER_TYPE_IN \<longrightarrow>
        in_license env s older tx)"

interpretation license: insert_watch A "insert_licensed env s" for A env s
  by unfold_locales (auto simp: insert_licensed_def)

abbreviation itraced :: "(ev \<Rightarrow> bool) \<Rightarrow> node_env \<Rightarrow> server \<Rightarrow> proc \<Rightarrow> ev list \<Rightarrow> bool" where
  "itraced A env s \<equiv> traced A (insert_licensed env s)"

section \<open>All programs\<close>

lemma in_licenseI:
  assumes "bc \<in> ran (SV_chainMap s)" "SV_chainMap s (LO_DstChainId ev) = Some dst"
    "LO_Receiver ev = SV_accountAddr s"
    "ParseEvent to_LogNewTransferOut evLogTransferOut eLog = Inr ev"
    "57600 \<le> sint (src_timeout ev t0)" "dst_amount (LO_Amount ev) sd dd = Some amount"
    "lookup2 (SV_chainTokenDecimalMap s) (LO_DstChainId ev) dstToken = Some dd"
    "lookup2 (SV_chainTokenDecimalMap s) (chain_uint64 bc) (LO_Token ev) = Some sd"
    "names tokenName = Some dstToken" "SV_chainTokenAddrMap s (LO_DstChainId ev) = Some names"
    "lookup2 (SV_chainTokenNameMap s) (chain_uint64 bc) (LO_Token ev) = Some tokenName"
  shows "insert_licensed env s
    [NowE t2, ExecE (InsertTransferS (out_transfer env bc eLog ev dstToken t0) t1) None, NowE t1, NowE t0]
    (ExecE (InsertTransferS (in_transfer env bc ev dstToken amount t0) t) r)"
proof -
  have "lookup2 (SV_chainTokenAddrMap s) (LO_DstChainId ev) tokenName = Some dstToken"
    using assms(9,10) by (simp add: lookup2_def)
  then have "accepted s bc eLog t0 ev dstToken amount"
    unfolding accepted_def using assms by auto
  then have "in_license env s
      [NowE t2, ExecE (InsertTransferS (out_transfer env bc eLog ev dstToken t0) t1) None, NowE t1, NowE t0]
      (in_transfer env bc ev dstToken amount t0)"
    unfolding in_license_def using assms(1) by blast
  then show ?thesis by (simp add: insert_licensed_def)
qed

lemma itraced_out:
  assumes "bc \<in> ran (SV_chainMap s)"
  shows "itraced A env s (monitorLogTransferOut env s bc eLog) []"
proof -
  have out: "insert_licensed env s h (ExecE (InsertTransferS (out_transfer env bc l ev tk t0) t) r)"
    for h l ev tk t0 t r by (simp add: insert_licensed_def out_transfer_def)
  show ?thesis
    using assms unfolding monitorLogTransferOut_def
    by (auto simp: db_defs out not_less split: option.splits sum.splits intro!: in_licenseI)
qed

lemma node_itraced: "p \<in> node_programs env s \<Longrightarrow> itraced A env s p []"
  by (rule license.node [where D = "\<lambda>bc eLog. True"]) (simp_all add: itraced_out node_programs_from_all)

lemma node_insert_licensed:
  assumes "sys_reach A (node_programs env s) (T0, []) (T, ths)"
    and "(newer @ ExecE (InsertTransferS tx t) r # older, p) \<in> set ths"
  shows "insert_licensed env s older (ExecE (InsertTransferS tx t) r)"
  by (rule sys_licensed [OF assms(1) node_itraced assms(2)])

end
