(* ===== verification/Relay_Progress.thy ===== *)
theory Relay_Progress
  imports Relay_Loops
begin

text \<open>
  That the programs get to their end: a bound on the steps of a round by the rows its queries
  answered, no panic where chains answer in the types of the contract and the configured decimals
  lie less than 64 apart, and from both that every goroutine can always be run to completion. The
  locale \<open>thread_invariant\<close> is the contract of a property that each goroutine keeps by itself.
\<close>

section \<open>What each goroutine keeps\<close>

locale thread_invariant =
  fixes A :: "ev \<Rightarrow> bool" and P :: "proc set" and J :: "ev list \<Rightarrow> proc \<Rightarrow> bool"
  assumes start: "p \<in> P \<Longrightarrow> J [] p"
    and pstep_keeps: "pstep A T p e T' p' \<Longrightarrow> J h p \<Longrightarrow> J (e # h) p'"
begin

lemma all_threads: "sys_reach A P (T0, []) s \<Longrightarrow> \<forall>(h, p)\<in>set (snd s). J h p"
proof (induction rule: sys_reach.induct)
  case (step s s')
  from step.hyps(2) show ?case
  proof (cases rule: sys_step.cases)
    case (spawn p T ths)
    with step.IH start show ?thesis by simp
  next
    case (run i ths h p T e T' p')
    then have "(h, p) \<in> set ths" by (metis nth_mem)
    with step.IH run have "J h p" by auto
    with run pstep_keeps have "J (e # h) p'" by blast
    with run step.IH set_update_subset_insert [of ths i "(e # h, p')"] show ?thesis by auto
  qed simp
qed simp

lemma thread: "sys_reach A P (T0, []) (T, ths) \<Longrightarrow> (h, p) \<in> set ths \<Longrightarrow> J h p"
  using all_threads [of T0 "(T, ths)"] by auto

end

section \<open>A budget of steps\<close>

text \<open>\<open>spends p n\<close>: every execution of \<open>p\<close> takes at most \<open>n\<close> steps, and ten more for each
  row that a query answers on the way.\<close>

definition answered_by :: "Transfer list result \<Rightarrow> nat" where
  "answered_by r = (case r of Inl e \<Rightarrow> 0 | Inr rs \<Rightarrow> length rs)"

lemma answered_by_simps [simp]: "answered_by (Inl e) = 0" "answered_by (Inr rs) = length rs"
  by (simp_all add: answered_by_def)

primrec spends :: "proc \<Rightarrow> nat \<Rightarrow> bool" where
  "spends (Done b) n = True"
| "spends Panic n = True"
| "spends (Now k) n = (0 < n \<and> (\<forall>t. spends (k t) (n - 1)))"
| "spends (Exec s k) n = (0 < n \<and> (\<forall>r. spends (k r) (n - 1)))"
| "spends (Query q k) n = (0 < n \<and> (\<forall>r. spends (k r) (n - 1 + 10 * answered_by r)))"
| "spends (BlockNumber c k) n = (0 < n \<and> (\<forall>r. spends (k r) (n - 1)))"
| "spends (CallContract c a b m k) n = (0 < n \<and> (\<forall>r. spends (k r) (n - 1)))"
| "spends (FeeRpc q k) n = (0 < n \<and> (\<forall>r. spends (k r) (n - 1)))"
| "spends (Transact c a m k) n = (0 < n \<and> (\<forall>r. spends (k r) (n - 1)))"
| "spends (Sleep d p) n = (0 < n \<and> spends p (n - 1))"

lemma spends_mono: "spends p n \<Longrightarrow> n \<le> m \<Longrightarrow> spends p m"
proof (induction p arbitrary: n m)
  case (Query q k)
  then have "0 < m" "n - 1 + 10 * answered_by r \<le> m - 1 + 10 * answered_by r" for r by auto
  with Query show ?case unfolding spends.simps by blast
next
  case (Sleep d p)
  then have "0 < m" "n - 1 \<le> m - 1" by auto
  with Sleep show ?case unfolding spends.simps by blast
qed (simp_all, (meson diff_le_mono less_le_trans rangeI)+)

text \<open>The rows that the queries of a history answered.\<close>

fun rows_of :: "ev \<Rightarrow> nat" where
  "rows_of (QueryE q r) = answered_by r"
| "rows_of e = 0"

definition answered :: "ev list \<Rightarrow> nat" where
  "answered h = sum_list (map rows_of h)"

lemma pstep_spends: "pstep A T p e T' p' \<Longrightarrow> spends p n \<Longrightarrow> 0 < n \<and> spends p' (n - 1 + 10 * rows_of e)"
  by (erule pstep.cases) (simp_all, (metis answered_by_simps add_diff_assoc2 add_0_right mult_0_right Suc_leI)+)

section \<open>The budget of the node's programs\<close>

lemma spends_bodies:
  assumes "spends next n"
  shows "spends (send_one env s tx next) (10 + n)" "spends (confirm_one env s tx next) (10 + n)"
    "spends (refund_one env s tx next) (10 + n)" "spends (recover_one to from tx next) (10 + n)"
proof -
  have nx: "spends next m" if "n \<le> m" for m using assms that by (rule spends_mono)
  show "spends (send_one env s tx next) (10 + n)"
    by (auto simp: send_one_def getTransfer_def transferIn_def gateway_GetFee_def db_defs Let_def
        nx split: option.splits sum.splits)
  show "spends (confirm_one env s tx next) (10 + n)"
    by (auto simp: confirm_one_def getTransfer_def confirm_def db_defs nx
        split: option.splits sum.splits)
  show "spends (refund_one env s tx next) (10 + n)"
    by (auto simp: refund_one_def refund_pending_def getTransfer_def confirm_def refund_def db_defs
        nx split: option.splits sum.splits list.splits)
  show "spends (recover_one to from tx next) (10 + n)"
    by (simp add: recover_one_def db_defs nx)
qed

lemma spends_for_each:
  assumes "\<And>x k n. spends k n \<Longrightarrow> spends (body x k) (10 + n)" "spends k n"
  shows "spends (for_each body xs k) (10 * length xs + n)"
proof (induction xs)
  case (Cons x xs)
  from assms(1) [OF Cons.IH, of x] show ?case by (simp add: add.assoc)
qed (simp add: assms(2))

lemma spends_round:
  assumes body: "\<And>x k n. spends k n \<Longrightarrow> spends (body x k) (10 + n)" and "spends last_step n"
  shows "spends (Query q (\<lambda>r. case r of Inl e \<Rightarrow> last_step | Inr txs \<Rightarrow> for_each body txs last_step))
      (1 + n)"
proof -
  have "spends (for_each body xs last_step) (n + 10 * length xs)" for xs
    using spends_for_each [OF body assms(2)] by (simp add: add.commute)
  with assms(2) show ?thesis by (simp split: sum.splits)
qed

lemma spends_timed_round:
  assumes "\<And>x k n. spends k n \<Longrightarrow> spends (body x k) (10 + n)" "spends last_step n"
  shows "spends (Now (\<lambda>t. Query (q t)
    (\<lambda>r. case r of Inl e \<Rightarrow> last_step | Inr txs \<Rightarrow> for_each body txs last_step))) (2 + n)"
  using spends_round [OF assms] by simp

lemma spends_recover:
  assumes "spends k n"
  shows "spends (processRecoverTimeoutPendingTransferIn k) (2 + n)"
    "spends (processRecoverTimeoutPendingConfirm k) (2 + n)"
    "spends (processRecoverTimeoutPendingRefund k) (2 + n)"
  unfolding processRecoverTimeoutPendingTransferIn_def processRecoverTimeoutPendingConfirm_def
    processRecoverTimeoutPendingRefund_def db_defs
  by (rule spends_timed_round spends_bodies assms | assumption)+

lemma spends_out: "spends (monitorLogTransferOut env s bc eLog) 6"
  by (auto simp: monitorLogTransferOut_def db_defs split: option.splits sum.splits)

lemma node_spends:
  assumes "p \<in> node_programs env s"
  shows "spends p 6"
proof -
  have "spends (processTrySendTransferIn env s) (2 + 0)" "spends (processTryRefundTransferIn env s) (2 + 0)"
    "spends (processTryConfirmTransfer env s) (1 + 0)"
    unfolding processTrySendTransferIn_def processTryConfirmTransfer_def
      processTryRefundTransferIn_def db_defs
    by (rule spends_timed_round spends_round spends_bodies spends.simps(1) [THEN iffD2, OF TrueI] | assumption)+
  then have "spends (processTrySendTransferIn env s) 6" "spends (processTryRefundTransferIn env s) 6"
    "spends (processTryConfirmTransfer env s) 6"
    by (auto intro: spends_mono)
  moreover have "spends (processRecoverTimeoutPendingTransferIn (processRecoverTimeoutPendingConfirm
      (processRecoverTimeoutPendingRefund (Done False)))) 6"
    using spends_recover(1) [OF spends_recover(2) [OF spends_recover(3) [of "Done False" 0]]] by simp
  moreover have "spends (monitorLogTransferIn s eLog) 6" "spends (monitorLogConfirm eLog) 6"
    "spends (monitorLogRefund eLog) 6" for eLog
    by (auto simp: monitorLogTransferIn_def monitorLogConfirm_def monitorLogRefund_def split: sum.splits)
  ultimately show ?thesis using assms spends_out by (auto elim!: node_programs_cases)
qed

text \<open>Steps taken and steps left stay within the budget.\<close>

definition in_budget :: "ev list \<Rightarrow> proc \<Rightarrow> bool" where
  "in_budget h p \<longleftrightarrow> (\<exists>n. spends p n \<and> length h + n \<le> 6 + 10 * answered h)"

interpretation budget: thread_invariant A "node_programs env s" in_budget for A env s
proof unfold_locales
  show "in_budget [] p" if "p \<in> node_programs env s" for p
    using node_spends [OF that] by (auto simp: in_budget_def answered_def)
next
  fix T p e T' p' h
  assume s: "pstep A T p e T' p'" "in_budget h p"
  then obtain n where n: "spends p n" "length h + n \<le> 6 + 10 * answered h"
    by (auto simp: in_budget_def)
  from pstep_spends [OF s(1) n(1)] n(2) show "in_budget (e # h) p'"
    by (auto simp: in_budget_def answered_def intro!: exI [of _ "n - 1 + 10 * rows_of e"])
qed

section \<open>No panic\<close>

text \<open>\<open>calm A p\<close>: no execution of \<open>p\<close> with answers in \<open>A\<close> panics.\<close>

primrec calm :: "(ev \<Rightarrow> bool) \<Rightarrow> proc \<Rightarrow> bool" where
  "calm A (Done b) = True"
| "calm A Panic = False"
| "calm A (Now k) = (\<forall>t. calm A (k t))"
| "calm A (Exec s k) = (\<forall>r. calm A (k r))"
| "calm A (Query q k) = (\<forall>r. calm A (k r))"
| "calm A (BlockNumber c k) = (\<forall>n. calm A (k n))"
| "calm A (CallContract c a n m k) = (\<forall>r. A (CallE c a n m r) \<longrightarrow> calm A (k r))"
| "calm A (FeeRpc q k) = (\<forall>r. calm A (k r))"
| "calm A (Transact c a m k) = (\<forall>r. calm A (k r))"
| "calm A (Sleep d p) = calm A p"

text \<open>The contract answers in its own types.\<close>

definition typed_answers :: "(ev \<Rightarrow> bool) \<Rightarrow> bool" where
  "typed_answers A \<longleftrightarrow>
     (\<forall>c a n tid r. A (CallE c a n (CBridge_transfers_call tid) r) \<longrightarrow> CBridge_Transfers r \<noteq> None)"

text \<open>No two configured tokens have decimals 64 or more apart.\<close>

definition decimals_close :: "server \<Rightarrow> bool" where
  "decimals_close s \<longleftrightarrow>
     (\<forall>c a sd c' a' dd. lookup2 (SV_chainTokenDecimalMap s) c a = Some sd \<longrightarrow>
        lookup2 (SV_chainTokenDecimalMap s) c' a' = Some dd \<longrightarrow> unat sd - unat dd < 64)"

lemma calm_getTransfer:
  assumes "typed_answers A" "\<And>r. calm A (k r)"
  shows "calm A (getTransfer env bc tid k)"
proof -
  have "CBridge_Transfers r \<noteq> None" if "A (CallE c a n (CBridge_transfers_call tid) r)" for c a n r
    using assms(1) that unfolding typed_answers_def by blast
  with assms(2) show ?thesis by (fastforce simp: getTransfer_def split: option.splits sum.splits)
qed

lemma calm_bodies:
  assumes "typed_answers A" "calm A next"
  shows "calm A (send_one env s tx next)" "calm A (confirm_one env s tx next)"
    "calm A (refund_one env s tx next)" "calm A (recover_one to from tx next)"
  using assms
  by (auto simp: send_one_def confirm_one_def refund_one_def refund_pending_def recover_one_def
      transferIn_def confirm_def refund_def gateway_GetFee_def db_defs Let_def
      split: option.splits sum.splits list.splits intro!: calm_getTransfer)

lemma calm_for_each:
  "(\<And>x k. calm A k \<Longrightarrow> calm A (body x k)) \<Longrightarrow> calm A k \<Longrightarrow> calm A (for_each body xs k)"
  by (induction xs) simp_all

lemma calm_rounds:
  assumes "typed_answers A" "calm A k"
  shows "calm A (for_each (send_one env s) xs k)" "calm A (for_each (confirm_one env s) xs k)"
    "calm A (for_each (refund_one env s) xs k)" "calm A (for_each (recover_one to from) xs k)"
  using assms by (auto intro!: calm_for_each calm_bodies)

lemma calm_out:
  assumes "decimals_close s"
  shows "calm A (monitorLogTransferOut env s bc eLog)"
proof -
  have ok: "dst_amount am sd dd \<noteq> None"
    if "lookup2 (SV_chainTokenDecimalMap s) c a = Some sd" "lookup2 (SV_chainTokenDecimalMap s) c' a' = Some dd"
    for c a sd c' a' dd am
    using assms that dst_amount_panics [of am sd dd] unfolding decimals_close_def by (meson not_le)
  show ?thesis
    by (auto simp: monitorLogTransferOut_def db_defs split: option.splits sum.splits) (metis ok)
qed

lemma node_calm:
  assumes "typed_answers A" "decimals_close s" "p \<in> node_programs env s"
  shows "calm A p"
  using assms(3) by (rule node_programs_cases)
    (auto simp: calm_out [OF assms(2)] calm_rounds [OF assms(1)] monitorLogTransferIn_def monitorLogConfirm_def
      monitorLogRefund_def processTrySendTransferIn_def processTryConfirmTransfer_def
      processTryRefundTransferIn_def processRecoverTimeoutPendingTransferIn_def
      processRecoverTimeoutPendingConfirm_def processRecoverTimeoutPendingRefund_def db_defs
      split: sum.splits)

lemma pstep_calm: "pstep A T p e T' p' \<Longrightarrow> calm A p \<Longrightarrow> calm A p'"
  by (erule pstep.cases) simp_all

interpretation calmness: thread_invariant A "node_programs env s"
  "\<lambda>h p. typed_answers A \<and> decimals_close s \<longrightarrow> calm A p" for A env s
  by unfold_locales (auto intro: node_calm pstep_calm)

section \<open>Every goroutine can be completed\<close>

lemma run_alone_calm:
  assumes "admits A w" "calm A p"
  shows "snd (snd (run_alone w p T h)) \<noteq> None"
  using assms(2)
proof (induction p arbitrary: T h)
  case (CallContract c a n m k)
  have "A (CallE c a n m (O_Call w c m))" using assms(1) unfolding admits_def by blast
  with CallContract show ?case by simp
qed simp_all

lemma thread_completes:
  assumes "sys_reach A (node_programs env s) (T0, []) (T, ths)" "i < length ths" "ths ! i = (h, p)"
    and "admits A w" "typed_answers A" "decimals_close s"
  obtains T' h' b where "sys_reach A (node_programs env s) (T0, []) (T', ths[i := (h', Done b)])"
proof -
  have "(h, p) \<in> set ths" using assms(2,3) by (metis nth_mem)
  with calmness.thread [OF assms(1)] assms(5,6) have "calm A p" by blast
  obtain T' h' r where run: "run_alone w p T h = (T', h', r)" by (metis prod_cases3)
  with run_alone_calm [OF assms(4) \<open>calm A p\<close>, of T h] obtain b where b: "r = Some b" by auto
  from run_thread [OF assms(4,1,2,3) run] b show ?thesis by (intro that) (simp add: ended_def)
qed

end
