(* ===== verification/Relay_Origin.thy ===== *)
theory Relay_Origin
  imports Relay_Inserts Relay_Protocol Relay_Trace Relay_Progress
begin

text \<open>
  Where rows come from. If every log of a new transfer out that a chain's monitor delivers is the
  one event its contract emitted under that id, then each row of the table is made from such an
  event, in all interleavings, and so is each transaction of the send loop: what the node pays out
  on one chain was deposited to it on another.
\<close>

section \<open>Induction on the states of the node\<close>

lemma sys_reach_mono:
  assumes "sys_reach A P s0 s" "P \<subseteq> P'"
  shows "sys_reach A P' s0 s"
  using assms(1)
proof (induction rule: sys_reach.induct)
  case (step s s')
  from step.hyps(2) assms(2) have "sys_step A P' s s'"
    by (auto elim!: sys_step.cases intro: sys_step.intros)
  with step.IH show ?case by (rule sys_reach.step)
qed (rule sys_reach.refl)

lemma node_induct [consumes 2, case_names init spawn run crash]:
  assumes "sys_reach A P ([], []) (T, ths)" "P \<subseteq> node_programs env s"
    and "J [] []"
    and "\<And>T ths p. J T ths \<Longrightarrow> p \<in> P \<Longrightarrow> J T (ths @ [([], p)])"
    and "\<And>T ths i h p e T' p'. J T ths \<Longrightarrow> i < length ths \<Longrightarrow> ths ! i = (h, p) \<Longrightarrow>
      sys_reach A P ([], []) (T, ths) \<Longrightarrow> relay_inv T \<Longrightarrow> rsafe A p T \<Longrightarrow> relay_ext T T' \<Longrightarrow>
      pstep A T p e T' p' \<Longrightarrow> J T' (ths[i := (e # h, p')])"
    and "\<And>T ths. J T ths \<Longrightarrow> J T []"
  shows "J T ths"
proof -
  have "J (fst st) (snd st)" if "sys_reach A P ([], []) st" for st
    using that
  proof (induction rule: sys_reach.induct)
    case refl
    show ?case using assms(3) by simp
  next
    case (step st st')
    obtain T ths where st: "st = (T, ths)" by (cases st)
    from step.hyps(1) have "sys_reach A (node_programs env s) ([], []) (T, ths)"
      unfolding st using assms(2) by (rule sys_reach_mono)
    then have inv: "relay_inv T" "\<forall>th\<in>set ths. rsafe A (snd th) T"
      using node_system by (auto simp: relay_inv_def keys_distinct_def)
    from step.hyps(2) show ?case unfolding st
    proof (cases rule: sys_step.cases)
      case (spawn p)
      with step.IH assms(4) show ?thesis by (simp add: st)
    next
      case (run i h p e T' p')
      have "(h, p) \<in> set ths" using run(2,3) by (metis nth_mem)
      then have "rsafe A p T" using inv(2) by auto
      moreover have "relay_ext T T'" using relay.pstep_safe [OF run(4) inv(1) calculation] by simp
      ultimately show ?thesis
        using run step.IH step.hyps(1) assms(5) [OF _ run(2,3) _ inv(1) _ _ run(4)] by (simp add: st)
    next
      case crash
      with step.IH assms(6) show ?thesis by (simp add: st)
    qed
  qed
  from this [OF assms(1)] show ?thesis by simp
qed

text \<open>What a query ever answered is still in the table, grown.\<close>

lemma node_seen:
  assumes "sys_reach A P ([], []) (T, ths)" "P \<subseteq> node_programs env s"
    and "(h, p) \<in> set ths" "QueryE q (Inr rs) \<in> set h" "tx \<in> set rs"
  shows "\<exists>r0 r. tx = scan r0 \<and> find_row (TransferId tx) T = Some r \<and> row_grows r0 r"
proof -
  let ?S = "\<lambda>T tx. \<exists>r0 r. tx = scan r0 \<and> find_row (TransferId tx) T = Some r \<and> row_grows r0 r"
  have later: "?S T' tx" if "?S T tx" "relay_ext T T'" for T T' tx
    using that unfolding relay_ext_def by (metis row_grows_trans)
  from assms(1,2) have "\<forall>(h, p)\<in>set ths. \<forall>q rs tx. QueryE q (Inr rs) \<in> set h \<longrightarrow> tx \<in> set rs \<longrightarrow> ?S T tx"
  proof (induction rule: node_induct)
    case (run T ths i h p e T' p')
    have new: "?S T' tx" if eq: "e = QueryE q (Inr rs)" "tx \<in> set rs" for q rs tx
    proof -
      from run.hyps(7) eq(1) have "query_ok q T rs" "T' = T" by (auto elim: pstep.cases)
      then obtain r where "r \<in> set T" "tx = scan r" using eq(2) by (blast elim: query_ok_set)
      then show ?thesis
        using find_row_unique run.hyps(4) row_grows_refl unfolding relay_inv_def \<open>T' = T\<close> by fastforce
    qed
    have mem: "(h, p) \<in> set ths" using run.hyps(1,2) by (metis nth_mem)
    show ?case
    proof (clarify)
      fix h1 p1 q rs tx
      assume th: "(h1, p1) \<in> set (ths[i := (e # h, p')])" "QueryE q (Inr rs) \<in> set h1" "tx \<in> set rs"
      then have "h1 = e # h \<or> (h1, p1) \<in> set ths"
        using set_update_subset_insert [of ths i "(e # h, p')"] by blast
      with th(2) mem consider "e = QueryE q (Inr rs)"
        | h' p' where "(h', p') \<in> set ths" "QueryE q (Inr rs) \<in> set h'"
        by fastforce
      then show "?S T' tx"
      proof cases
        case 1
        then show ?thesis using th(3) by (rule new)
      next
        case (2 h' p')
        with run.IH th(3) have "?S T tx" by blast
        then show ?thesis using run.hyps(6) by (rule later)
      qed
    qed
  qed auto
  with assms(3-5) show ?thesis by blast
qed

text \<open>What holds of inserted rows and survives growth holds of all rows.\<close>

lemma node_rows:
  assumes "sys_reach A P ([], []) (T, ths)" "P \<subseteq> node_programs env s"
    and traced: "\<And>p. p \<in> P \<Longrightarrow> traced A Q p []"
    and inserted: "\<And>h tx t r. Q h (ExecE (InsertTransferS tx t) r) \<Longrightarrow> G (inserted_row tx t)"
    and grows: "\<And>r r'. G r \<Longrightarrow> row_grows r r' \<Longrightarrow> G r'"
  shows "\<forall>r\<in>set T. G r"
  using assms(1,2)
proof (induction rule: node_induct)
  case (run T ths i h p e T' p')
  have "(h, p) \<in> set ths" using run.hyps(1,2) by (metis nth_mem)
  then have "traced A Q p h" using sys_traced [OF run.hyps(3) traced] by auto
  from pstep_traced [OF run.hyps(7) this] have Q: "Q h e" by blast
  have stmt: "\<forall>r\<in>set (apply_stmt st T). G r"
    if "relay_ok T st" "is_insert st \<Longrightarrow> \<exists>r. Q h (ExecE st r)" for st
  proof (cases "is_insert st")
    case True
    then obtain tx t where "st = InsertTransferS tx t" by (rule insert_cases)
    with that(2) have st: "st = InsertTransferS tx t" "G (inserted_row tx t)" using inserted by auto
    with run.IH set_insert_row(1) [of "inserted_row tx t" T] show ?thesis by auto
  next
    case False
    show ?thesis
    proof
      fix r' assume "r' \<in> set (apply_stmt st T)"
      then obtain r where r: "r \<in> set T" "r' = (if stmt_sel st r then stmt_upd st r else r)"
        using row_update.member [OF stmt_row_update [OF False]] by metis
      then have "row_grows r r'"
        using relay_ok_row [OF that(1) False find_row_unique] run.hyps(4) by (simp add: relay_inv_def)
      with r(1) run.IH grows show "G r'" by blast
    qed
  qed
  from run.hyps(7) show ?case
  proof (cases rule: pstep.cases)
    case (exec st k)
    with run.hyps(4,5) have "relay_ok T st" by (simp add: relay.X_refl)
    with stmt exec Q show ?thesis by blast
  next
    case (exec_unacknowledged st k e')
    with run.hyps(4,5) have "relay_ok T st" by (simp add: relay.X_refl)
    with stmt exec_unacknowledged Q show ?thesis by blast
  qed (use run.IH in simp_all)
qed simp_all

section \<open>Deposits\<close>

text \<open>\<open>dep\<close> holds the transfers out the contracts ever take in: under its id, the chain and the
  event of each.\<close>

type_synonym deposits = "hash \<Rightarrow> (u64 \<times> LogNewTransferOut) option"

definition from_deposit :: "deposits \<Rightarrow> bridgeConfig \<Rightarrow> ethlog \<Rightarrow> bool" where
  "from_deposit dep bc eLog \<longleftrightarrow>
     (\<forall>ev. ParseEvent to_LogNewTransferOut evLogTransferOut eLog = Inr ev \<longrightarrow>
        dep (LO_TransferId ev) = Some (chain_uint64 bc, ev))"

definition clock_sane :: "(ev \<Rightarrow> bool) \<Rightarrow> bool" where
  "clock_sane A \<longleftrightarrow> (\<forall>t. A (NowE t) \<longrightarrow> 0 \<le> t \<and> t < 2 ^ 63 * second)"

text \<open>Where a deposit of chain \<open>c\<close> goes: the token of the same name on the destination chain, and
  the amount in its decimals.\<close>

definition token_route :: "server \<Rightarrow> u64 \<Rightarrow> LogNewTransferOut \<Rightarrow> addr \<Rightarrow> int \<Rightarrow> bool" where
  "token_route s c ev dstToken amount \<longleftrightarrow>
     (\<exists>tokenName sd dd.
        lookup2 (SV_chainTokenNameMap s) c (LO_Token ev) = Some tokenName \<and>
        lookup2 (SV_chainTokenAddrMap s) (LO_DstChainId ev) tokenName = Some dstToken \<and>
        lookup2 (SV_chainTokenDecimalMap s) c (LO_Token ev) = Some sd \<and>
        lookup2 (SV_chainTokenDecimalMap s) (LO_DstChainId ev) dstToken = Some dd \<and>
        dst_amount (LO_Amount ev) sd dd = Some amount)"

lemma token_route_det: "token_route s c ev tk am \<Longrightarrow> token_route s c ev tk' am' \<Longrightarrow> tk' = tk \<and> am' = am"
  by (auto simp: token_route_def)

definition deposit_routed :: "deposits \<Rightarrow> server \<Rightarrow> u64 \<Rightarrow> LogNewTransferOut \<Rightarrow> addr \<Rightarrow> int \<Rightarrow> bool" where
  "deposit_routed dep s c ev dstToken amount \<longleftrightarrow>
     dep (LO_TransferId ev) = Some (c, ev) \<and> LO_Receiver ev = SV_accountAddr s \<and>
     SV_chainMap s (LO_DstChainId ev) \<noteq> None \<and> token_route s c ev dstToken amount"

text \<open>A row that was inserted for a struct, up to what updates may have changed.\<close>

definition made_from :: "StoredTransfer \<Rightarrow> Transfer \<Rightarrow> bool" where
  "made_from r tx \<longleftrightarrow> (\<exists>t. fixed_cols r = fixed_cols (inserted_row tx t)) \<and> gross r = gross tx"

lemma made_from_inserted [simp]: "made_from (inserted_row tx t) tx"
  by (auto simp: made_from_def gross_def)

lemma made_from_grows: "made_from r tx \<Longrightarrow> row_grows r r' \<Longrightarrow> made_from r' tx"
  by (simp add: made_from_def row_grows_def)

lemma made_fromD:
  assumes "made_from r tx"
  shows "TransferId r = TransferId tx" "ChainId r = ChainId tx" "Token r = Token tx"
    "TransferType r = TransferType tx" "TimeLock r = TimeLock tx" "HashLock r = HashLock tx"
    "RelatedTid r = RelatedTid tx" "RelatedChainId r = RelatedChainId tx"
    "RelatedToken r = RelatedToken tx" "Sender r = Sender tx" "Receiver r = Receiver tx"
    "gross r = gross tx"
  using assms by (auto simp: made_from_def dest: fixed_colsD)

definition out_row :: "deposits \<Rightarrow> node_env \<Rightarrow> server \<Rightarrow> StoredTransfer \<Rightarrow> bool" where
  "out_row dep env s r \<longleftrightarrow>
     (\<exists>bc eLog ev dstToken amount now.
        deposit_routed dep s (chain_uint64 bc) ev dstToken amount \<and>
        made_from r (out_transfer env bc eLog ev dstToken now))"

definition in_row :: "deposits \<Rightarrow> node_env \<Rightarrow> server \<Rightarrow> StoredTransfer \<Rightarrow> bool" where
  "in_row dep env s r \<longleftrightarrow>
     (\<exists>bc ev dstToken amount now.
        deposit_routed dep s (chain_uint64 bc) ev dstToken amount \<and>
        0 \<le> now \<and> now < 2 ^ 63 * second \<and> 3600 * 16 \<le> sint (src_timeout ev now) \<and>
        made_from r (in_transfer env bc ev dstToken amount now))"

definition deposit_row :: "deposits \<Rightarrow> node_env \<Rightarrow> server \<Rightarrow> StoredTransfer \<Rightarrow> bool" where
  "deposit_row dep env s r \<longleftrightarrow> out_row dep env s r \<or> in_row dep env s r"

lemma deposit_row_grows: "deposit_row dep env s r \<Longrightarrow> row_grows r r' \<Longrightarrow> deposit_row dep env s r'"
  unfolding deposit_row_def out_row_def in_row_def by (meson made_from_grows)

section \<open>Every row comes from a deposit\<close>

definition deposit_licensed :: "deposits \<Rightarrow> node_env \<Rightarrow> server \<Rightarrow> ev list \<Rightarrow> ev \<Rightarrow> bool" where
  "deposit_licensed dep env s older e \<longleftrightarrow>
     (\<forall>tx t r. e = ExecE (InsertTransferS tx t) r \<longrightarrow> deposit_row dep env s (inserted_row tx t))"

interpretation deposit: insert_watch A "deposit_licensed dep env s" for A dep env s
  by unfold_locales (auto simp: deposit_licensed_def)

lemma deposit_routedI:
  assumes "from_deposit dep bc eLog" "ParseEvent to_LogNewTransferOut evLogTransferOut eLog = Inr ev"
    and "LO_Receiver ev = SV_accountAddr s" "SV_chainMap s (LO_DstChainId ev) = Some dst"
    and "lookup2 (SV_chainTokenNameMap s) (chain_uint64 bc) (LO_Token ev) = Some tokenName"
    and "SV_chainTokenAddrMap s (LO_DstChainId ev) = Some addrs" "addrs tokenName = Some dstToken"
    and "lookup2 (SV_chainTokenDecimalMap s) (chain_uint64 bc) (LO_Token ev) = Some sd"
    and "lookup2 (SV_chainTokenDecimalMap s) (LO_DstChainId ev) dstToken = Some dd"
    and "dst_amount (LO_Amount ev) sd dd = Some amount"
  shows "deposit_routed dep s (chain_uint64 bc) ev dstToken amount"
proof -
  have "lookup2 (SV_chainTokenAddrMap s) (LO_DstChainId ev) tokenName = Some dstToken"
    using assms(6,7) by (simp add: lookup2_def)
  with assms show ?thesis unfolding deposit_routed_def token_route_def from_deposit_def by blast
qed

lemma deposit_inserts:
  assumes "deposit_routed dep s (chain_uint64 bc) ev dstToken amount"
  shows "deposit_licensed dep env s h (ExecE (InsertTransferS (out_transfer env bc eLog ev dstToken now) t) r)"
    and "0 \<le> now \<and> now < 2 ^ 63 * second \<Longrightarrow> 57600 \<le> sint (src_timeout ev now) \<Longrightarrow>
      deposit_licensed dep env s h (ExecE (InsertTransferS (in_transfer env bc ev dstToken amount now) t) r)"
  unfolding deposit_licensed_def deposit_row_def
proof -
  have "out_row dep env s (inserted_row (out_transfer env bc eLog ev dstToken now) t)"
    unfolding out_row_def using assms made_from_inserted by blast
  then show "\<forall>tx ta ra. ExecE (InsertTransferS (out_transfer env bc eLog ev dstToken now) t) r =
      ExecE (InsertTransferS tx ta) ra \<longrightarrow>
      out_row dep env s (inserted_row tx ta) \<or> in_row dep env s (inserted_row tx ta)" by simp
next
  assume now: "0 \<le> now \<and> now < 2 ^ 63 * second" "57600 \<le> sint (src_timeout ev now)"
  have "3600 * 16 \<le> sint (src_timeout ev now)" using now(2) by simp
  with now(1) have "in_row dep env s (inserted_row (in_transfer env bc ev dstToken amount now) t)"
    unfolding in_row_def using assms made_from_inserted by blast
  then show "\<forall>tx ta ra. ExecE (InsertTransferS (in_transfer env bc ev dstToken amount now) t) r =
      ExecE (InsertTransferS tx ta) ra \<longrightarrow>
      out_row dep env s (inserted_row tx ta) \<or> in_row dep env s (inserted_row tx ta)" by simp
qed

lemma deposit_traced_out:
  assumes "from_deposit dep bc eLog" "clock_sane A"
  shows "traced A (deposit_licensed dep env s) (monitorLogTransferOut env s bc eLog) []"
  unfolding monitorLogTransferOut_def
  using assms
  by (auto simp: db_defs not_less clock_sane_def split: option.splits sum.splits
      intro!: deposit_inserts intro: deposit_routedI)

lemma node_deposit_traced:
  assumes "clock_sane A" "p \<in> node_programs_from (from_deposit dep) env s"
  shows "traced A (deposit_licensed dep env s) p []"
  using assms(2) by (rule deposit.node [rotated]) (rule deposit_traced_out [OF _ assms(1)])

lemma node_deposit_rows:
  assumes "sys_reach A (node_programs_from (from_deposit dep) env s) ([], []) (T, ths)" "clock_sane A"
    and "r \<in> set T"
  shows "deposit_row dep env s r"
proof -
  have "\<forall>r\<in>set T. deposit_row dep env s r"
    by (rule node_rows [OF assms(1) node_programs_from_subset node_deposit_traced [OF assms(2)]])
      (auto simp: deposit_licensed_def intro: deposit_row_grows)
  with assms(3) show ?thesis by blast
qed

lemma in_row_D:
  assumes "deposit_row dep env s r" "TransferType r = TRANSFER_TYPE_IN"
  obtains bc ev dstToken amount now where
    "deposit_routed dep s (chain_uint64 bc) ev dstToken amount" "0 \<le> now" "now < 2 ^ 63 * second"
    "3600 * 16 \<le> sint (src_timeout ev now)" "made_from r (in_transfer env bc ev dstToken amount now)"
proof -
  have "\<not> out_row dep env s r"
    using assms(2) by (auto simp: out_row_def dest: made_fromD(4))
  with assms(1) that show thesis unfolding deposit_row_def in_row_def by blast
qed

lemma in_row_lock:
  assumes "0 \<le> now" "now < 2 ^ 63 * second" "3600 * 16 \<le> sint (src_timeout ev now)"
    and "made_from r (in_transfer env bc ev dstToken amount now)"
  shows "TimeLock r + 8 * hour < (uint (LO_Timelock ev) + 1) * second"
  using timelock_margin [OF assms(1-3)] made_fromD(5) [OF assms(4)]
  by (simp only: in_transfer_def Transfer.simps)

section \<open>Payouts\<close>

text \<open>The clock readings of a goroutine are readings the outside may give.\<close>

definition clocked :: "(ev \<Rightarrow> bool) \<Rightarrow> ev list \<Rightarrow> proc \<Rightarrow> bool" where
  "clocked A h p \<longleftrightarrow> (\<forall>t. NowE t \<in> set h \<longrightarrow> A (NowE t))"

interpretation clocked: thread_invariant A P "clocked A" for A P
  by unfold_locales (auto simp: clocked_def elim: pstep.cases)

text \<open>A deposit pays for a call: who receives it, on which chain, in which token, under which hash
  and time lock, and how much, with the fee the gateway named for it.\<close>

definition pays_for ::
  "deposits \<Rightarrow> node_env \<Rightarrow> server \<Rightarrow> ev list \<Rightarrow> u64 \<Rightarrow> addr \<Rightarrow>
     addr \<Rightarrow> addr \<Rightarrow> int \<Rightarrow> hash \<Rightarrow> u64 \<Rightarrow> u64 \<Rightarrow> hash \<Rightarrow> bool" where
  "pays_for dep env s older c a dstAddress token amount hashlock timelock srcChainId srcTransferId \<longleftrightarrow>
     (\<exists>ev bc gross_amount fee resp.
        dep srcTransferId = Some (srcChainId, ev) \<and> LO_TransferId ev = srcTransferId \<and>
        LO_Receiver ev = SV_accountAddr s \<and>
        SV_chainMap s (LO_DstChainId ev) = Some bc \<and> c = chain_uint64 bc \<and> a = BG_contract bc \<and>
        LO_DstAddress ev = dstAddress \<and> LO_Hashlock ev = hashlock \<and>
        uint timelock + 8 * 3600 \<le> uint (LO_Timelock ev) \<and>
        token_route s srcChainId ev token gross_amount \<and>
        FeeE \<lparr>FQ_TransferOutId = HashString (NE_lib env) srcTransferId\<rparr> resp \<in> set older \<and>
        fee_of resp = Inr fee \<and> fee \<le> gross_amount \<and> amount = gross_amount - fee)"

lemma lock_seconds:
  assumes "0 < lock" "lock + 8 * hour < (uint (u :: u64) + 1) * second"
  shows "uint (of_int (lock div second) :: u64) + 8 * 3600 \<le> uint u"
proof -
  have q: "lock div second + 28800 \<le> uint u"
    using assms(2) by simp
  moreover have "0 \<le> lock div second" using assms(1) by simp
  moreover have "uint u < 2 ^ 64" using uint_lt2p [of u] by simp
  ultimately have "uint (of_int (lock div second) :: u64) = lock div second"
    by (simp add: uint_word_of_int)
  with q show ?thesis by simp
qed

lemma send_license_steps:
  assumes "send_license env s older c a (CBridge_TransferIn d tk am hl l sc sid)"
  obtains tx bc fee resp t0 txs where
    "SV_chainMap s (ChainId tx) = Some bc" "c = chain_uint64 bc" "a = BG_contract bc"
    "CBridge_TransferIn d tk am hl l sc sid = send_call tx fee" "TransferType tx = TRANSFER_TYPE_IN"
    "t0 + hour < TimeLock tx" "fee_of resp = Inr fee" "fee \<le> gross tx"
    "QueryE (StartTransferInQ (t0 + hour)) (Inr txs) \<in> set older" "tx \<in> set txs" "NowE t0 \<in> set older"
    "FeeE \<lparr>FQ_TransferOutId = HashString (NE_lib env) (RelatedTid tx)\<rparr> resp \<in> set older"
  using assms unfolding send_license_def Let_def send_checks_def by (auto simp: asked_def intro: that)

lemma node_payout:
  assumes reach: "sys_reach A (node_programs_from (from_deposit dep) env s) ([], []) (T, ths)"
    and sane: "clock_sane A"
    and th: "(newer @ TransactE c a (Inr (CBridge_TransferIn d tk am hl l sc sid)) err # older, p) \<in> set ths"
  shows "pays_for dep env s older c a d tk am hl l sc sid"
proof -
  note all = sys_reach_mono [OF reach node_programs_from_subset]
  have "send_license env s older c a (CBridge_TransferIn d tk am hl l sc sid)"
    using node_licensed [OF all th] by (auto simp: confirm_license_def refund_license_def)
  then obtain tx bc fee resp t0 txs where tx:
    "SV_chainMap s (ChainId tx) = Some bc" "c = chain_uint64 bc" "a = BG_contract bc"
    "CBridge_TransferIn d tk am hl l sc sid = send_call tx fee" "TransferType tx = TRANSFER_TYPE_IN"
    "t0 + hour < TimeLock tx" "fee_of resp = Inr fee" "fee \<le> gross tx"
    "QueryE (StartTransferInQ (t0 + hour)) (Inr txs) \<in> set older" "tx \<in> set txs" "NowE t0 \<in> set older"
    "FeeE \<lparr>FQ_TransferOutId = HashString (NE_lib env) (RelatedTid tx)\<rparr> resp \<in> set older"
    by (rule send_license_steps)
  have "A (NowE t0)" using clocked.thread [OF reach th] tx(11) by (simp add: clocked_def)
  then have t0: "0 \<le> t0" using sane by (simp add: clock_sane_def)
  obtain r0 r where r: "tx = scan r0" "find_row (TransferId tx) T = Some r" "row_grows r0 r"
    using node_seen [OF reach node_programs_from_subset th _ tx(10), of "StartTransferInQ (t0 + hour)"]
      tx(9) by auto
  have fixed: "fixed_cols r = fixed_cols r0" and money: "gross r = gross tx"
    using r(1,3) by (simp_all add: row_grows_def)
  note same = fixed_colsD [OF fixed]
  have "deposit_row dep env s r"
    using node_deposit_rows [OF reach sane] find_row_Some [OF r(2)] by blast
  then obtain bc' ev dstToken amount now where dr:
    "deposit_routed dep s (chain_uint64 bc') ev dstToken amount" "0 \<le> now" "now < 2 ^ 63 * second"
    "3600 * 16 \<le> sint (src_timeout ev now)" "made_from r (in_transfer env bc' ev dstToken amount now)"
    using tx(5) r(1) same by (auto elim: in_row_D)
  note row = made_fromD [OF dr(5), unfolded in_transfer_def, simplified]
  have call: "d = LO_DstAddress ev" "tk = dstToken" "am = amount - fee" "hl = LO_Hashlock ev"
    "l = of_int (TimeLock r div second)" "sc = chain_uint64 bc'" "sid = LO_TransferId ev" "gross tx = amount"
    using tx(4) row same money r(1)
    by (auto simp: send_call_def CBridge_TransferIn_def gross_def in_transfer_def)
  have "0 < TimeLock r" using t0 tx(6) r(1) same(5) by simp
  then have lock: "uint l + 8 * 3600 \<le> uint (LO_Timelock ev)"
    unfolding call(5) using in_row_lock [OF dr(2-5)] by (rule lock_seconds)
  have "ChainId tx = LO_DstChainId ev" "RelatedTid tx = LO_TransferId ev"
    using row same r(1) by simp_all
  with tx dr(1) call lock show ?thesis
    unfolding pays_for_def deposit_routed_def
    by (intro exI [of _ ev] exI [of _ bc] exI [of _ amount] exI [of _ fee] exI [of _ resp]) simp
qed

section \<open>Pairs of rows\<close>

text \<open>The id of a transfer in is a hash; the contracts never take in a deposit under one of them.\<close>

definition ids_apart :: "deposits \<Rightarrow> node_env \<Rightarrow> bool" where
  "ids_apart dep env \<longleftrightarrow>
     (\<forall>tid c ev. dep tid = Some (c, ev) \<longrightarrow>
        dep (getTransferId env (LO_Receiver ev) (LO_DstAddress ev) (LO_Hashlock ev) (LO_DstChainId ev)) = None)"

definition mirrors :: "server \<Rightarrow> StoredTransfer \<Rightarrow> StoredTransfer \<Rightarrow> bool" where
  "mirrors s out inb \<longleftrightarrow>
     TransferType out = TRANSFER_TYPE_OUT \<and>
     TransferId out = RelatedTid inb \<and> RelatedTid out = TransferId inb \<and>
     ChainId out = RelatedChainId inb \<and> RelatedChainId out = ChainId inb \<and>
     Token out = RelatedToken inb \<and> RelatedToken out = Token inb \<and>
     HashLock out = HashLock inb \<and>
     Receiver out = SV_accountAddr s \<and> Sender inb = SV_accountAddr s \<and>
     (\<exists>sd dd. lookup2 (SV_chainTokenDecimalMap s) (ChainId out) (Token out) = Some sd \<and>
        lookup2 (SV_chainTokenDecimalMap s) (ChainId inb) (Token inb) = Some dd \<and>
        dst_amount (gross out) sd dd = Some (gross inb)) \<and>
     (0 \<le> TimeLock out \<longrightarrow> TimeLock inb + 8 * hour < TimeLock out + second)"

lemma node_mirrors:
  assumes reach: "sys_reach A (node_programs_from (from_deposit dep) env s) ([], []) (T, ths)"
    and sane: "clock_sane A" and apart: "ids_apart dep env"
    and r: "r \<in> set T" "TransferType r = TRANSFER_TYPE_IN"
  shows "\<exists>x\<in>set T. mirrors s x r"
proof -
  have inv: "relay_inv T"
    using node_system(1) [OF sys_reach_mono [OF reach node_programs_from_subset]]
    by (simp add: relay_inv_def keys_distinct_def)
  obtain bc ev dstToken amount now where dr:
    "deposit_routed dep s (chain_uint64 bc) ev dstToken amount" "0 \<le> now" "now < 2 ^ 63 * second"
    "3600 * 16 \<le> sint (src_timeout ev now)" "made_from r (in_transfer env bc ev dstToken amount now)"
    using node_deposit_rows [OF reach sane r(1)] r(2) by (rule in_row_D)
  note row = made_fromD [OF dr(5), unfolded in_transfer_def, simplified]
  obtain x where x: "x \<in> set T" "TransferId x = LO_TransferId ev"
    using inv r row(7) unfolding relay_inv_def has_tid_def by force
  have "\<not> in_row dep env s x"
  proof
    assume "in_row dep env s x"
    then obtain bc2 ev2 tk2 am2 now2 where d2: "deposit_routed dep s (chain_uint64 bc2) ev2 tk2 am2"
      "made_from x (in_transfer env bc2 ev2 tk2 am2 now2)"
      unfolding in_row_def by blast
    from made_fromD(1) [OF d2(2)] x(2) have "LO_TransferId ev =
        getTransferId env (LO_Receiver ev2) (LO_DstAddress ev2) (LO_Hashlock ev2) (LO_DstChainId ev2)"
      by (simp add: in_transfer_def)
    with apart d2(1) dr(1) show False unfolding ids_apart_def deposit_routed_def by fastforce
  qed
  with node_deposit_rows [OF reach sane x(1)] obtain bc' eLog ev' dstToken' amount' now' where out:
    "deposit_routed dep s (chain_uint64 bc') ev' dstToken' amount'"
    "made_from x (out_transfer env bc' eLog ev' dstToken' now')"
    unfolding deposit_row_def out_row_def by blast
  note xrow = made_fromD [OF out(2), unfolded out_transfer_def, simplified]
  have id: "LO_TransferId ev' = LO_TransferId ev" by (rule box_equals [OF HOL.refl xrow(1) x(2)])
  have "dep (LO_TransferId ev) = Some (chain_uint64 bc', ev')"
    using out(1) unfolding deposit_routed_def id by blast
  moreover have "dep (LO_TransferId ev) = Some (chain_uint64 bc, ev)"
    using dr(1) unfolding deposit_routed_def by blast
  ultimately have ev: "chain_uint64 bc' = chain_uint64 bc" "ev' = ev" by (simp_all only: option.inject prod.inject)
  have tok: "dstToken' = dstToken" "amount' = amount"
    using out(1) dr(1) token_route_det unfolding ev deposit_routed_def by blast+
  have "TimeLock r + 8 * hour < TimeLock x + second" if "0 \<le> TimeLock x"
  proof -
    have "0 \<le> sint (LO_Timelock ev)" using that xrow(5) ev by simp
    then have "uint (LO_Timelock ev) = sint (LO_Timelock ev)"
      using sint_lt [of "LO_Timelock ev"] uint_sint [of "LO_Timelock ev"] by (simp add: take_bit_eq_mod)
    then have "TimeLock x + second = (uint (LO_Timelock ev) + 1) * second"
      using xrow(5) ev by (simp add: algebra_simps)
    with in_row_lock [OF dr(2-5)] show ?thesis by simp
  qed
  moreover have "gross x = LO_Amount ev" "gross r = amount"
    using xrow(12) row(12) ev by (simp_all add: gross_def)
  moreover have "\<exists>sd dd. lookup2 (SV_chainTokenDecimalMap s) (chain_uint64 bc) (LO_Token ev) = Some sd \<and>
      lookup2 (SV_chainTokenDecimalMap s) (LO_DstChainId ev) dstToken = Some dd \<and>
      dst_amount (LO_Amount ev) sd dd = Some amount"
    using dr(1) unfolding deposit_routed_def token_route_def by blast
  ultimately have "mirrors s x r"
    unfolding mirrors_def using row xrow ev tok dr(1) by (simp add: deposit_routed_def)
  with x(1) show ?thesis by blast
qed

end
