(* ===== verification/Relay_Pairs.thy ===== *)
theory Relay_Pairs
  imports SQL_System Relay_Origin
begin

text \<open>
  Which rows the table has, without any assumption on clocks, on chains or on what the queries
  answer: every row was inserted for a delivered log, and every transfer in has its transfer out.
  The facts concern columns that no time enters, so they hold of the programs and of the programs
  with the times a database keeps, and with the simulation of \<open>SQL_System\<close> of the rows of
  the database. The first section says when a node only uses times that the database keeps.
\<close>

section \<open>A clock of microseconds\<close>

text \<open>A sane clock that reads whole microseconds.\<close>

definition micro_clock :: "(ev \<Rightarrow> bool) \<Rightarrow> bool" where
  "micro_clock A \<longleftrightarrow> clock_sane A \<and> (\<forall>t. A (NowE t) \<longrightarrow> 1000 dvd t)"

text \<open>Locks within the next few hundred years: in \<open>chain2TimeLock\<close> the \<open>int64\<close> nanoseconds do
  not wrap.\<close>

definition near_locks :: "(bridgeConfig \<Rightarrow> ethlog \<Rightarrow> bool) \<Rightarrow> bool" where
  "near_locks D \<longleftrightarrow>
     (\<forall>bc eLog ev. D bc eLog \<longrightarrow> ParseEvent to_LogNewTransferOut evLogTransferOut eLog = Inr ev \<longrightarrow>
        uint (LO_Timelock ev) < 2 ^ 33)"

lemma micros_shift:
  assumes "1000 dvd (t :: int) + d" "1000 dvd d"
  shows "1000 dvd t"
  using dvd_diff [OF assms] by simp

lemma micros_bounds:
  "1000 dvd t - hour \<Longrightarrow> 1000 dvd (t :: int)" "1000 dvd t - 6 * minute \<Longrightarrow> 1000 dvd t"
  "1000 dvd t + 15 * minute \<Longrightarrow> 1000 dvd t"
  by (rule micros_shift [of t "- hour"], simp, simp, rule micros_shift [of t "- (6 * minute)"], simp, simp,
      rule micros_shift [of t "15 * minute"], simp, simp)

lemma same_times_watch:
  assumes "dal_doc db" "micro_clock A"
  shows "insert_watch A (same_times db)"
proof
  fix e h
  assume e: "\<not> inserts e" "clock_times A e"
  have micros: "1000 dvd t" if "A (NowE t)" for t
    using assms(2) that by (simp add: micro_clock_def)
  note keeps = DTime_micros [OF assms(1)] micros micros_bounds [OF micros]
  show "same_times db h e"
  proof (cases e)
    case (ExecE s r)
    with e show ?thesis by (cases s) (auto simp: same_times_def keeps)
  next
    case (QueryE q r)
    with e show ?thesis by (cases q) (auto simp: same_times_def keeps)
  qed (simp_all add: same_times_def)
qed

lemma chain2TimeLock_micros:
  assumes "0 \<le> now" "now < 2 ^ 63 * second" "1000 dvd now" "uint (LO_Timelock ev) < 2 ^ 33"
    and "3600 * 16 \<le> sint (src_timeout ev now)"
  shows "1000 dvd chain2TimeLock ev now"
proof -
  let ?x = "sint (src_timeout ev now)"
  have "uint (LO_Timelock ev) = now div second + ?x"
    using assms(1,2,5) by (intro src_timeout_true) auto
  moreover have "0 \<le> now div second" using assms(1) by simp
  ultimately have "?x \<le> 9223372036" using assms(4) by simp
  then have "sint (of_int ((?x - 28800) * second) :: u64) = (?x - 28800) * second"
    using assms(5) by (intro sint_of_int_bounds) auto
  then have "chain2TimeLock ev now = now + 1000 * ((?x - 28800) * 1000000)"
    by (simp add: chain2TimeLock_word)
  with assms(3) show ?thesis by (simp only: dvd_add dvd_triv_left)
qed

lemma same_times_inserts:
  assumes "dal_doc db" "1000 dvd t"
  shows "same_times db h (ExecE (InsertTransferS (out_transfer env bc eLog ev dstToken now) t) r)"
    "1000 dvd chain2TimeLock ev now \<Longrightarrow>
      same_times db h (ExecE (InsertTransferS (in_transfer env bc ev dstToken amount now) t) r)"
proof -
  have "1000 dvd sint (LO_Timelock ev) * second"
    using dvd_triv_right [of 1000 "sint (LO_Timelock ev) * 1000000"] by (simp add: mult.assoc)
  then show "same_times db h (ExecE (InsertTransferS (out_transfer env bc eLog ev dstToken now) t) r)"
    using DTime_micros [OF assms(1)] assms(2)
    by (simp add: same_times_def stored_tx_def out_transfer_def)
  assume "1000 dvd chain2TimeLock ev now"
  then show "same_times db h (ExecE (InsertTransferS (in_transfer env bc ev dstToken amount now) t) r)"
    using DTime_micros [OF assms(1)] assms(2)
    by (simp add: same_times_def stored_tx_def in_transfer_def)
qed

lemma same_times_out:
  assumes "dal_doc db" "micro_clock A" "near_locks D" "D bc eLog"
  shows "traced A (same_times db) (monitorLogTransferOut env s bc eLog) []"
proof -
  have sane: "0 \<le> t" "t < 2 ^ 63 * second" "1000 dvd t" if "A (NowE t)" for t
    using assms(2) that by (auto simp: micro_clock_def clock_sane_def)
  have near: "uint (LO_Timelock ev) < 2 ^ 33"
    if "ParseEvent to_LogNewTransferOut evLogTransferOut eLog = Inr ev" for ev
    using assms(3,4) that by (auto simp: near_locks_def)
  have now: "same_times db h (NowE t)" for h t by (simp add: same_times_def)
  have lock: "1000 dvd chain2TimeLock ev t"
    if "A (NowE t)" "ParseEvent to_LogNewTransferOut evLogTransferOut eLog = Inr ev"
      "57600 \<le> sint (src_timeout ev t)" for ev t
    using chain2TimeLock_micros [OF sane [OF that(1)] near [OF that(2)]] that(3) by simp
  show ?thesis
    unfolding monitorLogTransferOut_def
    by (auto simp: db_defs now not_less split: option.splits sum.splits
        intro!: same_times_inserts [OF assms(1)] intro: lock sane(3))
qed

text \<open>Such a node only uses times that every documented database keeps.\<close>

lemma node_keeps_times:
  assumes "dal_doc db" "micro_clock A" "near_locks D"
  shows "keeps_times db A (node_programs_from D env s)"
  unfolding keeps_times_def
  using insert_watch.node [OF same_times_watch [OF assms(1,2)], of s D answer_fits env]
    same_times_out [OF assms]
  by blast

section \<open>Rows come from delivered logs\<close>

text \<open>The columns that say which transfer a row is and which one it relates to.\<close>

definition id_cols :: "('a) Transfer_scheme \<Rightarrow>
    hash \<times> u64 \<times> addr \<times> TransferType \<times> hash \<times> hash \<times> u64 \<times> addr" where
  "id_cols x = (TransferId x, ChainId x, Token x, TransferType x, HashLock x, RelatedTid x,
     RelatedChainId x, RelatedToken x)"

lemma id_colsD:
  assumes "id_cols x = id_cols y"
  shows "TransferId x = TransferId y" "ChainId x = ChainId y" "Token x = Token y"
    "TransferType x = TransferType y" "HashLock x = HashLock y" "RelatedTid x = RelatedTid y"
    "RelatedChainId x = RelatedChainId y" "RelatedToken x = RelatedToken y"
  using assms by (simp_all add: id_cols_def)

lemma id_cols_same [simp]:
  "id_cols (inserted_row tx t) = id_cols tx" "id_cols (stored_tx db tx) = id_cols tx"
  by (simp_all add: id_cols_def stored_tx_def)

lemma id_cols_fixed: "fixed_cols r = fixed_cols r' \<Longrightarrow> id_cols r = id_cols r'"
  by (simp add: id_cols_def fixed_cols_def)

text \<open>A row made for a log that a monitor delivered, as a transfer out or as a transfer in.\<close>

definition logged_row ::
  "(bridgeConfig \<Rightarrow> ethlog \<Rightarrow> bool) \<Rightarrow> node_env \<Rightarrow> server \<Rightarrow> ('a) Transfer_scheme \<Rightarrow> bool" where
  "logged_row D env s r \<longleftrightarrow>
     (\<exists>bc eLog ev dstToken amount.
        D bc eLog \<and> ParseEvent to_LogNewTransferOut evLogTransferOut eLog = Inr ev \<and>
        token_route s (chain_uint64 bc) ev dstToken amount \<and>
        (id_cols r = id_cols (out_transfer env bc eLog ev dstToken 0) \<or>
         id_cols r = id_cols (in_transfer env bc ev dstToken amount 0)))"

text \<open>Only such rows are inserted, a transfer in after an insert of its transfer out.\<close>

definition pair_licensed ::
  "(bridgeConfig \<Rightarrow> ethlog \<Rightarrow> bool) \<Rightarrow> node_env \<Rightarrow> server \<Rightarrow> ev list \<Rightarrow> ev \<Rightarrow> bool" where
  "pair_licensed D env s older e \<longleftrightarrow>
     (\<forall>tx t r. e = ExecE (InsertTransferS tx t) r \<longrightarrow>
        logged_row D env s tx \<and>
        (TransferType tx = TRANSFER_TYPE_IN \<longrightarrow>
          (\<exists>out t'. ExecE (InsertTransferS out t') None \<in> set older \<and> TransferId out = RelatedTid tx)))"

interpretation pair: insert_watch A "pair_licensed D env s" for A D env s
  by unfold_locales (auto simp: pair_licensed_def)

lemma pair_inserts:
  assumes "D bc eLog" "ParseEvent to_LogNewTransferOut evLogTransferOut eLog = Inr ev"
    and "lookup2 (SV_chainTokenNameMap s) (chain_uint64 bc) (LO_Token ev) = Some tokenName"
    and "SV_chainTokenAddrMap s (LO_DstChainId ev) = Some addrs" "addrs tokenName = Some dstToken"
    and "lookup2 (SV_chainTokenDecimalMap s) (chain_uint64 bc) (LO_Token ev) = Some sd"
    and "lookup2 (SV_chainTokenDecimalMap s) (LO_DstChainId ev) dstToken = Some dd"
    and "dst_amount (LO_Amount ev) sd dd = Some amount"
  shows "pair_licensed D env s h (ExecE (InsertTransferS (out_transfer env bc eLog ev dstToken now) t) r)"
    "pair_licensed D env s
      (e1 # ExecE (InsertTransferS (out_transfer env bc eLog ev dstToken now) t') None # h)
      (ExecE (InsertTransferS (in_transfer env bc ev dstToken amount now) t) r)"
proof -
  have "lookup2 (SV_chainTokenAddrMap s) (LO_DstChainId ev) tokenName = Some dstToken"
    using assms(4,5) by (simp add: lookup2_def)
  then have route: "token_route s (chain_uint64 bc) ev dstToken amount"
    unfolding token_route_def using assms by blast
  have same: "id_cols (out_transfer env bc eLog ev dstToken now) = id_cols (out_transfer env bc eLog ev dstToken 0)"
    "id_cols (in_transfer env bc ev dstToken amount now) = id_cols (in_transfer env bc ev dstToken amount 0)"
    by (simp_all add: id_cols_def out_transfer_def in_transfer_def)
  have rows: "logged_row D env s (out_transfer env bc eLog ev dstToken now)"
    "logged_row D env s (in_transfer env bc ev dstToken amount now)"
    unfolding logged_row_def using assms(1,2) route same by blast+
  show "pair_licensed D env s h (ExecE (InsertTransferS (out_transfer env bc eLog ev dstToken now) t) r)"
    using rows(1) by (auto simp: pair_licensed_def out_transfer_def)
  show "pair_licensed D env s
      (e1 # ExecE (InsertTransferS (out_transfer env bc eLog ev dstToken now) t') None # h)
      (ExecE (InsertTransferS (in_transfer env bc ev dstToken amount now) t) r)"
    using rows(2) unfolding pair_licensed_def
    by (auto simp: in_transfer_def intro!: exI [of _ "out_transfer env bc eLog ev dstToken now"])
qed

lemma pair_traced_out:
  assumes "D bc eLog"
  shows "traced_by F A (pair_licensed D env s) (monitorLogTransferOut env s bc eLog) []"
  unfolding monitorLogTransferOut_def
  using assms
  by (auto simp: db_defs split: option.splits sum.splits intro: pair_inserts)

lemma node_pair_traced:
  assumes "p \<in> node_programs_from D env s"
  shows "traced_by F A (pair_licensed D env s) p []"
  using pair_traced_out assms by (rule pair.node)

text \<open>The same with stored times: a stored program takes the stored steps.\<close>

lemma stored_traced:
  assumes "traced_by (\<lambda>q r. True) A Q p h"
    and "\<And>h e. Q h e \<Longrightarrow> Q (map (stored_ev db) h) (stored_ev db e)"
  shows "traced_by F A Q (stored_prog db p) (map (stored_ev db) h)"
  using assms(1)
proof (induction p arbitrary: h)
  case (Exec st k)
  show ?case
    unfolding stored_prog.simps traced_by.simps
  proof (intro allI conjI)
    fix r
    have "Q h (ExecE st r)" "traced_by (\<lambda>q r. True) A Q (k r) (ExecE st r # h)"
      using Exec.prems by simp_all
    from assms(2) [OF this(1)] Exec.IH [OF rangeI this(2)]
    show "Q (map (stored_ev db) h) (ExecE (stored_stmt db st) r)"
      "traced_by F A Q (stored_prog db (k r)) (ExecE (stored_stmt db st) r # map (stored_ev db) h)"
      by simp_all
  qed
next
  case (Query q k)
  show ?case
    unfolding stored_prog.simps traced_by.simps
  proof (intro allI conjI impI)
    fix r
    have "Q h (QueryE q r)" "traced_by (\<lambda>q r. True) A Q (k r) (QueryE q r # h)"
      using Query.prems by simp_all
    from assms(2) [OF this(1)] Query.IH [OF rangeI this(2)]
    show "Q (map (stored_ev db) h) (QueryE (stored_query db q) r)"
      "traced_by F A Q (stored_prog db (k r)) (QueryE (stored_query db q) r # map (stored_ev db) h)"
      by simp_all
  qed
qed (use assms(2) in \<open>fastforce\<close>)+

lemma stored_ev_insert:
  assumes "stored_ev db e = ExecE (InsertTransferS tx t) r"
  obtains tx0 t0 where "e = ExecE (InsertTransferS tx0 t0) r" "tx = stored_tx db tx0"
proof -
  obtain s where "e = ExecE s r" "stored_stmt db s = InsertTransferS tx t"
    using assms by (cases e) auto
  then show thesis using that by (cases s) auto
qed

lemma pair_licensed_stored:
  assumes "pair_licensed D env s h e"
  shows "pair_licensed D env s (map (stored_ev db) h) (stored_ev db e)"
  unfolding pair_licensed_def
proof (intro allI impI)
  fix tx t r
  assume "stored_ev db e = ExecE (InsertTransferS tx t) r"
  then obtain tx0 t0 where e: "e = ExecE (InsertTransferS tx0 t0) r" "tx = stored_tx db tx0"
    by (rule stored_ev_insert)
  have "logged_row D env s tx0" using assms e(1) by (simp add: pair_licensed_def)
  then have "logged_row D env s tx" by (simp add: logged_row_def e(2))
  moreover have "\<exists>out t'. ExecE (InsertTransferS out t') None \<in> set (map (stored_ev db) h) \<and>
      TransferId out = RelatedTid tx" if "TransferType tx = TRANSFER_TYPE_IN"
  proof -
    have "TransferType tx0 = TRANSFER_TYPE_IN" "RelatedTid tx = RelatedTid tx0"
      using that by (simp_all add: e(2) stored_tx_def)
    then obtain out t' where "ExecE (InsertTransferS out t') None \<in> set h" "TransferId out = RelatedTid tx"
      using assms e(1) by (auto simp: pair_licensed_def)
    then have "stored_ev db (ExecE (InsertTransferS out t') None) \<in> set (map (stored_ev db) h)"
      "TransferId (stored_tx db out) = RelatedTid tx"
      unfolding set_map by (simp_all only: imageI stored_tx_fields)
    then show ?thesis unfolding stored_ev.simps stored_stmt.simps by blast
  qed
  ultimately show "logged_row D env s tx \<and> (TransferType tx = TRANSFER_TYPE_IN \<longrightarrow>
      (\<exists>out t'. ExecE (InsertTransferS out t') None \<in> set (map (stored_ev db) h) \<and>
        TransferId out = RelatedTid tx))" by blast
qed

lemma node_pair_stored:
  assumes "p \<in> stored_prog db ` node_programs_from D env s"
  shows "traced A (pair_licensed D env s) p []"
proof -
  from assms obtain p0 where p0: "p0 \<in> node_programs_from D env s" "p = stored_prog db p0" by blast
  from stored_traced [OF node_pair_traced [OF p0(1)] pair_licensed_stored] p0(2) show ?thesis by simp
qed

section \<open>Every transfer in has its transfer out\<close>

lemma apply_keeps_tid: "has_tid tid T \<Longrightarrow> has_tid tid (apply_stmt st T)"
  by (metis apply_stmt_keeps_row find_row_None not_None_eq)

lemma insert_has_tid: "has_tid (TransferId tx) (apply_stmt (InsertTransferS tx t) T)"
  by (auto simp: insert_row_def has_tid_def)

text \<open>What all rows have in common, and that a row once written stays.\<close>

definition paired :: "(bridgeConfig \<Rightarrow> ethlog \<Rightarrow> bool) \<Rightarrow> node_env \<Rightarrow> server \<Rightarrow> table \<Rightarrow> bool" where
  "paired D env s T \<longleftrightarrow> keys_distinct T \<and>
     (\<forall>r\<in>set T. logged_row D env s r \<and>
        (TransferType r = TRANSFER_TYPE_IN \<longrightarrow> has_tid (RelatedTid r) T))"

definition written_stay :: "table \<Rightarrow> ev list \<Rightarrow> bool" where
  "written_stay T h \<longleftrightarrow>
     (\<forall>tx t. ExecE (InsertTransferS tx t) None \<in> set h \<longrightarrow> has_tid (TransferId tx) T)"

lemma paired_apply:
  assumes "paired D env s T" "written_stay T h" "pair_licensed D env s h (ExecE st r)"
  shows "paired D env s (apply_stmt st T)"
  unfolding paired_def
proof (intro conjI ballI)
  show "keys_distinct (apply_stmt st T)" using assms(1) by (simp add: paired_def apply_stmt_distinct)
  fix r' assume r': "r' \<in> set (apply_stmt st T)"
  have old: "logged_row D env s r0 \<and> (TransferType r0 = TRANSFER_TYPE_IN \<longrightarrow>
      has_tid (RelatedTid r0) (apply_stmt st T))" if "r0 \<in> set T" for r0
    using assms(1) that apply_keeps_tid by (auto simp: paired_def)
  have "logged_row D env s r' \<and> (TransferType r' = TRANSFER_TYPE_IN \<longrightarrow>
      has_tid (RelatedTid r') (apply_stmt st T))"
  proof (cases "is_insert st")
    case True
    then obtain tx t where st: "st = InsertTransferS tx t" by (rule insert_cases)
    have "r' \<in> set T \<or> r' = inserted_row tx t"
      using r' set_insert_row(1) [of "inserted_row tx t" T] by (auto simp: st)
    then show ?thesis
    proof
      assume "r' = inserted_row tx t"
      moreover have "logged_row D env s (inserted_row tx t)"
        using assms(3) by (auto simp: pair_licensed_def st logged_row_def)
      moreover have "has_tid (RelatedTid tx) T" if "TransferType tx = TRANSFER_TYPE_IN"
        using assms(2,3) that by (auto simp: pair_licensed_def written_stay_def st)
      ultimately show ?thesis using apply_keeps_tid [of _ T st] by simp
    qed (rule old)
  next
    case False
    obtain r0 where r0: "r0 \<in> set T" "fixed_cols r' = fixed_cols r0"
      using row_update.member [OF stmt_row_update [OF False] r'] by blast
    have "logged_row D env s r' = logged_row D env s r0"
      unfolding logged_row_def id_cols_fixed [OF r0(2)] ..
    with old [OF r0(1)] fixed_colsD [OF r0(2)] show ?thesis by simp
  qed
  then show "logged_row D env s r'"
    "TransferType r' = TRANSFER_TYPE_IN \<longrightarrow> has_tid (RelatedTid r') (apply_stmt st T)" by blast+
qed

lemma paired_pstep:
  assumes "pstep A T p e T' p'" "paired D env s T" "written_stay T h" "pair_licensed D env s h e"
  shows "paired D env s T'" "written_stay T' (e # h)" "\<And>h'. written_stay T h' \<Longrightarrow> written_stay T' h'"
proof -
  consider "T' = T" "\<And>st. e \<noteq> ExecE st None" | st r where "e = ExecE st r" "T' = apply_stmt st T"
    using assms(1) by (cases rule: pstep.cases) auto
  then have "paired D env s T' \<and> written_stay T' (e # h) \<and> (\<forall>h'. written_stay T h' \<longrightarrow> written_stay T' h')"
  proof cases
    case 1
    then show ?thesis using assms(2,3) by (auto simp: written_stay_def)
  next
    case 2
    have "paired D env s T'" using paired_apply [OF assms(2,3)] assms(4) 2 by simp
    moreover have "written_stay T' (e # h)"
      using assms(3) by (auto simp: written_stay_def 2 insert_has_tid simp del: apply_stmt.simps
          intro: apply_keeps_tid)
    ultimately show ?thesis by (auto simp: written_stay_def 2(2) intro: apply_keeps_tid)
  qed
  then show "paired D env s T'" "written_stay T' (e # h)" "\<And>h'. written_stay T h' \<Longrightarrow> written_stay T' h'"
    by blast+
qed

lemma sys_paired:
  assumes "sys_reach A P ([], []) (T, ths)" "\<And>p. p \<in> P \<Longrightarrow> traced A (pair_licensed D env s) p []"
  shows "paired D env s T"
proof -
  have "paired D env s (fst st) \<and> (\<forall>th\<in>set (snd st). written_stay (fst st) (fst th))"
    if "sys_reach A P ([], []) st" for st
    using that
  proof (induction rule: sys_reach.induct)
    case refl
    show ?case by (simp add: paired_def keys_distinct_def)
  next
    case (step st st')
    from step.hyps(2) show ?case
    proof (cases rule: sys_step.cases)
      case (run i ths h p T e T' p')
      have th: "(h, p) \<in> set ths" using run(3,4) by (metis nth_mem)
      with sys_traced [OF step.hyps(1) assms(2)] have "traced A (pair_licensed D env s) p h"
        by (auto simp: run(1))
      from pstep_traced [OF run(5) this] have lic: "pair_licensed D env s h e" by blast
      have "paired D env s T" "written_stay T h" using step.IH th by (auto simp: run(1))
      note now = paired_pstep [OF run(5) this lic]
      have "written_stay T' (fst th)" if "th \<in> set (ths[i := (e # h, p')])" for th
        using that set_update_subset_insert [of ths i "(e # h, p')"] now(2,3) step.IH
        by (fastforce simp: run(1))
      with now(1) show ?thesis by (simp add: run(2))
    qed (use step.IH in \<open>auto simp: written_stay_def\<close>)
  qed
  from this [OF assms(1)] show ?thesis by simp
qed

text \<open>The ids that monitors deliver are apart from the ids, hashes, of transfers in.\<close>

definition logs_apart :: "(bridgeConfig \<Rightarrow> ethlog \<Rightarrow> bool) \<Rightarrow> node_env \<Rightarrow> bool" where
  "logs_apart D env \<longleftrightarrow>
     (\<forall>bc eLog ev bc' eLog' ev'.
        D bc eLog \<longrightarrow> ParseEvent to_LogNewTransferOut evLogTransferOut eLog = Inr ev \<longrightarrow>
        D bc' eLog' \<longrightarrow> ParseEvent to_LogNewTransferOut evLogTransferOut eLog' = Inr ev' \<longrightarrow>
        LO_TransferId ev \<noteq>
          getTransferId env (LO_Receiver ev') (LO_DstAddress ev') (LO_Hashlock ev') (LO_DstChainId ev'))"

lemma deposits_apart: "ids_apart dep env \<Longrightarrow> logs_apart (from_deposit dep) env"
  by (fastforce simp: logs_apart_def ids_apart_def from_deposit_def)

lemma logged_in:
  assumes "logged_row D env s r" "TransferType r = TRANSFER_TYPE_IN"
  obtains bc eLog ev dstToken amount where
    "D bc eLog" "ParseEvent to_LogNewTransferOut evLogTransferOut eLog = Inr ev"
    "token_route s (chain_uint64 bc) ev dstToken amount"
    "id_cols r = id_cols (in_transfer env bc ev dstToken amount 0)"
  using assms unfolding logged_row_def by (auto dest: id_colsD(4) simp: out_transfer_def)

lemma logged_out:
  assumes "logged_row D env s x" "TransferId x = LO_TransferId ev" "logs_apart D env"
    and "D bc eLog" "ParseEvent to_LogNewTransferOut evLogTransferOut eLog = Inr ev"
  obtains bc' eLog' ev' dstToken amount where
    "D bc' eLog'" "ParseEvent to_LogNewTransferOut evLogTransferOut eLog' = Inr ev'"
    "token_route s (chain_uint64 bc') ev' dstToken amount" "LO_TransferId ev' = LO_TransferId ev"
    "id_cols x = id_cols (out_transfer env bc' eLog' ev' dstToken 0)"
proof -
  obtain bc' eLog' ev' dstToken amount where x:
    "D bc' eLog'" "ParseEvent to_LogNewTransferOut evLogTransferOut eLog' = Inr ev'"
    "token_route s (chain_uint64 bc') ev' dstToken amount"
    "id_cols x = id_cols (out_transfer env bc' eLog' ev' dstToken 0) \<or>
     id_cols x = id_cols (in_transfer env bc' ev' dstToken amount 0)"
    using assms(1) unfolding logged_row_def by blast
  from x(4) show thesis
  proof
    assume out: "id_cols x = id_cols (out_transfer env bc' eLog' ev' dstToken 0)"
    have "LO_TransferId ev' = LO_TransferId ev"
      using id_colsD(1) [OF out] assms(2) by (simp add: out_transfer_def)
    from that [OF x(1-3) this out] show thesis .
  next
    assume "id_cols x = id_cols (in_transfer env bc' ev' dstToken amount 0)"
    from id_colsD(1) [OF this] assms(2)
    have "LO_TransferId ev = getTransferId env (LO_Receiver ev') (LO_DstAddress ev') (LO_Hashlock ev')
        (LO_DstChainId ev')" by (simp add: in_transfer_def)
    with assms(3) [unfolded logs_apart_def] assms(4,5) x(1,2) show thesis by blast
  qed
qed

lemma has_tidE:
  assumes "has_tid tid T"
  obtains x where "x \<in> set T" "TransferId x = tid"
  using assms by (auto simp: has_tid_def)

lemma paired_in:
  assumes "paired D env s T" "logs_apart D env" "r \<in> set T" "TransferType r = TRANSFER_TYPE_IN"
  shows "\<exists>x\<in>set T. TransferId x = RelatedTid r \<and> TransferType x = TRANSFER_TYPE_OUT"
proof -
  have r: "logged_row D env s r" "has_tid (RelatedTid r) T" using assms by (auto simp: paired_def)
  obtain bc eLog ev dstToken amount where ev: "D bc eLog"
    "ParseEvent to_LogNewTransferOut evLogTransferOut eLog = Inr ev"
    "id_cols r = id_cols (in_transfer env bc ev dstToken amount 0)"
    using r(1) assms(4) by (rule logged_in)
  obtain x where x: "x \<in> set T" "TransferId x = RelatedTid r" using r(2) by (rule has_tidE)
  have "RelatedTid r = LO_TransferId ev" using id_colsD(6) [OF ev(3)] by (simp add: in_transfer_def)
  then have id: "TransferId x = LO_TransferId ev" using x(2) by simp
  have "logged_row D env s x" using assms(1) x(1) by (simp add: paired_def)
  then obtain bc' eLog' ev' dstToken' where "id_cols x = id_cols (out_transfer env bc' eLog' ev' dstToken' 0)"
    using id assms(2) ev(1,2) by (rule logged_out)
  from id_colsD(4) [OF this] have "TransferType x = TRANSFER_TYPE_OUT" by (simp add: out_transfer_def)
  with x show ?thesis by blast
qed

text \<open>With the true logs of the contracts the two rows also name each other's chain, token and lock.\<close>

lemma paired_deposit:
  assumes "paired (from_deposit dep) env s T" "ids_apart dep env" "r \<in> set T"
    and "TransferType r = TRANSFER_TYPE_IN"
  shows "\<exists>x\<in>set T. TransferType x = TRANSFER_TYPE_OUT \<and> TransferId x = RelatedTid r \<and>
    TransferId r = RelatedTid x \<and> ChainId x = RelatedChainId r \<and> ChainId r = RelatedChainId x \<and>
    Token x = RelatedToken r \<and> Token r = RelatedToken x \<and> HashLock x = HashLock r"
proof -
  have r: "logged_row (from_deposit dep) env s r" "has_tid (RelatedTid r) T"
    using assms by (auto simp: paired_def)
  obtain bc eLog ev dstToken amount where ev: "from_deposit dep bc eLog"
    "ParseEvent to_LogNewTransferOut evLogTransferOut eLog = Inr ev"
    "token_route s (chain_uint64 bc) ev dstToken amount"
    "id_cols r = id_cols (in_transfer env bc ev dstToken amount 0)"
    using r(1) assms(4) by (rule logged_in)
  obtain x where x: "x \<in> set T" "TransferId x = RelatedTid r" using r(2) by (rule has_tidE)
  note rid = id_colsD [OF ev(4), unfolded in_transfer_def, simplified]
  have id: "TransferId x = LO_TransferId ev" using x(2) rid(6) by simp
  have "logged_row (from_deposit dep) env s x" using assms(1) x(1) by (simp add: paired_def)
  then obtain bc' eLog' ev' dstToken' amount' where ev': "from_deposit dep bc' eLog'"
    "ParseEvent to_LogNewTransferOut evLogTransferOut eLog' = Inr ev'"
    "token_route s (chain_uint64 bc') ev' dstToken' amount'" "LO_TransferId ev' = LO_TransferId ev"
    "id_cols x = id_cols (out_transfer env bc' eLog' ev' dstToken' 0)"
    using id deposits_apart [OF assms(2)] ev(1,2) by (rule logged_out)
  have same: "chain_uint64 bc' = chain_uint64 bc" "ev' = ev"
    using ev(1,2) ev'(1,2,4) by (auto simp: from_deposit_def)
  then have "dstToken' = dstToken" using ev(3) ev'(3) by (auto dest: token_route_det)
  note xid = id_colsD [OF ev'(5), unfolded out_transfer_def same this, simplified]
  show ?thesis using x rid xid by (intro bexI [OF _ x(1)]) simp
qed

section \<open>The table and the database\<close>

lemma node_paired:
  assumes "sys_reach A (node_programs_from D env s) ([], []) (T, ths)"
  shows "paired D env s T"
  by (rule sys_paired [OF assms node_pair_traced])

lemma stored_paired:
  assumes "sys_reach A (stored_prog db ` node_programs_from D env s) ([], []) (T, ths)"
  shows "paired D env s T"
  by (rule sys_paired [OF assms node_pair_stored])

end
