(* ===== verification/Example_Run.thy ===== *)
theory Example_Run
  imports Relay_Protocol Relay_Trace Relay_Final Relay_Pairs
begin

text \<open>
  A concrete node on two chains and two of its programs run on it: a transfer out arrives on
  chain 1 and is relayed to chain 56. The witnesses of the system properties use it.
\<close>

definition ex_config :: "u64 \<Rightarrow> ChainConfig" where
  "ex_config c =
     \<lparr>CC_Endpoint = ''node'', CC_ChainId = c, CC_ContractAddress = ''65'', CC_TokenConfig = [],
      CC_WatchConfig = Some \<lparr>WC_PollingInterval = 15, WC_BlockDelay = 5, WC_MaxBlockDelta = 5000,
        WC_ForwardBlockDelay = 0\<rparr>,
      CC_ForceGasGwei = 0, CC_FeeRate = 10, CC_GasTokenName = ''ETH'', CC_GasTokenDecimal = 18,
      CC_TransactorConfig = None\<rparr>"

definition ex_bridge :: "u64 \<Rightarrow> bridgeConfig" where
  "ex_bridge c = \<lparr>BG_config = ex_config c, BG_chainId = uint c, BG_contract = 101, BG_erc20 = [9]\<rparr>"

definition ex_env :: node_env where
  "ex_env = \<lparr>NE_lib = ref_lib, NE_SHA3 = (\<lambda>types vals. [42]), NE_AbiErr = None\<rparr>"

definition ex_server :: server where
  "ex_server =
     (NewServer ''v1'')\<lparr>SV_chainMap := [1 \<mapsto> ex_bridge 1, 56 \<mapsto> ex_bridge 56],
      SV_accountAddr := 7,
      SV_chainTokenNameMap := [1 \<mapsto> [9 \<mapsto> ''USDT''], 56 \<mapsto> [19 \<mapsto> ''USDT'']],
      SV_chainTokenAddrMap := [1 \<mapsto> [''USDT'' \<mapsto> 9], 56 \<mapsto> [''USDT'' \<mapsto> 19]],
      SV_chainTokenDecimalMap := [1 \<mapsto> [9 \<mapsto> 6], 56 \<mapsto> [19 \<mapsto> 8]]\<rparr>"

text \<open>User 5 locks 1000 units on chain 1 until hour 124, for address 6 on chain 56.\<close>

definition ex_event :: LogNewTransferOut where
  "ex_event = \<lparr>LO_TransferId = 41, LO_Sender = 5, LO_Receiver = 7, LO_Token = 9, LO_Amount = 1000,
     LO_Hashlock = 77, LO_Timelock = 124 * 3600, LO_DstChainId = 56, LO_DstAddress = 6\<rparr>"

definition ex_log :: ethlog where
  "ex_log = \<lparr>LG_TxHash = 3, LG_BlockNumber = 90,
     LG_Unpack = (\<lambda>name. Inr [VBytes32 41, VAddress 5, VAddress 7, VAddress 9, VUint256 1000,
       VBytes32 77, VUint64 (124 * 3600), VUint64 56, VAddress 6])\<rparr>"

text \<open>The outside at hour 100: the contract on chain 56 does not know the transfer yet, the fee is
  150, and the transaction goes through on chain 56.\<close>

definition ex_outside :: outside where
  "ex_outside = \<lparr>O_Now = 100 * hour, O_Block = (\<lambda>c. 5000),
     O_Call = (\<lambda>c m. Inr [VAddress 0, VAddress 0, VAddress 0, VUint256 0, VBytes32 0, VUint64 0,
       VUint8 0]),
     O_Fee = (\<lambda>q. Inr \<lparr>FR_Err = None, FR_Fee = big_String 150\<rparr>), O_Tx = (\<lambda>c m. None)\<rparr>"

definition ex_out :: Transfer where
  "ex_out = out_transfer ex_env (ex_bridge 1) ex_log ex_event 19 (100 * hour)"

definition ex_in :: Transfer where
  "ex_in = in_transfer ex_env (ex_bridge 1) ex_event 19 100000 (100 * hour)"

definition ex_table :: table where
  "ex_table = [inserted_row ex_out (100 * hour), inserted_row ex_in (100 * hour)]"

lemmas ex_simps = ex_config_def ex_bridge_def ex_env_def ex_server_def ex_event_def ex_log_def
  ex_outside_def NewServer_def chain_uint64_def

lemma ex_in_tid: "getTransferId ex_env a b c d = 42"
  by (simp add: getTransferId_def ex_env_def Bytes2Hash_def ref_lib_def be_nat_def)

lemma ex_in_sel [simp]:
  "TransferId ex_in = 42" "RelatedTid ex_in = 41" "Status ex_in = TRANSFER_STATUS_TRANSFER_IN_START"
  "TransferType ex_in = TRANSFER_TYPE_IN" "ChainId ex_in = 56" "RelatedChainId ex_in = 1"
  "Amount ex_in = 100000" "Fee ex_in = 0" "TimeLock ex_in = 116 * hour" "Receiver ex_in = 6"
  "Token ex_in = 19" "HashLock ex_in = 77"
  by (simp_all add: ex_in_def in_transfer_def ex_in_tid ex_event_def ex_bridge_def chain_uint64_def
      chain2TimeLock_def src_timeout_def)

lemma ex_out_sel [simp]:
  "TransferId ex_out = 41" "RelatedTid ex_out = 42" "Status ex_out = TRANSFER_STATUS_LOCKED"
  "TransferType ex_out = TRANSFER_TYPE_OUT" "ChainId ex_out = 1"
  by (simp_all add: ex_out_def out_transfer_def ex_in_tid ex_event_def ex_bridge_def chain_uint64_def)

lemma ex_parse: "ParseEvent to_LogNewTransferOut evLogTransferOut ex_log = Inr ex_event"
  by (simp add: ParseEvent_def ex_log_def to_LogNewTransferOut_def ex_event_def)

lemma ex_event_sel [simp]:
  "LO_Receiver ex_event = 7" "LO_DstChainId ex_event = 56" "LO_Token ex_event = 9"
  "LO_Amount ex_event = 1000"
  by (simp_all add: ex_event_def)

lemma ex_server_sel [simp]:
  "SV_accountAddr ex_server = 7" "SV_chainMap ex_server 1 = Some (ex_bridge 1)"
  "SV_chainMap ex_server 56 = Some (ex_bridge 56)"
  "lookup2 (SV_chainTokenNameMap ex_server) 1 9 = Some ''USDT''"
  "SV_chainTokenAddrMap ex_server 56 = Some [''USDT'' \<mapsto> 19]"
  "lookup2 (SV_chainTokenDecimalMap ex_server) 1 9 = Some 6"
  "lookup2 (SV_chainTokenDecimalMap ex_server) 56 19 = Some 8"
  by (simp_all add: ex_server_def NewServer_def lookup2_def)

lemma ex_bridge_sel [simp]:
  "chain_uint64 (ex_bridge c) = c" "BG_contract (ex_bridge c) = 101"
  by (simp_all add: ex_bridge_def chain_uint64_def)

lemma ex_outside_sel [simp]:
  "O_Now ex_outside = 100 * hour" "O_Block ex_outside c = 5000" "O_Tx ex_outside c m = None"
  by (simp_all add: ex_outside_def)

lemma ex_receive:
  "run_alone ex_outside (monitorLogTransferOut ex_env ex_server (ex_bridge 1) ex_log) [] [] =
     (ex_table,
      [ExecE (InsertTransferS ex_in (100 * hour)) None, NowE (100 * hour),
       ExecE (InsertTransferS ex_out (100 * hour)) None, NowE (100 * hour), NowE (100 * hour)],
      Some False)"
proof -
  have amount: "dst_amount 1000 6 8 = Some 100000"
    by (simp add: dst_amount_def pow10_loop_eq)
  have time: "sint (src_timeout ex_event 360000000000000) = 86400"
    by (simp add: src_timeout_def ex_event_def)
  have "out_transfer ex_env (ex_bridge 1) ex_log ex_event 19 360000000000000 = ex_out"
    "in_transfer ex_env (ex_bridge 1) ex_event 19 100000 360000000000000 = ex_in"
    by (simp_all add: ex_out_def ex_in_def)
  then show ?thesis
    by (simp add: monitorLogTransferOut_def ex_parse db_defs amount time ex_table_def insert_row_def
        has_tid_def)
qed

text \<open>The next round of the send loop claims the row, with a fee of 150, and sends it.\<close>

definition ex_sent :: table where
  "ex_sent = [inserted_row ex_out (100 * hour),
     (inserted_row ex_in (100 * hour))\<lparr>Amount := 99850, Fee := 150,
       Status := TRANSFER_STATUS_TRANSFER_IN_PENDING, UpdateTs := 100 * hour\<rparr>]"

definition ex_call :: abi_call where
  "ex_call = CBridge_TransferIn 6 19 99850 77 (116 * 3600) 1 41"

definition ex_past :: "ev list" where
  "ex_past = tl (fst (snd (run_alone ex_outside (processTrySendTransferIn ex_env ex_server) ex_table [])))"

lemma ex_send:
  "run_alone ex_outside (processTrySendTransferIn ex_env ex_server) ex_table [] =
     (ex_sent, TransactE 56 101 (Inr ex_call) None # ex_past, Some False)"
proof -
  have fee: "fee_of (O_Fee ex_outside q) = Inr 150" for q
    by (simp add: fee_of_def ex_outside_def GetFee_result_def gateway_getters)
  have status: "CBridge_Transfers (O_Call ex_outside c m) = Some (Inr \<lparr>TO_Sender = 0,
      TO_Receiver = 0, TO_Token = 0, TO_Amount = 0, TO_Hashlock = 0, TO_Timelock = 0, TO_Status = 0\<rparr>)"
    for c m by (simp add: ex_outside_def)
  have abi: "NE_AbiErr ex_env = None" by (simp add: ex_env_def)
  have "\<exists>past. run_alone ex_outside (processTrySendTransferIn ex_env ex_server) ex_table [] =
     (ex_sent, TransactE 56 101 (Inr ex_call) None # past, Some False)"
    by (simp add: processTrySendTransferIn_def db_defs ex_table_def send_one_def getTransfer_def abi
        status gateway_GetFee_fold fee Let_def transferIn_def bound_call_def TransferInfo_of_def
        update_where_def ex_sent_def ex_call_def)
  then show ?thesis by (auto simp: ex_past_def)
qed

section \<open>Both are reachable\<close>

lemma ex_received_reachable:
  "\<exists>p. sys_reach (\<lambda>e. True) (node_programs ex_env ex_server) ([], [])
     (ex_table, [([ExecE (InsertTransferS ex_in (100 * hour)) None, NowE (100 * hour),
       ExecE (InsertTransferS ex_out (100 * hour)) None, NowE (100 * hour), NowE (100 * hour)], p)])"
proof (rule alone_then_alone [OF admits_all sys_reach.refl _ ex_receive])
  have "ex_bridge 1 \<in> ran (SV_chainMap ex_server)" using ex_server_sel(2) by (rule ranI)
  then show "monitorLogTransferOut ex_env ex_server (ex_bridge 1) ex_log \<in> node_programs ex_env ex_server"
    by (auto simp: node_programs_on_def)
qed

lemma ex_send_program: "processTrySendTransferIn ex_env ex_server \<in> node_programs ex_env ex_server"
  by (simp add: node_programs_on_def tickers)

lemma ex_sent_later:
  assumes "sys_reach (\<lambda>e. True) (node_programs ex_env ex_server) s0 (ex_table, ths)"
  shows "\<exists>p. sys_reach (\<lambda>e. True) (node_programs ex_env ex_server) s0
    (ex_sent, [(TransactE 56 101 (Inr ex_call) None # ex_past, p)])"
  by (rule alone_then_alone [OF admits_all assms ex_send_program ex_send])

section \<open>Confirming and refunding\<close>

text \<open>The chains hold the transfer as pending, at hour 117, when the lock has expired.\<close>

definition ex_pending :: outside where
  "ex_pending = \<lparr>O_Now = 117 * hour, O_Block = (\<lambda>c. 9000),
     O_Call = (\<lambda>c m. Inr [VAddress 7, VAddress 6, VAddress 19, VUint256 99850, VBytes32 77,
       VUint64 (116 * 3600), VUint8 1]),
     O_Fee = (\<lambda>q. Inl ''unavailable''), O_Tx = (\<lambda>c m. None)\<rparr>"

definition ex_locked :: StoredTransfer where
  "ex_locked = (inserted_row ex_in (100 * hour))\<lparr>Status := TRANSFER_STATUS_LOCKED\<rparr>"

definition ex_confirmable :: table where
  "ex_confirmable = [ex_locked\<lparr>Preimage := 99, PreimageSet := True\<rparr>]"

definition ex_refundable :: table where
  "ex_refundable = [inserted_row ex_out (100 * hour), ex_locked]"

lemma ex_pending_status:
  "CBridge_Transfers (O_Call ex_pending c m) = Some (Inr \<lparr>TO_Sender = 7, TO_Receiver = 6,
     TO_Token = 19, TO_Amount = 99850, TO_Hashlock = 77, TO_Timelock = 116 * 3600, TO_Status = 1\<rparr>)"
  "O_Now ex_pending = 117 * hour" "NE_AbiErr ex_env = None"
  by (simp_all add: ex_pending_def ex_env_def)

lemmas ex_run_simps = db_defs getTransfer_def ex_pending_status TransferInfo_of_def
  remote_status_defs bound_call_def confirm_def refund_def

lemma ex_confirm:
  "\<exists>T past. run_alone ex_pending (processTryConfirmTransfer ex_env ex_server) ex_confirmable [] =
     (T, TransactE 56 101 (Inr (CBridge_Confirm 42 99)) (O_Tx ex_pending 56 (Inr (CBridge_Confirm 42 99)))
       # past, Some False)"
  by (simp add: processTryConfirmTransfer_def confirm_one_def ex_confirmable_def ex_locked_def
      ex_run_simps)

lemma ex_refund:
  "\<exists>T past. run_alone ex_pending (processTryRefundTransferIn ex_env ex_server) ex_refundable [] =
     (T, TransactE 56 101 (Inr (CBridge_Refund 42)) (O_Tx ex_pending 56 (Inr (CBridge_Refund 42)))
       # past, Some False)"
  by (simp add: processTryRefundTransferIn_def refund_one_def refund_pending_def ex_refundable_def
      ex_locked_def ex_run_simps update_where_def)

lemma ex_transactions_reachable:
  "\<exists>T past r p. sys_reach (\<lambda>e. True) (node_programs ex_env ex_server) (ex_confirmable, [])
     (T, [(TransactE 56 101 (Inr (CBridge_Confirm 42 99)) r # past, p)])"
  "\<exists>T past r p. sys_reach (\<lambda>e. True) (node_programs ex_env ex_server) (ex_refundable, [])
     (T, [(TransactE 56 101 (Inr (CBridge_Refund 42)) r # past, p)])"
proof -
  have "processTryConfirmTransfer ex_env ex_server \<in> node_programs ex_env ex_server"
    "processTryRefundTransferIn ex_env ex_server \<in> node_programs ex_env ex_server"
    by (simp_all add: node_programs_on_def tickers)
  then show "\<exists>T past r p. sys_reach (\<lambda>e. True) (node_programs ex_env ex_server) (ex_confirmable, [])
     (T, [(TransactE 56 101 (Inr (CBridge_Confirm 42 99)) r # past, p)])"
    "\<exists>T past r p. sys_reach (\<lambda>e. True) (node_programs ex_env ex_server) (ex_refundable, [])
     (T, [(TransactE 56 101 (Inr (CBridge_Refund 42)) r # past, p)])"
    using ex_confirm ex_refund alone_then_alone [OF admits_all sys_reach.refl] by metis+
qed

section \<open>A confirmed transfer out\<close>

text \<open>The user reveals preimage 99 on chain 1, which settles transfer 41 as confirmed.\<close>

definition ex_fate :: "hash \<Rightarrow> u8" where
  "ex_fate tid = (if tid = 41 then 2 else 0)"

definition ex_confirm_log :: ethlog where
  "ex_confirm_log = \<lparr>LG_TxHash = 4, LG_BlockNumber = 95, LG_Unpack = (\<lambda>name. Inr [VBytes32 41, VBytes32 99])\<rparr>"

definition ex_confirmed :: table where
  "ex_confirmed =
     [(inserted_row ex_out (100 * hour))\<lparr>Status := TRANSFER_STATUS_CONFIRMED, Preimage := 99,
        PreimageSet := True, TxConfirmHash := 4\<rparr>,
      (inserted_row ex_in (100 * hour))\<lparr>Preimage := 99, PreimageSet := True\<rparr>]"

lemma ex_logs_true: "log_true ex_fate ex_log" "log_true ex_fate ex_confirm_log"
  by (simp_all add: log_true_def ParseEvent_def ex_log_def ex_confirm_log_def ex_fate_def
      to_LogTransferConfirmed_def to_LogTransferRefunded_def remote_status_defs)

lemma ex_outside_true: "admits (answer_true ex_fate) ex_outside"
  by (simp add: admits_def remote_status_defs) (simp add: ex_outside_def)

lemma ex_confirm_event:
  "\<exists>h. run_alone ex_outside (monitorLogConfirm ex_confirm_log) ex_table [] = (ex_confirmed, h, Some False)"
  by (simp add: monitorLogConfirm_def ParseEvent_def ex_confirm_log_def to_LogTransferConfirmed_def
      ex_table_def update_where_def ex_confirmed_def)

lemma ex_confirmed_reachable:
  "\<exists>ths. sys_reach (answer_true ex_fate) (node_programs_on {l. log_true ex_fate l} ex_env ex_server)
     ([], []) (ex_confirmed, ths)"
proof -
  have "ex_bridge 1 \<in> ran (SV_chainMap ex_server)" using ex_server_sel(2) by (rule ranI)
  then have progs:
    "monitorLogTransferOut ex_env ex_server (ex_bridge 1) ex_log
      \<in> node_programs_on {l. log_true ex_fate l} ex_env ex_server"
    "monitorLogConfirm ex_confirm_log \<in> node_programs_on {l. log_true ex_fate l} ex_env ex_server"
    using ex_logs_true by (auto simp: node_programs_on_def)
  obtain h where "run_alone ex_outside (monitorLogConfirm ex_confirm_log) ex_table []
      = (ex_confirmed, h, Some False)"
    using ex_confirm_event by blast
  with alone_then_alone [OF ex_outside_true sys_reach.refl progs(1) ex_receive]
    alone_then_alone [OF ex_outside_true _ progs(2)]
  show ?thesis by blast
qed

section \<open>Well-typed answers\<close>

definition ex_typed :: "ev \<Rightarrow> bool" where
  "ex_typed e = (case e of CallE c a n m r \<Rightarrow> CBridge_Transfers r \<noteq> None | _ \<Rightarrow> True)"

lemma ex_outside_typed: "admits ex_typed ex_outside"
  by (simp add: admits_def ex_typed_def) (simp add: ex_outside_def)

section \<open>The deposit of the example\<close>

definition ex_deposits :: deposits where
  "ex_deposits = [41 \<mapsto> (1, ex_event)]"

definition ex_clock :: "ev \<Rightarrow> bool" where
  "ex_clock e = (case e of NowE t \<Rightarrow> 0 \<le> t \<and> t < 2 ^ 63 * second \<and> 1000 dvd t | _ \<Rightarrow> True)"

lemma ex_clock_sane: "clock_sane ex_clock"
  by (simp add: clock_sane_def ex_clock_def)

lemma ex_clock_micro: "micro_clock ex_clock"
  by (simp add: micro_clock_def ex_clock_sane) (simp add: ex_clock_def)

lemma ex_outside_clock: "admits ex_clock ex_outside"
  by (simp add: admits_def ex_clock_def)

lemma ex_ids_apart: "ids_apart ex_deposits ex_env"
  by (simp add: ids_apart_def ex_in_tid ex_deposits_def)

lemma ex_near_locks: "near_locks (from_deposit ex_deposits)"
proof -
  have "uint (LO_Timelock ex_event) < 2 ^ 33" by (simp add: ex_event_def)
  then show ?thesis by (fastforce simp: near_locks_def from_deposit_def ex_deposits_def split: if_splits)
qed

abbreviation ex_deposit_programs :: "proc set" where
  "ex_deposit_programs \<equiv> node_programs_from (from_deposit ex_deposits) ex_env ex_server"

lemma ex_keeps_times: "keeps_times ref_env ex_clock ex_deposit_programs"
  by (rule node_keeps_times [OF ref_env_doc ex_clock_micro ex_near_locks])

lemma ex_out_program:
  "monitorLogTransferOut ex_env ex_server (ex_bridge 1) ex_log \<in> ex_deposit_programs"
proof -
  have "from_deposit ex_deposits (ex_bridge 1) ex_log"
    by (simp add: from_deposit_def ex_parse ex_deposits_def) (simp add: ex_event_def)
  moreover have "ex_bridge 1 \<in> ran (SV_chainMap ex_server)" using ex_server_sel(2) by (rule ranI)
  ultimately show ?thesis
    by (auto simp: node_programs_from_def)
qed

lemma ex_deposit_reachable:
  "\<exists>h p. sys_reach ex_clock ex_deposit_programs ([], []) (ex_table, [(h, p)])"
  "\<exists>p. sys_reach ex_clock ex_deposit_programs ([], [])
     (ex_sent, [(TransactE 56 101 (Inr ex_call) None # ex_past, p)])"
proof -
  have send: "processTrySendTransferIn ex_env ex_server \<in> ex_deposit_programs"
    by (simp add: node_programs_from_def node_programs_on_def tickers)
  obtain p where r: "sys_reach ex_clock ex_deposit_programs ([], []) (ex_table,
      [([ExecE (InsertTransferS ex_in (100 * hour)) None, NowE (100 * hour),
        ExecE (InsertTransferS ex_out (100 * hour)) None, NowE (100 * hour), NowE (100 * hour)], p)])"
    using alone_then_alone [OF ex_outside_clock sys_reach.refl ex_out_program ex_receive] by blast
  then show "\<exists>h p. sys_reach ex_clock ex_deposit_programs ([], []) (ex_table, [(h, p)])" by blast
  show "\<exists>p. sys_reach ex_clock ex_deposit_programs ([], [])
     (ex_sent, [(TransactE 56 101 (Inr ex_call) None # ex_past, p)])"
    by (rule alone_then_alone [OF ex_outside_clock r send ex_send])
qed

section \<open>The example on a database\<close>

definition ex_rows :: sql_table where
  "ex_rows = [inserted_sql_row ref_env ex_out (100 * hour), inserted_sql_row ref_env ex_in (100 * hour)]"

lemma ex_fit: "chain_ids_fit ex_out" "chain_ids_fit ex_in"
  by (simp_all add: chain_ids_fit_def ex_out_def ex_in_def out_transfer_def in_transfer_def ex_event_def)

lemma ex_rows_rel:
  "rel_row ref_env (inserted_sql_row ref_env ex_out (100 * hour)) (inserted_row ex_out (100 * hour))"
  "rel_row ref_env (inserted_sql_row ref_env ex_in (100 * hour)) (inserted_row ex_in (100 * hour))"
  by (rule inserted_sql_row_rel, rule ex_fit)+

lemma ex_stored: "stored_tx ref_env ex_out = ex_out" "stored_tx ref_env ex_in = ex_in"
  by (simp_all add: stored_tx_def ref_env_time ex_out_def ex_in_def out_transfer_def in_transfer_def
      chain2TimeLock_def src_timeout_def ex_event_def)

lemma ex_sql_receive:
  "\<exists>h. sql_run_alone ref_env ex_outside (monitorLogTransferOut ex_env ex_server (ex_bridge 1) ex_log) [] []
     = (ex_rows, h, Some False)"
proof -
  have lib: "eth_common_doc (DLib ref_env)" using ref_env_doc by (simp add: dal_doc_def)
  have amount: "dst_amount 1000 6 8 = Some 100000"
    by (simp add: dst_amount_def pow10_loop_eq)
  have time: "sint (src_timeout ex_event 360000000000000) = 86400"
    by (simp add: src_timeout_def ex_event_def)
  have structs: "out_transfer ex_env (ex_bridge 1) ex_log ex_event 19 360000000000000 = ex_out"
    "in_transfer ex_env (ex_bridge 1) ex_event 19 100000 360000000000000 = ex_in"
    by (simp_all add: ex_out_def ex_in_def)
  have ids: "inserted_sql_row ref_env ex_in 360000000000000 ''tid''
      \<noteq> inserted_sql_row ref_env ex_out 360000000000000 ''tid''"
    using rel_row_ids(1) [OF ex_rows_rel(1)] rel_row_ids(1) [OF ex_rows_rel(2)] HashString_inj [OF lib]
    by simp
  show ?thesis
    by (simp add: monitorLogTransferOut_def ex_parse db_defs amount time structs InsertTransfer_fits
        ex_fit ids ex_rows_def ex_stored ref_env_time Let_def)
qed

lemma ex_sql_reachable:
  "\<exists>ths. sql_reach ref_env ex_clock ex_deposit_programs ([], []) (ex_rows, ths)"
proof -
  obtain h where "sql_run_alone ref_env ex_outside
      (monitorLogTransferOut ex_env ex_server (ex_bridge 1) ex_log) [] [] = (ex_rows, h, Some False)"
    using ex_sql_receive by blast
  from sql_alone_then_alone [OF ex_outside_clock rtranclp.rtrancl_refl ex_out_program this]
  show ?thesis by blast
qed

end
