(* ===== verification/Relay_Effects.thy ===== *)
theory Relay_Effects
  imports Relay_Loops
begin

text \<open>
  What a program does to the table when nothing comes between its steps: the recovery round
  rewrites exactly the rows whose pending state has timed out, and an event delivered again changes
  nothing.
\<close>

definition after :: "outside \<Rightarrow> proc \<Rightarrow> table \<Rightarrow> table" where
  "after w p T = fst (run_alone w p T [])"

text \<open>The table does not depend on what happened before.\<close>

lemma run_alone_history: "fst (run_alone w p T h) = fst (run_alone w p T h')"
proof (induction p arbitrary: T h h')
  case (Sleep d p)
  then show ?case unfolding run_alone.simps by blast
qed (unfold run_alone.simps fst_conv, blast+)

lemma after_simps [simp]:
  "after w (Done b) T = T" "after w Panic T = T" "after w (Now kn) T = after w (kn (O_Now w)) T"
  "after w (Exec s ke) T = after w (ke None) (apply_stmt s T)"
  "after w (Query q kq) T = after w (kq (Inr (run_query q T))) T"
  "after w (BlockNumber c kb) T = after w (kb (O_Block w c)) T"
  "after w (CallContract c a n m kc) T = after w (kc (O_Call w c m)) T"
  "after w (FeeRpc fq kf) T = after w (kf (O_Fee w fq)) T"
  "after w (Transact c a mr kt) T = after w (kt (O_Tx w c mr)) T"
  "after w (Sleep d p) T = after w p T"
  by (simp_all add: after_def) (rule run_alone_history)+

section \<open>The recovery round\<close>

text \<open>What the round promises for one row at a given time.\<close>

definition recovered :: "gotime \<Rightarrow> StoredTransfer \<Rightarrow> StoredTransfer" where
  "recovered now r =
     (if query_sel (RecoverPendingTransferInQ (now - 15 * minute) (now + 6 * minute)) r
      then r\<lparr>Status := TRANSFER_STATUS_TRANSFER_IN_START, UpdateTs := now\<rparr>
      else if query_sel (RecoverPendingConfirmQ (now - 15 * minute) (now + 6 * minute)) r \<or>
              query_sel (RecoverPendingRefundQ (now - 15 * minute)) r
      then r\<lparr>Status := TRANSFER_STATUS_LOCKED, UpdateTs := now\<rparr>
      else r)"

text \<open>Updating one by one the rows with the given ids is one update of them all.\<close>

lemma update_where_twice:
  assumes "\<And>r. q (f r) \<Longrightarrow> p r \<Longrightarrow> f (f r) = f r" "\<And>r. p r \<Longrightarrow> \<not> q (f r)"
  shows "update_where q f (update_where p f xs) = update_where (\<lambda>r. p r \<or> q r) f xs"
  using assms by (simp add: update_where_def)

lemma update_where_cong:
  "(\<And>r. r \<in> set xs \<Longrightarrow> p r = q r) \<Longrightarrow> (\<And>r. r \<in> set xs \<Longrightarrow> q r \<Longrightarrow> f r = g r) \<Longrightarrow>
   update_where p f xs = update_where q g xs"
  by (simp add: update_where_def)

abbreviation set_status :: "TransferStatus \<Rightarrow> gotime \<Rightarrow> StoredTransfer \<Rightarrow> StoredTransfer" where
  "set_status to now r \<equiv> r\<lparr>Status := to, UpdateTs := now\<rparr>"

lemma recover_rows:
  assumes "from \<noteq> to"
  shows "after w (for_each (recover_one to from) xs k) T =
    after w k (update_where (\<lambda>r. TransferId r \<in> TransferId ` set xs \<and> Status r = from)
      (set_status to (O_Now w)) T)"
proof (induction xs arbitrary: T)
  case Nil
  then show ?case by (simp add: update_where_def)
next
  case (Cons x xs)
  have "update_where (\<lambda>r. TransferId r \<in> TransferId ` set xs \<and> Status r = from)
      (set_status to (O_Now w))
      (update_where (\<lambda>r. TransferId r = TransferId x \<and> Status r = from) (set_status to (O_Now w)) T)
    = update_where (\<lambda>r. TransferId r \<in> TransferId ` set (x # xs) \<and> Status r = from)
      (set_status to (O_Now w)) T"
    using assms by (subst update_where_twice) (auto intro!: update_where_cong)
  moreover have "stmt_sel (SetTransferStatusByFromS (TransferId x) to from (O_Now w))
      = (\<lambda>r. TransferId r = TransferId x \<and> Status r = from)"
    "stmt_upd (SetTransferStatusByFromS (TransferId x) to from (O_Now w)) = set_status to (O_Now w)"
    by (rule ext, simp)+
  then have "after w (recover_one to from x nx) T = after w nx
      (update_where (\<lambda>r. TransferId r = TransferId x \<and> Status r = from) (set_status to (O_Now w)) T)"
    for nx by (simp add: recover_one_def db_defs)
  ultimately show ?case by (simp only: for_each.simps Cons.IH)
qed

lemma recover_query:
  assumes "keys_distinct T" "\<And>r. query_sel q r \<Longrightarrow> Status r = from" "from \<noteq> to"
  shows "after w (for_each (recover_one to from) (map scan (filter (query_sel q) T)) k) T =
    after w k (update_where (query_sel q) (set_status to (O_Now w)) T)"
proof -
  have "(TransferId r \<in> TransferId ` set (map scan (filter (query_sel q) T)) \<and> Status r = from)
      = query_sel q r" if "r \<in> set T" for r
  proof
    assume "TransferId r \<in> TransferId ` set (map scan (filter (query_sel q) T)) \<and> Status r = from"
    then obtain x where "x \<in> set T" "query_sel q x" "TransferId x = TransferId r" by auto
    with find_row_unique [OF assms(1)] that show "query_sel q r" by (metis option.inject)
  qed (use that assms(2) in \<open>auto simp: image_image\<close>)
  then have "update_where
      (\<lambda>r. TransferId r \<in> TransferId ` set (map scan (filter (query_sel q) T)) \<and> Status r = from)
      (set_status to (O_Now w)) T = update_where (query_sel q) (set_status to (O_Now w)) T"
    by (rule update_where_cong) simp_all
  then show ?thesis by (simp only: recover_rows [OF assms(3)])
qed

lemma update_where_distinct:
  "keys_distinct T \<Longrightarrow> keys_distinct (update_where p (set_status to now) T)"
  by (simp add: keys_distinct_def map_update_where_id)

lemma recover_phases:
  assumes "keys_distinct T"
  shows
    "after w (processRecoverTimeoutPendingTransferIn k) T = after w k
      (update_where (query_sel (RecoverPendingTransferInQ (O_Now w - 15 * minute) (O_Now w + 6 * minute)))
        (set_status TRANSFER_STATUS_TRANSFER_IN_START (O_Now w)) T)"
    "after w (processRecoverTimeoutPendingConfirm k) T = after w k
      (update_where (query_sel (RecoverPendingConfirmQ (O_Now w - 15 * minute) (O_Now w + 6 * minute)))
        (set_status TRANSFER_STATUS_LOCKED (O_Now w)) T)"
    "after w (processRecoverTimeoutPendingRefund k) T = after w k
      (update_where (query_sel (RecoverPendingRefundQ (O_Now w - 15 * minute)))
        (set_status TRANSFER_STATUS_LOCKED (O_Now w)) T)"
  unfolding processRecoverTimeoutPendingTransferIn_def processRecoverTimeoutPendingConfirm_def
    processRecoverTimeoutPendingRefund_def db_defs after_simps run_query.simps sum.case
  by (rule recover_query [OF assms]; simp)+

lemma recover_round:
  assumes "keys_distinct T"
  shows "after w (snd ProcessRecoverTimeoutPendingTransfer) T = map (recovered (O_Now w)) T"
proof -
  have "query_sel (RecoverPendingConfirmQ t u) (set_status TRANSFER_STATUS_TRANSFER_IN_START n r) = False"
    "query_sel (RecoverPendingRefundQ t) (set_status TRANSFER_STATUS_TRANSFER_IN_START n r) = False"
    "query_sel (RecoverPendingRefundQ t) (set_status TRANSFER_STATUS_LOCKED n r) = False" for t u n r
    by simp_all
  then show ?thesis
    unfolding ProcessRecoverTimeoutPendingTransfer_def snd_conv
    by (simp only: recover_phases update_where_distinct assms after_simps)
      (auto simp only: update_where_def recovered_def map_map o_def if_distrib [where f = "query_sel _"]
        intro!: map_cong split: if_splits)
qed

section \<open>Events delivered again\<close>

text \<open>A lock of less than 292 billion years gives less time the later one looks at it.\<close>

lemma src_timeout_earlier:
  assumes "0 \<le> now1" "now1 \<le> now2" "now2 < 2 ^ 63 * second" "uint (LO_Timelock ev) < 2 ^ 63"
    and "57600 \<le> sint (src_timeout ev now2)"
  shows "57600 \<le> sint (src_timeout ev now1)"
proof -
  let ?n1 = "now1 div second" and ?n2 = "now2 div second"
  have n: "0 \<le> ?n1" "?n1 \<le> ?n2" using assms(1,2) by (auto intro: zdiv_mono1)
  have "uint (LO_Timelock ev) = ?n2 + sint (src_timeout ev now2)"
    using assms by (intro src_timeout_true) auto
  then have d: "57600 \<le> uint (LO_Timelock ev) - ?n1" "uint (LO_Timelock ev) - ?n1 < 2 ^ 63"
    using n assms(4,5) by linarith+
  have "src_timeout ev now1 = of_int (uint (LO_Timelock ev) - ?n1)"
    by (simp add: src_timeout_def)
  then show ?thesis using sint_of_int_bounds(2) [of "uint (LO_Timelock ev) - ?n1"] d by simp
qed

lemma insert_row_again:
  "has_tid (TransferId r) T \<Longrightarrow> insert_row r T = T"
  "has_tid (TransferId r) (insert_row r T)" "has_tid tid T \<Longrightarrow> has_tid tid (insert_row r T)"
  by (auto simp: insert_row_def has_tid_def)

lemma out_transfer_tid [simp]: "TransferId (out_transfer env bc eLog ev tk t) = LO_TransferId ev"
  by (simp add: out_transfer_def)

lemma in_transfer_tid: "TransferId (in_transfer env bc ev tk a t) = TransferId (in_transfer env bc ev tk a t')"
  by (simp add: in_transfer_def)

lemma update_where_idem:
  "(\<And>r. p r \<Longrightarrow> f (f r) = f r) \<Longrightarrow> update_where p f (update_where p f xs) = update_where p f xs"
  by (auto simp: update_where_def)

text \<open>The table after the callback of a new transfer out: unchanged, or with the transfer out, or
  with both.\<close>

lemma out_redelivered:
  assumes "0 \<le> O_Now w" "O_Now w \<le> O_Now w'" "O_Now w' < 2 ^ 63 * second"
    and "\<And>ev. ParseEvent to_LogNewTransferOut evLogTransferOut eLog = Inr ev \<Longrightarrow>
      uint (LO_Timelock ev) < 2 ^ 63"
  shows "after w' (monitorLogTransferOut env s bc eLog) (after w (monitorLogTransferOut env s bc eLog) T)
    = after w (monitorLogTransferOut env s bc eLog) T"
proof -
  have earlier: "57600 \<le> sint (src_timeout ev (O_Now w))"
    if "57600 \<le> sint (src_timeout ev (O_Now w'))"
      "ParseEvent to_LogNewTransferOut evLogTransferOut eLog = Inr ev" for ev
    using src_timeout_earlier [OF assms(1-3) assms(4) that(1)] that(2) by blast
  moreover have "has_tid (TransferId (in_transfer env bc ev tk a t')) (insert_row
     (inserted_row (in_transfer env bc ev tk a t) n) T)" for ev tk a t t' n T
    using insert_row_again(2) [of "inserted_row (in_transfer env bc ev tk a t) n" T]
    by (simp add: in_transfer_tid [of env bc ev tk a t' t])
  moreover have "has_tid (LO_TransferId ev) (insert_row (inserted_row (out_transfer env bc eLog ev tk t) n) T)"
    for ev tk t n T using insert_row_again(2) [of "inserted_row (out_transfer env bc eLog ev tk t) n" T] by simp
  ultimately show ?thesis
    unfolding monitorLogTransferOut_def
    by (auto simp: db_defs insert_row_again not_less split: option.splits sum.splits)
      (use earlier in fastforce)
qed

lemma update_redelivered:
  "after w' (monitorLogTransferIn s eLog) (after w (monitorLogTransferIn s eLog) T)
    = after w (monitorLogTransferIn s eLog) T"
  "after w' (monitorLogConfirm eLog) (after w (monitorLogConfirm eLog) T) = after w (monitorLogConfirm eLog) T"
  "after w' (monitorLogRefund eLog) (after w (monitorLogRefund eLog) T) = after w (monitorLogRefund eLog) T"
  by (auto simp: monitorLogTransferIn_def monitorLogConfirm_def monitorLogRefund_def update_where_def
      split: sum.splits)

end
