(* ===== verification/Monitor_Table.thy ===== *)
theory Monitor_Table
  imports DAL
begin

text \<open>
  The rest of \<open>src/server/dal.go\<close>: opening and closing the layer, and the four methods on the
  \<open>monitor\<close> table, in which the event monitors of the watcher library keep the position they
  have read to. The methods are given as the SQL they send, like those of \<open>DAL\<close>; the last part
  shows that they implement a map from event names to positions.
\<close>

section \<open>The layer\<close>

text \<open>\<open>*DAL\<close> wraps a database handle of the library, which \<open>Close\<close> takes away. \<open>Close\<close> also
  returns the handles it closes.\<close>

record 'db DAL_struct =
  DAL_Db :: "'db option"

definition NewDAL ::
  "(string \<Rightarrow> string \<Rightarrow> int \<Rightarrow> 'db result) \<Rightarrow> string \<Rightarrow> string \<Rightarrow> int \<Rightarrow> 'db DAL_struct result" where
  "NewDAL newDb driver info poolSize =
     (case newDb driver info poolSize of Inl err \<Rightarrow> Inl err | Inr db \<Rightarrow> Inr \<lparr>DAL_Db = Some db\<rparr>)"

definition DAL_Close :: "'db DAL_struct \<Rightarrow> 'db DAL_struct \<times> 'db list" where
  "DAL_Close d = (case DAL_Db d of None \<Rightarrow> (d, []) | Some db \<Rightarrow> (d\<lparr>DAL_Db := None\<rparr>, [db]))"

definition DAL_DB :: "'db DAL_struct \<Rightarrow> 'db option" where
  "DAL_DB d = DAL_Db d"

text \<open>A second \<open>Close\<close> closes nothing.\<close>

lemma DAL_Close_twice: "DAL_Close (fst (DAL_Close d)) = (fst (DAL_Close d), [])"
  by (simp add: DAL_Close_def split: option.splits)

section \<open>The \<open>monitor\<close> table\<close>

definition monitor_schema :: "string \<Rightarrow> coltype" where
  "monitor_schema c =
     (if c \<in> {''blocknum'', ''blockidx''} then TInt else if c = ''restart'' then TBool else TText)"

definition monitor_bind :: "dal_env \<Rightarrow> string \<times> goarg \<Rightarrow> (string \<times> sqlval) result" where
  "monitor_bind env ca =
     (case bind_arg (snd ca) of Inl e \<Rightarrow> Inl e
      | Inr v \<Rightarrow> (case store_val env (monitor_schema (fst ca)) v of
            Inl e \<Rightarrow> Inl e | Inr w \<Rightarrow> Inr (fst ca, w)))"

text \<open>\<open>sqldb.ChkExec(res, err, expected, caller)\<close> as a function of the number of rows affected;
  the library documents that it complains exactly when that is not the expected number.\<close>

type_synonym chk_exec = "int \<Rightarrow> int \<Rightarrow> string \<Rightarrow> string option"

definition chk_doc :: "chk_exec \<Rightarrow> bool" where
  "chk_doc chk \<longleftrightarrow> (\<forall>affected expected caller. chk affected expected caller = None \<longleftrightarrow> affected = expected)"

definition ref_chk :: chk_exec where
  "ref_chk affected expected caller =
     (if affected = expected then None else Some (caller @ '': invalid affected row number''))"

lemma chk_docD:
  assumes "chk_doc chk"
  shows "chk 1 1 c = None" "chk 0 1 c \<noteq> None"
  using assms by (simp_all add: chk_doc_def)

lemma ref_chk_doc: "chk_doc ref_chk"
  by (simp add: chk_doc_def ref_chk_def)

text \<open>What a monitor method leaves: the table and the error, if any.\<close>

type_synonym mon_out = "sql_table \<times> string option"

definition InsertMonitor ::
  "dal_env \<Rightarrow> chk_exec \<Rightarrow> string \<Rightarrow> u64 \<Rightarrow> u64 \<Rightarrow> bool \<Rightarrow> sql_table \<Rightarrow> mon_out" where
  "InsertMonitor env chk event blockNum blockIdx restart R =
     (case map_result (monitor_bind env)
         [(''event'', AText event), (''blocknum'', AUint blockNum), (''blockidx'', AInt (sint blockIdx)),
          (''restart'', ABool restart)] of
        Inl e \<Rightarrow> (R, Some e)
      | Inr cvs \<Rightarrow>
          (let r = set_cols cvs (\<lambda>c. SNull)
           in if r ''event'' \<in> (\<lambda>x. x ''event'') ` set R then (R, Some ''duplicate key value'')
              else (R @ [r], chk 1 1 ''InsertMonitor'')))"

text \<open>Block number, block index and whether the event was found. A scan that fails is an error.\<close>

definition GetMonitorBlock :: "dal_env \<Rightarrow> string \<Rightarrow> sql_table \<Rightarrow> (u64 \<times> u64 \<times> bool) result" where
  "GetMonitorBlock env event R =
     (case RowOrder env (filter (where_holds [Cmp ''event'' CEq (SText event)]) R) of
        [] \<Rightarrow> Inr (0, 0, False)
      | r # _ \<Rightarrow>
          scan_u64 (r ''blocknum'') (\<lambda>blockNum.
            case r ''blockidx'' of SInt i \<Rightarrow> Inr (blockNum, of_int i, True)
            | _ \<Rightarrow> Inl ''sql: Scan error: int64''))"

definition UpdateMonitorBlock ::
  "dal_env \<Rightarrow> chk_exec \<Rightarrow> string \<Rightarrow> u64 \<Rightarrow> u64 \<Rightarrow> sql_table \<Rightarrow> mon_out" where
  "UpdateMonitorBlock env chk event blockNum blockIdx R =
     (let conds = [Cmp ''event'' CEq (SText event)]
      in case map_result (monitor_bind env)
          [(''blocknum'', AUint blockNum), (''blockidx'', AInt (sint blockIdx))] of
        Inl e \<Rightarrow> (R, Some e)
      | Inr cvs \<Rightarrow>
          (update_where (where_holds conds) (set_cols cvs) R,
           chk (int (length (filter (where_holds conds) R))) 1 ''UpdateMonitorBlock''))"

text \<open>\<open>ON CONFLICT (event) DO UPDATE\<close> writes the block number and index of the excluded row, and
  leaves the restart flag as it is.\<close>

definition UpsertMonitorBlock ::
  "dal_env \<Rightarrow> chk_exec \<Rightarrow> string \<Rightarrow> u64 \<Rightarrow> u64 \<Rightarrow> bool \<Rightarrow> sql_table \<Rightarrow> mon_out" where
  "UpsertMonitorBlock env chk event blockNum blockIdx restart R =
     (case map_result (monitor_bind env)
         [(''event'', AText event), (''blocknum'', AUint blockNum), (''blockidx'', AInt (sint blockIdx)),
          (''restart'', ABool restart)] of
        Inl e \<Rightarrow> (R, Some e)
      | Inr cvs \<Rightarrow>
          (let excluded = set_cols cvs (\<lambda>c. SNull)
           in if excluded ''event'' \<in> (\<lambda>x. x ''event'') ` set R
              then (update_where (\<lambda>r. r ''event'' = excluded ''event'')
                      (\<lambda>r. r(''blocknum'' := excluded ''blocknum'', ''blockidx'' := excluded ''blockidx'')) R,
                    chk 1 1 ''UpsertMonitorBlock'')
              else (R @ [excluded], chk 1 1 ''UpsertMonitorBlock'')))"

section \<open>The map it implements\<close>

text \<open>Event name to block number, index and restart flag.\<close>

type_synonym positions = "string \<rightharpoonup> u64 \<times> u64 \<times> bool"

definition position_row :: "string \<times> u64 \<times> u64 \<times> bool \<Rightarrow> sql_row" where
  "position_row p =
     (case p of (event, n, i, restart) \<Rightarrow>
        (\<lambda>c. SNull)(''event'' := SText event, ''blocknum'' := SInt (uint n),
          ''blockidx'' := SInt (sint i), ''restart'' := SBool restart))"

text \<open>A table that spells a map: one row for each event.\<close>

definition holds_positions :: "sql_table \<Rightarrow> positions \<Rightarrow> bool" where
  "holds_positions R m \<longleftrightarrow>
     (\<exists>ps. R = map position_row ps \<and> distinct (map fst ps) \<and> m = map_of ps)"

lemma position_row_sel [simp]:
  "position_row p ''event'' = SText (fst p)" "position_row p ''blocknum'' = SInt (uint (fst (snd p)))"
  "position_row p ''blockidx'' = SInt (sint (fst (snd (snd p))))"
  by (simp_all add: position_row_def split: prod.splits)

lemma monitor_binds:
  "map_result (monitor_bind env)
     [(''event'', AText event), (''blocknum'', AUint n), (''blockidx'', AInt (sint i)), (''restart'', ABool b)] =
   (if unat n < 2 ^ 63
    then Inr [(''event'', SText event), (''blocknum'', SInt (uint n)), (''blockidx'', SInt (sint i)),
      (''restart'', SBool b)]
    else Inl ''uint64 values with high bit set are not supported'')"
  "map_result (monitor_bind env) [(''blocknum'', AUint n), (''blockidx'', AInt (sint i))] =
   (if unat n < 2 ^ 63 then Inr [(''blocknum'', SInt (uint n)), (''blockidx'', SInt (sint i))]
    else Inl ''uint64 values with high bit set are not supported'')"
  by (simp_all add: monitor_bind_def monitor_schema_def)

lemma new_position_row:
  "set_cols [(''event'', SText event), (''blocknum'', SInt (uint n)), (''blockidx'', SInt (sint i)),
      (''restart'', SBool b)] (\<lambda>c. SNull) = position_row (event, n, i, b)"
  by (rule ext) (simp add: position_row_def)

lemma where_event: "where_holds [Cmp ''event'' CEq (SText event)] (position_row p) \<longleftrightarrow> fst p = event"
  by (simp add: where_holds_def)

lemma event_known: "SText event \<in> (\<lambda>x. x ''event'') ` set (map position_row ps) \<longleftrightarrow> event \<in> fst ` set ps"
  by (simp add: image_image) (auto simp: image_iff)

lemma moved_row:
  "(position_row p)(''blocknum'' := SInt (uint n), ''blockidx'' := SInt (sint i)) =
     position_row (fst p, n, i, snd (snd (snd p)))"
  by (rule ext) (simp add: position_row_def split: prod.splits)

definition move_to :: "string \<Rightarrow> u64 \<Rightarrow> u64 \<Rightarrow> string \<times> u64 \<times> u64 \<times> bool \<Rightarrow> string \<times> u64 \<times> u64 \<times> bool" where
  "move_to event n i p = (if fst p = event then (fst p, n, i, snd (snd (snd p))) else p)"

lemma map_of_move_to:
  "map_of (map (move_to event n i) ps) =
     (case map_of ps event of None \<Rightarrow> map_of ps
      | Some (n0, i0, b) \<Rightarrow> (map_of ps)(event \<mapsto> (n, i, b)))"
  by (induction ps) (auto simp: move_to_def fun_upd_twist split: option.splits)

lemma holds_moved:
  assumes "distinct (map fst ps)"
  shows "holds_positions (map position_row (map (move_to event n i) ps))
    (map_of (map (move_to event n i) ps))"
proof -
  have "map fst (map (move_to event n i) ps) = map fst ps"
    by (simp add: move_to_def)
  with assms show ?thesis unfolding holds_positions_def by metis
qed

lemma map_of_snoc: "map_of ps event = None \<Longrightarrow> map_of (ps @ [(event, v)]) = (map_of ps)(event \<mapsto> v)"
proof (induction ps)
  case (Cons p ps)
  then have "fst p \<noteq> event" "map_of ps event = None" by (auto split: if_splits)
  with Cons.IH show ?case by (auto simp del: map_of_append)
qed simp

lemma holds_appended:
  assumes "distinct (map fst ps)" "map_of ps event = None"
  shows "holds_positions (map position_row ps @ [position_row (event, v)]) ((map_of ps)(event \<mapsto> v))"
  unfolding holds_positions_def
proof (intro exI conjI)
  show "map position_row ps @ [position_row (event, v)] = map position_row (ps @ [(event, v)])" by simp
  show "distinct (map fst (ps @ [(event, v)]))" using assms by (auto simp: map_of_eq_None_iff)
  show "(map_of ps)(event \<mapsto> v) = map_of (ps @ [(event, v)])" by (rule map_of_snoc [OF assms(2), symmetric])
qed

lemma moved_rows:
  "update_where (where_holds [Cmp ''event'' CEq (SText event)])
     (set_cols [(''blocknum'', SInt (uint n)), (''blockidx'', SInt (sint i))]) (map position_row ps) =
   map position_row (map (move_to event n i) ps)"
  "update_where (\<lambda>r. r ''event'' = SText event)
     (\<lambda>r. r(''blocknum'' := SInt (uint n), ''blockidx'' := SInt (sint i))) (map position_row ps) =
   map position_row (map (move_to event n i) ps)"
  by (simp_all add: update_where_def where_event move_to_def moved_row)

lemma one_row:
  assumes "distinct (map fst ps)"
  shows "map_of ps event = Some v \<Longrightarrow> filter (\<lambda>p. fst p = event) ps = [(event, v)]"
    "map_of ps event = None \<Longrightarrow> filter (\<lambda>p. fst p = event) ps = []"
  using assms by (induction ps) (auto simp: filter_empty_conv map_of_eq_None_iff split: if_splits)

lemma selected_rows:
  "filter (where_holds [Cmp ''event'' CEq (SText event)]) (map position_row ps) =
     map position_row (filter (\<lambda>p. fst p = event) ps)"
  by (simp add: filter_map o_def where_event)

section \<open>Each method\<close>

lemma get_position:
  assumes "dal_doc env" "holds_positions R m"
  shows "GetMonitorBlock env event R =
    Inr (case m event of None \<Rightarrow> (0, 0, False) | Some (n, i, b) \<Rightarrow> (n, i, True))"
proof -
  from assms(2) obtain ps where ps: "R = map position_row ps" "distinct (map fst ps)" "m = map_of ps"
    by (auto simp: holds_positions_def)
  have "mset (RowOrder env xs) = mset xs" for xs using assms(1) unfolding dal_doc_def by blast
  from this [of "[]"] this [of "[r]" for r] have order: "RowOrder env [] = []" "RowOrder env [r] = [r]" for r
    by simp_all
  show ?thesis
  proof (cases "m event")
    case None
    then show ?thesis
      using ps by (simp add: GetMonitorBlock_def selected_rows one_row(2) order del: map_of_eq_None_iff)
  next
    case (Some v)
    obtain n i b where v: "v = (n, i, b)" by (cases v)
    have u: "0 \<le> uint n" "uint n < 2 ^ 64" using uint_lt2p [of n] by simp_all
    from Some v u ps show ?thesis
      by (simp add: GetMonitorBlock_def selected_rows one_row(1) order scan_u64_def)
  qed
qed

lemma insert_position:
  assumes "chk_doc chk" "holds_positions R m"
    and "InsertMonitor env chk event n i b R = (R', e)"
  shows "if unat n < 2 ^ 63 \<and> m event = None
    then e = None \<and> holds_positions R' (m(event \<mapsto> (n, i, b))) else e \<noteq> None \<and> R' = R"
proof -
  from assms(2) obtain ps where ps: "R = map position_row ps" "distinct (map fst ps)" "m = map_of ps"
    by (auto simp: holds_positions_def)
  have new: "holds_positions (R @ [position_row (event, n, i, b)]) (m(event \<mapsto> (n, i, b)))"
    if "m event = None"
    using holds_appended [OF ps(2)] that by (simp add: ps(1,3) del: map_of_eq_None_iff)
  have known: "SText event \<in> (\<lambda>x. x ''event'') ` set R \<longleftrightarrow> m event \<noteq> None"
    unfolding ps(1,3) event_known by (simp add: map_of_eq_None_iff)
  show ?thesis
    using assms(3) new chk_docD [OF assms(1)]
    by (auto simp: InsertMonitor_def monitor_binds new_position_row Let_def known
        simp del: set_cols.simps map_result.simps split: if_splits)
qed

lemma update_position:
  assumes "chk_doc chk" "holds_positions R m"
    and "UpdateMonitorBlock env chk event n i R = (R', e)"
  shows "case m event of
      Some (n0, i0, b) \<Rightarrow> if unat n < 2 ^ 63 then e = None \<and> holds_positions R' (m(event \<mapsto> (n, i, b)))
        else e \<noteq> None \<and> R' = R
    | None \<Rightarrow> e \<noteq> None \<and> R' = R"
proof -
  from assms(2) obtain ps where ps: "R = map position_row ps" "distinct (map fst ps)" "m = map_of ps"
    by (auto simp: holds_positions_def)
  have same: "map (move_to event n i) ps = ps" if "m event = None"
    using that ps(3) by (intro map_idI) (auto simp: move_to_def map_of_eq_None_iff image_iff)
  show ?thesis
    using assms(3) ps(2,3) holds_moved [OF ps(2), of event n i] same chk_docD [OF assms(1)]
    by (auto simp: UpdateMonitorBlock_def ps(1) monitor_binds moved_rows selected_rows one_row
        map_of_move_to Let_def simp del: map_of_eq_Some_iff set_cols.simps map_result.simps map_map split: if_splits option.splits)
qed

lemma upsert_position:
  assumes "chk_doc chk" "holds_positions R m"
    and "UpsertMonitorBlock env chk event n i b R = (R', e)"
  shows "if unat n < 2 ^ 63 then e = None \<and> holds_positions R'
      (m(event \<mapsto> (n, i, case m event of Some (n0, i0, b0) \<Rightarrow> b0 | None \<Rightarrow> b)))
    else e \<noteq> None \<and> R' = R"
proof -
  from assms(2) obtain ps where ps: "R = map position_row ps" "distinct (map fst ps)" "m = map_of ps"
    by (auto simp: holds_positions_def)
  have known: "SText event \<in> (\<lambda>x. x ''event'') ` set R \<longleftrightarrow> m event \<noteq> None"
    unfolding ps(1,3) event_known by (simp add: map_of_eq_None_iff)
  have new: "holds_positions (R @ [position_row (event, n, i, b)]) (m(event \<mapsto> (n, i, b)))"
    if "m event = None"
    using holds_appended [OF ps(2)] that by (simp add: ps(1,3) del: map_of_eq_None_iff)
  have moved: "holds_positions (update_where (\<lambda>r. r ''event'' = SText event)
      (\<lambda>r. r(''blocknum'' := SInt (uint n), ''blockidx'' := SInt (sint i))) R) (m(event \<mapsto> (n, i, b0)))"
    if "m event = Some (n0, i0, b0)" for n0 i0 b0
    using holds_moved [OF ps(2), of event n i] that
    by (simp add: ps(1,3) moved_rows map_of_move_to del: map_map)
  show ?thesis
    using assms(3) new moved chk_docD [OF assms(1)]
    by (auto simp: UpsertMonitorBlock_def monitor_binds new_position_row Let_def known
        simp del: set_cols.simps map_result.simps split: if_splits option.splits)
qed

text \<open>C29: The monitor table implements a map from event names to positions: get looks a name up, insert
  adds a new name, update moves a known one, and upsert does either, keeping the restart flag of a
  known name. Each fails, and then changes nothing, exactly when the name is known (insert) or
  unknown (update) or the block number is 2^63 or more.\<close>

theorem monitor_table_implements_map:
  assumes "dal_doc env" "chk_doc chk" "holds_positions R m"
  shows "GetMonitorBlock env event R =
      Inr (case m event of None \<Rightarrow> (0, 0, False) | Some (n, i, b) \<Rightarrow> (n, i, True)) \<and>
    (case InsertMonitor env chk event n i b R of (R', e) \<Rightarrow>
      if unat n < 2 ^ 63 \<and> m event = None
      then e = None \<and> holds_positions R' (m(event \<mapsto> (n, i, b))) else e \<noteq> None \<and> R' = R) \<and>
    (case UpdateMonitorBlock env chk event n i R of (R', e) \<Rightarrow> (case m event of
        Some (n0, i0, b0) \<Rightarrow>
          if unat n < 2 ^ 63 then e = None \<and> holds_positions R' (m(event \<mapsto> (n, i, b0)))
          else e \<noteq> None \<and> R' = R
      | None \<Rightarrow> e \<noteq> None \<and> R' = R)) \<and>
    (case UpsertMonitorBlock env chk event n i b R of (R', e) \<Rightarrow>
      if unat n < 2 ^ 63
      then e = None \<and> holds_positions R'
        (m(event \<mapsto> (n, i, case m event of Some (n0, i0, b0) \<Rightarrow> b0 | None \<Rightarrow> b)))
      else e \<noteq> None \<and> R' = R)"
proof (intro conjI case_prodI2)
  show "GetMonitorBlock env event R =
      Inr (case m event of None \<Rightarrow> (0, 0, False) | Some (n, i, b) \<Rightarrow> (n, i, True))"
    by (rule get_position [OF assms(1,3)])
qed (rule insert_position [OF assms(2,3)] update_position [OF assms(2,3)] upsert_position [OF assms(2,3)];
    assumption)+

theorem monitor_table_implements_map_witness:
  "GetMonitorBlock ref_env ''LogNewTransferOut'' [position_row (''LogNewTransferOut'', 700, 3, False)] =
     Inr (700, 3, True) \<and>
   holds_positions (fst (UpsertMonitorBlock ref_env ref_chk ''LogNewTransferOut'' 900 1 True
       [position_row (''LogNewTransferOut'', 700, 3, False)]))
     [''LogNewTransferOut'' \<mapsto> (900, 1, False)]"
proof -
  have "holds_positions [position_row (''LogNewTransferOut'', 700, 3, False)]
      [''LogNewTransferOut'' \<mapsto> (700, 3, False)]"
    unfolding holds_positions_def by (rule exI [of _ "[(''LogNewTransferOut'', 700, 3, False)]"]) simp
  from monitor_table_implements_map [OF ref_env_doc ref_chk_doc this, of "''LogNewTransferOut''" 900 1 True]
  show ?thesis by (simp split: prod.splits)
qed

end
