(* ===== verification/Server_Init.thy ===== *)
theory Server_Init
  imports Server_State Monitor_Handlers Monitor_Table
begin

text \<open>
  Starting the server of \<open>src/server/server.go\<close>: opening the database and the key, filling the
  maps from the configuration chain by chain and token by token, approving the bridge contract
  for each token, the first ping, and starting the monitors; the ping itself; and closing. What
  the libraries answer is a record of functions; each gets the history of the calls before it,
  latest first, so that an answer may depend on them.
\<close>

section \<open>The surroundings\<close>

datatype TxOption =
    WithTimeout int
  | WithBlockDelay u64
  | WithPollingInterval int
  | WithAddGasGwei u64
  | WithAddGasEstimateRatio float64
  | WithGasLimit u64

record MonitorConfig =
  MC_ChainId :: u64
  MC_EventName :: string
  MC_Contract :: addr
  MC_StartBlock :: u64
  MC_ForwardDelay :: u64

datatype init_ev =
    DbE string string int
  | ChainE string "int result"
  | TransactorE string int "TxOption list" "string option"
  | AllowanceE string addr abi_call "abi_val list result"
  | ApproveE string addr abi_call "hash result"
  | MinedE string string "string option"
  | MonitorE MonitorConfig "string option"

text \<open>\<open>IW_Signer\<close> makes the signing function from keystore and passphrase. Endpoints name the
  chain connections. \<open>IW_Order\<close> is the order in which the runtime iterates a map with the given
  keys.\<close>

record init_world =
  IW_os :: os_env
  IW_NewDb :: "string \<Rightarrow> string \<Rightarrow> int \<Rightarrow> unit result"
  IW_KeyAddr :: "string \<Rightarrow> string \<Rightarrow> addr result"
  IW_Signer :: "string \<Rightarrow> string \<Rightarrow> (u8 list \<Rightarrow> u8 list result) result"
  IW_Dial :: "string \<Rightarrow> string option"
  IW_ChainID :: "init_ev list \<Rightarrow> string \<Rightarrow> int result"
  IW_Transactor :: "init_ev list \<Rightarrow> string \<Rightarrow> int \<Rightarrow> TxOption list \<Rightarrow> string option"
  IW_Erc20Err :: "string option"
  IW_OpenKs :: "string \<Rightarrow> string option"
  IW_AuthErr :: "string \<Rightarrow> int \<Rightarrow> string option"
  IW_Call :: "init_ev list \<Rightarrow> string \<Rightarrow> addr \<Rightarrow> abi_call \<Rightarrow> abi_val list result"
  IW_Approve :: "init_ev list \<Rightarrow> string \<Rightarrow> addr \<Rightarrow> abi_call \<Rightarrow> hash result"
  IW_Mined :: "init_ev list \<Rightarrow> string \<Rightarrow> string \<Rightarrow> string option"
  IW_Ping :: "init_ev list \<Rightarrow> PingRequest \<Rightarrow> gw_error + PingResponse option"
  IW_Watch :: "u64 \<Rightarrow> u64 \<Rightarrow> u64 \<Rightarrow> bool"
  IW_Block :: "init_ev list \<Rightarrow> u64 \<Rightarrow> u64"
  IW_Monitor :: "init_ev list \<Rightarrow> MonitorConfig \<Rightarrow> string option"
  IW_Order :: "u64 set \<Rightarrow> u64 list"

text \<open>How a part of the start ends; a panic is a conversion of a chain's answer to the wrong type.\<close>

datatype outcome = InitOk | InitErr string | InitPanic

section \<open>Transactor options\<close>

definition transactorWaitTimeout :: int where "transactorWaitTimeout = 5 * minute"

text \<open>\<open>time.Duration(n) * time.Second\<close> is an \<open>int64\<close>.\<close>

definition transactorOptions :: "ChainConfig \<Rightarrow> TxOption list" where
  "transactorOptions cc =
     (let x = ChainConfig_GetTransactorConfig (Some cc)
      in [WithTimeout transactorWaitTimeout, WithBlockDelay (WatchConfig_GetBlockDelay (CC_WatchConfig cc)),
          WithPollingInterval (sint (WatchConfig_GetPollingInterval (CC_WatchConfig cc) * of_int second))] @
         (if 0 < TransactorConfig_GetAddGasGwei x
          then [WithAddGasGwei (TransactorConfig_GetAddGasGwei x)] else []) @
         (if float_positive (TransactorConfig_GetAddGasEstimateRatio x)
          then [WithAddGasEstimateRatio (TransactorConfig_GetAddGasEstimateRatio x)] else []) @
         (if 0 < TransactorConfig_GetGasLimit x
          then [WithGasLimit (TransactorConfig_GetGasLimit x)] else []))"

section \<open>One token\<close>

definition add_key :: "'a \<Rightarrow> 'a list \<Rightarrow> 'a list" where
  "add_key a ks = (if a \<in> set ks then ks else ks @ [a])"

text \<open>The allowance of the bridge contract, raised to the maximum when below half of it. The
  receipt of the approval is awaited, its status not looked at.\<close>

definition approve_token ::
  "init_world \<Rightarrow> string \<Rightarrow> addr \<Rightarrow> addr \<Rightarrow> addr \<Rightarrow> init_ev list \<Rightarrow> ethlib \<Rightarrow> outcome \<times> init_ev list" where
  "approve_token w ep account bridge token h lib =
     (let call = Erc20_Allowance_call account bridge;
          r = IW_Call w h ep token call;
          h1 = AllowanceE ep token call r # h
      in case Erc20_out r of
           None \<Rightarrow> (InitPanic, h1)
         | Some (Inl err) \<Rightarrow> (InitErr err, h1)
         | Some (Inr curAllowance) \<Rightarrow>
             if curAllowance < MaxUint256 div 2 then
               (let ap = Erc20_Approve bridge MaxUint256;
                    t = IW_Approve w h1 ep token ap;
                    h2 = ApproveE ep token ap t # h1
                in case t of
                     Inl approveErr \<Rightarrow> (InitErr approveErr, h2)
                   | Inr approveTx \<Rightarrow>
                       (let m = IW_Mined w h2 ep (HashString lib approveTx);
                            h3 = MinedE ep (HashString lib approveTx) m # h2
                        in case m of Some e \<Rightarrow> (InitErr e, h3) | None \<Rightarrow> (InitOk, h3)))
             else (InitOk, h1))"

text \<open>The name and decimal maps are keyed by the configured chain id, the address map by the id
  the chain reports.\<close>

definition init_token ::
  "init_world \<Rightarrow> node_env \<Rightarrow> string \<Rightarrow> string \<Rightarrow> TokenConfig \<Rightarrow> bridgeConfig \<Rightarrow> server \<Rightarrow> init_ev list \<Rightarrow>
     outcome \<times> bridgeConfig \<times> server \<times> init_ev list" where
  "init_token w env ks passphrase tc bgc s h =
     (let cc = BG_config bgc; a = Hex2Addr (NE_lib env) (TC_TokenAddress tc);
          ep = ChainConfig_GetEndpoint (Some cc); cid = ChainConfig_GetChainId (Some cc);
          s = s\<lparr>SV_chainTokenNameMap :=
                insert2 (SV_chainTokenNameMap s) cid a (TokenConfig_GetTokenName (Some tc))\<rparr>;
          s = s\<lparr>SV_chainTokenDecimalMap :=
                insert2 (SV_chainTokenDecimalMap s) cid a (TokenConfig_GetTokenDecimal (Some tc))\<rparr>
      in if TokenConfig_GetTokenDecimal (Some tc) \<le> 0
         then (InitErr ''find invalid token decimal'', bgc, s, h)
         else
           (let s = s\<lparr>SV_chainTokenAddrMap :=
                  insert2 (SV_chainTokenAddrMap s) (chain_uint64 bgc) (TokenConfig_GetTokenName (Some tc)) a\<rparr>;
                bgc = bgc\<lparr>BG_erc20 := add_key a (BG_erc20 bgc)\<rparr>
            in case IW_Erc20Err w of
                 Some err \<Rightarrow> (InitErr err, bgc, s, h)
               | None \<Rightarrow> (case IW_OpenKs w ks of
                   Some err \<Rightarrow> (InitErr err, bgc, s, h)
                 | None \<Rightarrow> (case IW_AuthErr w passphrase (BG_chainId bgc) of
                     Some err \<Rightarrow> (InitErr err, bgc, s, h)
                   | None \<Rightarrow>
                       (case approve_token w ep (SV_accountAddr s) (BG_contract bgc) a h (NE_lib env) of
                          (out, h') \<Rightarrow> (out, bgc, s, h'))))))"

fun init_tokens ::
  "init_world \<Rightarrow> node_env \<Rightarrow> string \<Rightarrow> string \<Rightarrow> TokenConfig list \<Rightarrow> bridgeConfig \<Rightarrow> server \<Rightarrow> init_ev list \<Rightarrow>
     outcome \<times> bridgeConfig \<times> server \<times> init_ev list" where
  "init_tokens w env ks pw [] bgc s h = (InitOk, bgc, s, h)"
| "init_tokens w env ks pw (tc # tcs) bgc s h =
     (case init_token w env ks pw tc bgc s h of
        (InitOk, bgc', s', h') \<Rightarrow> init_tokens w env ks pw tcs bgc' s' h'
      | r \<Rightarrow> r)"

section \<open>One chain\<close>

definition init_chain ::
  "init_world \<Rightarrow> node_env \<Rightarrow> string \<Rightarrow> string \<Rightarrow> ChainConfig \<Rightarrow> server \<Rightarrow> init_ev list \<Rightarrow>
     outcome \<times> server \<times> init_ev list" where
  "init_chain w env ks pw cc s h =
     (let ep = ChainConfig_GetEndpoint (Some cc)
      in case IW_Dial w ep of
           Some err \<Rightarrow> (InitErr err, s, h)
         | None \<Rightarrow>
             (let r = IW_ChainID w h ep; h = ChainE ep r # h
              in case r of
                   Inl err \<Rightarrow> (InitErr err, s, h)
                 | Inr chainId \<Rightarrow>
                     (let opts = transactorOptions cc; t = IW_Transactor w h ep chainId opts;
                          h = TransactorE ep chainId opts t # h
                      in case t of
                           Some err \<Rightarrow> (InitErr err, s, h)
                         | None \<Rightarrow> (case NE_AbiErr env of
                             Some err \<Rightarrow> (InitErr err, s, h)
                           | None \<Rightarrow>
                               (let bgc = \<lparr>BG_config = cc, BG_chainId = chainId,
                                      BG_contract = Hex2Addr (NE_lib env) (CC_ContractAddress cc),
                                      BG_erc20 = []\<rparr>;
                                    s = s\<lparr>SV_chainGasTokenMap := (SV_chainGasTokenMap s)
                                      (ChainConfig_GetChainId (Some cc) \<mapsto>
                                        \<lparr>GT_GasTokenName = ChainConfig_GetGasTokenName (Some cc),
                                         GT_GasTokenDecimal = ChainConfig_GetGasTokenDecimal (Some cc)\<rparr>)\<rparr>
                                in case init_tokens w env ks pw (ChainConfig_GetTokenConfig (Some cc)) bgc s h of
                                     (InitOk, bgc', s', h') \<Rightarrow>
                                       (InitOk, s'\<lparr>SV_chainMap := (SV_chainMap s')
                                          (chain_uint64 bgc' \<mapsto> bgc')\<rparr>, h')
                                   | (out, bgc', s', h') \<Rightarrow> (out, s', h'))))))"

fun init_chains ::
  "init_world \<Rightarrow> node_env \<Rightarrow> string \<Rightarrow> string \<Rightarrow> ChainConfig list \<Rightarrow> server \<Rightarrow> init_ev list \<Rightarrow>
     outcome \<times> server \<times> init_ev list" where
  "init_chains w env ks pw [] s h = (InitOk, s, h)"
| "init_chains w env ks pw (cc # ccs) s h =
     (case init_chain w env ks pw cc s h of
        (InitOk, s', h') \<Rightarrow> init_chains w env ks pw ccs s' h'
      | r \<Rightarrow> r)"

section \<open>The ping\<close>

text \<open>\<open>bal\<close> is what \<open>balanceOf\<close> answers for a chain and token; a failed call skips the token.
  \<open>None\<close> is the panic of a mistyped answer.\<close>

fun balances ::
  "ethlib \<Rightarrow> (addr \<Rightarrow> abi_val list result) \<Rightarrow> addr list \<Rightarrow> (string \<rightharpoonup> string) \<Rightarrow> (string \<rightharpoonup> string) option" where
  "balances lib bal [] m = Some m"
| "balances lib bal (a # as) m =
     (case Erc20_out (bal a) of
        None \<Rightarrow> None
      | Some (Inl balanceErr) \<Rightarrow> balances lib bal as m
      | Some (Inr balance) \<Rightarrow> balances lib bal as (m(AddrString lib a \<mapsto> big_String balance)))"

fun chain_infos ::
  "ethlib \<Rightarrow> (u64 \<Rightarrow> addr \<Rightarrow> abi_val list result) \<Rightarrow> server \<Rightarrow> u64 list \<Rightarrow> ChainInfo list option" where
  "chain_infos lib bal s [] = Some []"
| "chain_infos lib bal s (k # ks) =
     (case SV_chainMap s k of
        None \<Rightarrow> chain_infos lib bal s ks
      | Some v \<Rightarrow>
          (case balances lib (bal k) (BG_erc20 v) Map.empty of
             None \<Rightarrow> None
           | Some m \<Rightarrow>
               map_option ((#) \<lparr>CI_ChainId = k, CI_TokenAndBalance = m,
                 CI_FeePer_10000 = CC_FeeRate (BG_config v)\<rparr>) (chain_infos lib bal s ks)))"

definition setGatewayChainInfo :: "(u64 \<rightharpoonup> GatewayChainInfo) \<Rightarrow> server \<Rightarrow> server" where
  "setGatewayChainInfo m s = s\<lparr>SV_gatewayChainInfoMap := m\<rparr>"

datatype ping_out = PingOk | PingSigErr string | PingErr gw_error | PingRefused ErrMsg | PingPanic

text \<open>\<open>ping\<close> is the gateway client's \<open>PingGateway\<close>, \<open>order\<close> the order the chain map is
  iterated in.\<close>

definition PingAndRefreshFee ::
  "node_env \<Rightarrow> (u8 list \<Rightarrow> u8 list result) \<Rightarrow> (u64 \<Rightarrow> addr \<Rightarrow> abi_val list result) \<Rightarrow>
     (PingRequest \<Rightarrow> gw_error + PingResponse option) \<Rightarrow> u64 list \<Rightarrow> server \<Rightarrow> ping_out \<times> server" where
  "PingAndRefreshFee env sign bal ping order s =
     (case sign (addr_bytes (SV_accountAddr s)) of
        Inl err \<Rightarrow> (PingSigErr err, s)
      | Inr sigMsg \<Rightarrow>
          (case chain_infos (NE_lib env) bal s order of
             None \<Rightarrow> (PingPanic, s)
           | Some infos \<Rightarrow>
               (case ping \<lparr>PQ_EthAddr = AddrString (NE_lib env) (SV_accountAddr s), PQ_ChainInfo = infos,
                    PQ_NickName = CBridgeConfig_GetRelayNodeName (SV_cfg s), PQ_Sig = sigMsg,
                    PQ_NodeVersion = SV_version s\<rparr> of
                  Inl pingErr \<Rightarrow> (PingErr pingErr, s)
                | Inr resp \<Rightarrow>
                    (case PingResponse_GetErr resp of
                       Some beErr \<Rightarrow> (PingRefused beErr, s)
                     | None \<Rightarrow> (PingOk, setGatewayChainInfo (PingResponse_GetChainInfo resp) s)))))"

text \<open>One tick of the cron, every 30 seconds: an error is only logged, a panic ends the node.\<close>

definition PingCron ::
  "node_env \<Rightarrow> (u8 list \<Rightarrow> u8 list result) \<Rightarrow> (u64 \<Rightarrow> addr \<Rightarrow> abi_val list result) \<Rightarrow>
     (PingRequest \<Rightarrow> gw_error + PingResponse option) \<Rightarrow> u64 list \<Rightarrow> server \<Rightarrow> int \<times> server option" where
  "PingCron env sign bal ping order s =
     (30 * second,
      case PingAndRefreshFee env sign bal ping order s of (out, s') \<Rightarrow>
        if out = PingPanic then None else Some s')"

section \<open>The monitors\<close>

definition monitor_config :: "bridgeConfig \<Rightarrow> string \<Rightarrow> u64 \<Rightarrow> MonitorConfig" where
  "monitor_config bc event currentBlock =
     \<lparr>MC_ChainId = chain_uint64 bc, MC_EventName = event, MC_Contract = BG_contract bc,
      MC_StartBlock = currentBlock,
      MC_ForwardDelay =
        WatchConfig_GetForwardBlockDelay (ChainConfig_GetWatchConfig (Some (BG_config bc)))\<rparr>"

fun start_monitors ::
  "init_world \<Rightarrow> bridgeConfig \<Rightarrow> string list \<Rightarrow> init_ev list \<Rightarrow> outcome \<times> init_ev list" where
  "start_monitors w bgc [] h = (InitOk, h)"
| "start_monitors w bgc (event # events) h =
     (let cfg = monitor_config bgc event (IW_Block w h (chain_uint64 bgc));
          r = IW_Monitor w h cfg; h' = MonitorE cfg r # h
      in case r of Some err \<Rightarrow> (InitErr err, h') | None \<Rightarrow> start_monitors w bgc events h')"

fun start_chains ::
  "init_world \<Rightarrow> server \<Rightarrow> u64 list \<Rightarrow> init_ev list \<Rightarrow> outcome \<times> init_ev list" where
  "start_chains w s [] h = (InitOk, h)"
| "start_chains w s (k # ks) h =
     (case SV_chainMap s k of
        None \<Rightarrow> start_chains w s ks h
      | Some bgc \<Rightarrow>
          (let wc = CC_WatchConfig (BG_config bgc)
           in if IW_Watch w k (WatchConfig_GetPollingInterval wc) (WatchConfig_GetMaxBlockDelta wc) then
                (case start_monitors w bgc
                    [evLogTransferOut, evLogTransferIn, evLogTransferConfirmed, evLogTransferRefunded] h of
                   (InitOk, h') \<Rightarrow> start_chains w s ks h'
                 | r \<Rightarrow> r)
              else (InitErr ''NewWatchService failed'', h)))"

section \<open>The whole start\<close>

text \<open>The connection text of the database is a format with one place, for the host.\<close>

definition dbDriver :: string where
  "dbDriver = ''postgres''"

definition dbFmt :: "string \<Rightarrow> string" where
  "dbFmt host = ''postgresql://cbridge@'' @ host @ ''/cbridge?sslmode=disable''"

definition dbPoolSize :: int where
  "dbPoolSize = 20"

definition server_Init ::
  "init_world \<Rightarrow> node_env \<Rightarrow> CBridgeConfig \<Rightarrow> string \<Rightarrow> string \<Rightarrow> server \<Rightarrow> outcome \<times> server \<times> init_ev list" where
  "server_Init w env config ks pwdDir s =
     (let s = s\<lparr>SV_cfg := Some config\<rparr>;
          info = dbFmt (CBridgeConfig_GetDb (Some config));
          h = [DbE dbDriver info dbPoolSize]
      in case NewDAL (IW_NewDb w) dbDriver info dbPoolSize of
           Inl err \<Rightarrow> (InitErr err, s, h)
         | Inr db \<Rightarrow> (case GetTransactorConfig (IW_os w) ks pwdDir of
             Inl err \<Rightarrow> (InitErr err, s, h)
           | Inr (keyjson, passphrase) \<Rightarrow> (case IW_KeyAddr w keyjson passphrase of
             Inl err \<Rightarrow> (InitErr err, s, h)
           | Inr account \<Rightarrow>
             (let s = s\<lparr>SV_accountAddr := account\<rparr>
              in case IW_Signer w keyjson passphrase of
                   Inl err \<Rightarrow> (InitErr err, s, h)
                 | Inr sign \<Rightarrow>
                   (case init_chains w env ks passphrase (CBridgeConfig_GetChainConfig (Some config)) s h of
                      (InitOk, s, h) \<Rightarrow>
                        (let order = IW_Order w (dom (SV_chainMap s));
                             bal = (\<lambda>k a. case SV_chainMap s k of
                               None \<Rightarrow> Inl ''no chain''
                             | Some v \<Rightarrow> IW_Call w h (CC_Endpoint (BG_config v)) a (Erc20_BalanceOf_call account))
                         in case PingAndRefreshFee env sign bal (IW_Ping w h) order s of
                              (PingOk, s) \<Rightarrow> (case start_chains w s order h of (out, h) \<Rightarrow> (out, s, h))
                            | (PingPanic, s) \<Rightarrow> (InitPanic, s, h)
                            | (err, s) \<Rightarrow> (InitErr ''ping failed'', s, h))
                    | r \<Rightarrow> r)))))"

section \<open>Watching a transaction\<close>

text \<open>The handler given with every transaction: it writes one line to the log, at the level the
  first component names. \<open>hex\<close> is how the log package prints a transaction hash.\<close>

datatype log_level = LogInfo | LogError

record TransactionStateHandler =
  OnMined :: "u64 \<Rightarrow> hash \<Rightarrow> log_level \<times> string"
  OnError :: "hash \<Rightarrow> string \<Rightarrow> log_level \<times> string"

definition ReceiptStatusSuccessful :: u64 where
  "ReceiptStatusSuccessful = 1"

definition logTransactionStateHandler :: "(hash \<Rightarrow> string) \<Rightarrow> string \<Rightarrow> TransactionStateHandler" where
  "logTransactionStateHandler hex desc =
     \<lparr>OnMined = \<lambda>status txHash.
        if status = ReceiptStatusSuccessful
        then (LogInfo, desc @ '' transaction '' @ hex txHash @ '' succeeded'')
        else (LogError, desc @ '' transaction '' @ hex txHash @ '' failed''),
      OnError = \<lambda>txHash err. (LogError, desc @ '' transaction '' @ hex txHash @ '' err: '' @ err)\<rparr>"

lemma mined_logs_error:
  "fst (OnMined (logTransactionStateHandler hex desc) status tx) = LogError \<longleftrightarrow>
     status \<noteq> ReceiptStatusSuccessful"
  by (simp add: logTransactionStateHandler_def)

section \<open>Closing\<close>

datatype close_ev = CloseMonitor u64 | CloseWait int | CloseWatch u64

text \<open>\<open>running\<close> are the chains with a monitor. The second result are the chains that still have
  one; the quit channel is closed first, and a second close of it panics.\<close>

definition server_Close ::
  "bool \<Rightarrow> u64 list \<Rightarrow> (u64 \<Rightarrow> bool) \<Rightarrow> (close_ev list \<times> (u64 \<Rightarrow> bool)) option" where
  "server_Close quit_closed order running =
     (if quit_closed then None
      else Some
        (concat (map (\<lambda>k. if running k then [CloseMonitor k, CloseWait (2 * second), CloseWatch k] else []) order),
         \<lambda>k. running k \<and> k \<notin> set order))"

text \<open>\<open>log.Fatalln\<close> ends the process when the gateway cannot be dialled.\<close>

definition InitGatewayClient ::
  "(string \<Rightarrow> 'conn result) \<Rightarrow> string \<Rightarrow> (string + 'conn GatewayClient)" where
  "InitGatewayClient dial gatewayUrl =
     (case NewGatewayAPI dial gatewayUrl of
        Inl err \<Rightarrow> Inl (''fail to connect to gateway server:'' @ err)
      | Inr g \<Rightarrow> Inr g)"

end
