(* ===== verification/Server_Maps.thy ===== *)
theory Server_Maps
  imports Server_Init
begin

text \<open>
  What a successful start leaves: every token has a positive decimal and an allowance, the maps of
  names and decimals have the same entries, nothing entered is lost, and, where the chains report
  the ids they are configured with, every token a name leads to has a decimal.
\<close>

section \<open>What the maps satisfy\<close>

definition decimals_hold :: "(u64 \<Rightarrow> bool) \<Rightarrow> server \<Rightarrow> bool" where
  "decimals_hold P s \<longleftrightarrow> (\<forall>c a d. lookup2 (SV_chainTokenDecimalMap s) c a = Some d \<longrightarrow> P d)"

definition names_have_decimals :: "server \<Rightarrow> bool" where
  "names_have_decimals s \<longleftrightarrow>
     (\<forall>c a. lookup2 (SV_chainTokenNameMap s) c a = None \<longleftrightarrow> lookup2 (SV_chainTokenDecimalMap s) c a = None)"

definition addrs_have_decimals :: "server \<Rightarrow> bool" where
  "addrs_have_decimals s \<longleftrightarrow>
     (\<forall>c n a. lookup2 (SV_chainTokenAddrMap s) c n = Some a \<longrightarrow>
        lookup2 (SV_chainTokenDecimalMap s) c a \<noteq> None)"

text \<open>Names are only entered under ids of a set.\<close>

definition names_within :: "u64 set \<Rightarrow> server \<Rightarrow> bool" where
  "names_within C s \<longleftrightarrow> (\<forall>c a. lookup2 (SV_chainTokenNameMap s) c a \<noteq> None \<longrightarrow> c \<in> C)"

text \<open>Entries are never removed, and the account does not change.\<close>

definition server_grows :: "server \<Rightarrow> server \<Rightarrow> bool" where
  "server_grows s s' \<longleftrightarrow>
     (\<forall>c a. lookup2 (SV_chainTokenNameMap s) c a \<noteq> None \<longrightarrow> lookup2 (SV_chainTokenNameMap s') c a \<noteq> None) \<and>
     (\<forall>c n. lookup2 (SV_chainTokenAddrMap s) c n \<noteq> None \<longrightarrow> lookup2 (SV_chainTokenAddrMap s') c n \<noteq> None) \<and>
     (\<forall>k. SV_chainMap s k \<noteq> None \<longrightarrow> SV_chainMap s' k \<noteq> None) \<and>
     SV_accountAddr s' = SV_accountAddr s"

lemma server_grows_refl [simp]: "server_grows s s"
  by (simp add: server_grows_def)

lemma server_grows_trans [trans]: "server_grows s s' \<Longrightarrow> server_grows s' s'' \<Longrightarrow> server_grows s s''"
  unfolding server_grows_def by metis

section \<open>The approval\<close>

text \<open>The history holds a sufficient allowance, or an approval of the maximum that was mined.\<close>

definition approved :: "ethlib \<Rightarrow> string \<Rightarrow> addr \<Rightarrow> addr \<Rightarrow> addr \<Rightarrow> init_ev list \<Rightarrow> bool" where
  "approved lib ep account bridge token h \<longleftrightarrow>
     (\<exists>r cur. AllowanceE ep token (Erc20_Allowance_call account bridge) r \<in> set h \<and>
        Erc20_out r = Some (Inr cur) \<and> MaxUint256 div 2 \<le> cur) \<or>
     (\<exists>tx. ApproveE ep token (Erc20_Approve bridge MaxUint256) (Inr tx) \<in> set h \<and>
        MinedE ep (HashString lib tx) None \<in> set h)"

lemma approved_mono: "approved lib ep account bridge token h \<Longrightarrow> set h \<subseteq> set h' \<Longrightarrow>
    approved lib ep account bridge token h'"
  unfolding approved_def by blast

lemma approve_token_history: "approve_token w ep account bridge token h lib = (out, h') \<Longrightarrow> set h \<subseteq> set h'"
  by (auto simp: approve_token_def Let_def split: option.splits sum.splits if_splits)

lemma approve_token_ok:
  "approve_token w ep account bridge token h lib = (InitOk, h') \<Longrightarrow> approved lib ep account bridge token h'"
  by (fastforce simp: approve_token_def approved_def Let_def not_less split: option.splits sum.splits if_splits)

section \<open>One token\<close>

text \<open>A token that was entered: its name and decimal under the configured id, its address under the
  reported one, and the approval.\<close>

definition token_done ::
  "node_env \<Rightarrow> ChainConfig \<Rightarrow> u64 \<Rightarrow> TokenConfig \<Rightarrow> server \<Rightarrow> init_ev list \<Rightarrow> bool" where
  "token_done env cc reported tc s h \<longleftrightarrow>
     lookup2 (SV_chainTokenNameMap s) (CC_ChainId cc) (Hex2Addr (NE_lib env) (TC_TokenAddress tc)) \<noteq> None \<and>
     lookup2 (SV_chainTokenAddrMap s) reported (TC_TokenName tc) \<noteq> None \<and>
     approved (NE_lib env) (CC_Endpoint cc) (SV_accountAddr s)
       (Hex2Addr (NE_lib env) (CC_ContractAddress cc)) (Hex2Addr (NE_lib env) (TC_TokenAddress tc)) h"

lemma token_done_mono:
  "token_done env cc reported tc s h \<Longrightarrow> server_grows s s' \<Longrightarrow> set h \<subseteq> set h' \<Longrightarrow>
   token_done env cc reported tc s' h'"
  unfolding token_done_def server_grows_def by (metis approved_mono)

lemma init_token_ok:
  assumes "init_token w env ks pw tc bgc s h = (InitOk, bgc', s', h')"
  shows "bgc' = bgc\<lparr>BG_erc20 := add_key (Hex2Addr (NE_lib env) (TC_TokenAddress tc)) (BG_erc20 bgc)\<rparr>"
    and "s' = s\<lparr>SV_chainTokenNameMap := insert2 (SV_chainTokenNameMap s) (CC_ChainId (BG_config bgc))
          (Hex2Addr (NE_lib env) (TC_TokenAddress tc)) (TC_TokenName tc),
        SV_chainTokenDecimalMap := insert2 (SV_chainTokenDecimalMap s) (CC_ChainId (BG_config bgc))
          (Hex2Addr (NE_lib env) (TC_TokenAddress tc)) (TC_TokenDecimal tc),
        SV_chainTokenAddrMap := insert2 (SV_chainTokenAddrMap s) (chain_uint64 bgc) (TC_TokenName tc)
          (Hex2Addr (NE_lib env) (TC_TokenAddress tc))\<rparr>"
    and "0 < TC_TokenDecimal tc"
    and "approve_token w (CC_Endpoint (BG_config bgc)) (SV_accountAddr s) (BG_contract bgc)
        (Hex2Addr (NE_lib env) (TC_TokenAddress tc)) h (NE_lib env) = (InitOk, h')"
  using assms
  by (auto simp: init_token_def Let_def config_getters nil_get_def word_gt_0
      split: if_splits option.splits prod.splits)

lemma init_token_grows:
  assumes "init_token w env ks pw tc bgc s h = (InitOk, bgc', s', h')"
  shows "server_grows s s'" "set h \<subseteq> set h'" "BG_config bgc' = BG_config bgc"
    "BG_chainId bgc' = BG_chainId bgc" "BG_contract bgc' = BG_contract bgc"
    "SV_chainMap s' = SV_chainMap s"
  using init_token_ok [OF assms] approve_token_history by (simp_all add: server_grows_def lookup2_insert2)

lemma init_token_done:
  assumes "init_token w env ks pw tc bgc s h = (InitOk, bgc', s', h')"
    and "BG_contract bgc = Hex2Addr (NE_lib env) (CC_ContractAddress (BG_config bgc))"
  shows "token_done env (BG_config bgc) (chain_uint64 bgc) tc s' h'"
  using init_token_ok [OF assms(1)] approve_token_ok assms(2)
  by (simp add: token_done_def lookup2_insert2)

lemma init_token_decimals:
  assumes "init_token w env ks pw tc bgc s h = (InitOk, bgc', s', h')"
  shows "decimals_hold P s \<Longrightarrow> P (TC_TokenDecimal tc) \<Longrightarrow> decimals_hold P s'"
    "names_have_decimals s \<Longrightarrow> names_have_decimals s'"
    "addrs_have_decimals s \<Longrightarrow> chain_uint64 bgc = CC_ChainId (BG_config bgc) \<Longrightarrow> addrs_have_decimals s'"
  using init_token_ok(2) [OF assms]
  by (auto simp: decimals_hold_def names_have_decimals_def addrs_have_decimals_def lookup2_insert2
      split: if_splits)

lemma init_token_names:
  assumes "init_token w env ks pw tc bgc s h = (InitOk, bgc', s', h')"
    and "names_within C s" "CC_ChainId (BG_config bgc) \<in> C"
  shows "names_within C s'"
  using assms(2,3) init_token_ok(2) [OF assms(1)]
  by (auto simp: names_within_def lookup2_insert2 split: if_splits)

section \<open>All tokens of a chain\<close>

lemma init_tokens_grows:
  assumes "init_tokens w env ks pw tcs bgc s h = (InitOk, bgc', s', h')"
  shows "server_grows s s' \<and> set h \<subseteq> set h' \<and> BG_config bgc' = BG_config bgc \<and>
    BG_chainId bgc' = BG_chainId bgc \<and> BG_contract bgc' = BG_contract bgc \<and> SV_chainMap s' = SV_chainMap s"
  using assms
proof (induction tcs arbitrary: bgc s h)
  case (Cons tc tcs)
  then obtain bgc1 s1 h1 where 1: "init_token w env ks pw tc bgc s h = (InitOk, bgc1, s1, h1)"
    "init_tokens w env ks pw tcs bgc1 s1 h1 = (InitOk, bgc', s', h')"
    by (auto split: prod.splits outcome.splits)
  from init_token_grows [OF 1(1)] Cons.IH [OF 1(2)] show ?case by (auto intro: server_grows_trans)
qed simp

lemma init_tokens_done:
  assumes "init_tokens w env ks pw tcs bgc s h = (InitOk, bgc', s', h')"
    and "BG_contract bgc = Hex2Addr (NE_lib env) (CC_ContractAddress (BG_config bgc))" "tc \<in> set tcs"
  shows "token_done env (BG_config bgc) (chain_uint64 bgc) tc s' h'"
  using assms
proof (induction tcs arbitrary: bgc s h)
  case (Cons t tcs)
  then obtain bgc1 s1 h1 where 1: "init_token w env ks pw t bgc s h = (InitOk, bgc1, s1, h1)"
    "init_tokens w env ks pw tcs bgc1 s1 h1 = (InitOk, bgc', s', h')"
    by (auto split: prod.splits outcome.splits)
  note same = init_token_grows [OF 1(1)]
  have "token_done env (BG_config bgc) (chain_uint64 bgc) tc s' h'" if "tc \<in> set tcs"
    using Cons.IH [OF 1(2) _ that] Cons.prems(2) same by (simp add: chain_uint64_def)
  moreover have "token_done env (BG_config bgc) (chain_uint64 bgc) t s' h'"
    using init_token_done [OF 1(1) Cons.prems(2)] init_tokens_grows [OF 1(2)] token_done_mono by blast
  ultimately show ?case using Cons.prems(3) by auto
qed simp

lemma init_tokens_decimals:
  assumes "init_tokens w env ks pw tcs bgc s h = (InitOk, bgc', s', h')"
  shows "decimals_hold P s \<Longrightarrow> \<forall>tc\<in>set tcs. 0 < TC_TokenDecimal tc \<longrightarrow> P (TC_TokenDecimal tc) \<Longrightarrow>
      decimals_hold P s'"
    "names_have_decimals s \<Longrightarrow> names_have_decimals s'"
    "addrs_have_decimals s \<Longrightarrow> chain_uint64 bgc = CC_ChainId (BG_config bgc) \<Longrightarrow> addrs_have_decimals s'"
  using assms
proof (induction tcs arbitrary: bgc s h)
  case (Cons tc tcs)
  {
    case 1
    then obtain bgc1 s1 h1 where s: "init_token w env ks pw tc bgc s h = (InitOk, bgc1, s1, h1)"
      "init_tokens w env ks pw tcs bgc1 s1 h1 = (InitOk, bgc', s', h')"
      by (auto split: prod.splits outcome.splits)
    have "decimals_hold P s1"
      using init_token_decimals(1) [OF s(1) 1(1)] init_token_ok(3) [OF s(1)] 1(2) by simp
    from Cons.IH(1) [OF this _ s(2)] 1(2) show ?case by simp
  next
    case 2
    then obtain bgc1 s1 h1 where s: "init_token w env ks pw tc bgc s h = (InitOk, bgc1, s1, h1)"
      "init_tokens w env ks pw tcs bgc1 s1 h1 = (InitOk, bgc', s', h')"
      by (auto split: prod.splits outcome.splits)
    from Cons.IH(2) [OF init_token_decimals(2) [OF s(1) 2(1)] s(2)] show ?case .
  next
    case 3
    then obtain bgc1 s1 h1 where s: "init_token w env ks pw tc bgc s h = (InitOk, bgc1, s1, h1)"
      "init_tokens w env ks pw tcs bgc1 s1 h1 = (InitOk, bgc', s', h')"
      by (auto split: prod.splits outcome.splits)
    have "chain_uint64 bgc1 = CC_ChainId (BG_config bgc1)"
      using init_token_grows [OF s(1)] 3(2) by (simp add: chain_uint64_def)
    from Cons.IH(3) [OF init_token_decimals(3) [OF s(1) 3(1,2)] this s(2)] show ?case .
  }
qed simp_all

lemma init_tokens_names:
  assumes "init_tokens w env ks pw tcs bgc s h = (InitOk, bgc', s', h')"
    and "names_within C s" "CC_ChainId (BG_config bgc) \<in> C"
  shows "names_within C s'"
  using assms
proof (induction tcs arbitrary: bgc s h)
  case (Cons tc tcs)
  then obtain bgc1 s1 h1 where 1: "init_token w env ks pw tc bgc s h = (InitOk, bgc1, s1, h1)"
    "init_tokens w env ks pw tcs bgc1 s1 h1 = (InitOk, bgc', s', h')"
    by (auto split: prod.splits outcome.splits)
  from Cons.IH [OF 1(2) init_token_names [OF 1(1) Cons.prems(2,3)]] init_token_grows(3) [OF 1(1)]
    Cons.prems(3) show ?case by simp
qed simp

section \<open>One chain and all chains\<close>

text \<open>A chain that was entered under the id it reports, with all its tokens.\<close>

definition chain_done :: "node_env \<Rightarrow> ChainConfig \<Rightarrow> server \<Rightarrow> init_ev list \<Rightarrow> bool" where
  "chain_done env cc s h \<longleftrightarrow>
     (\<exists>i. ChainE (CC_Endpoint cc) (Inr i) \<in> set h \<and> SV_chainMap s (of_int i) \<noteq> None \<and>
        (\<forall>tc\<in>set (CC_TokenConfig cc). token_done env cc (of_int i) tc s h))"

lemma chain_done_mono:
  "chain_done env cc s h \<Longrightarrow> server_grows s s' \<Longrightarrow> set h \<subseteq> set h' \<Longrightarrow> chain_done env cc s' h'"
proof -
  assume d: "chain_done env cc s h" and g: "server_grows s s'" and h: "set h \<subseteq> set h'"
  from d obtain i where i: "ChainE (CC_Endpoint cc) (Inr i) \<in> set h" "SV_chainMap s (of_int i) \<noteq> None"
    "\<forall>tc\<in>set (CC_TokenConfig cc). token_done env cc (of_int i) tc s h"
    unfolding chain_done_def by blast
  have "SV_chainMap s' (of_int i) \<noteq> None" using g i(2) unfolding server_grows_def by blast
  with i(1,3) h g show ?thesis unfolding chain_done_def using token_done_mono by blast
qed

definition set_gas_token :: "ChainConfig \<Rightarrow> server \<Rightarrow> server" where
  "set_gas_token cc s = s\<lparr>SV_chainGasTokenMap := (SV_chainGasTokenMap s)(CC_ChainId cc \<mapsto>
     \<lparr>GT_GasTokenName = CC_GasTokenName cc, GT_GasTokenDecimal = CC_GasTokenDecimal cc\<rparr>)\<rparr>"

definition set_chain :: "bridgeConfig \<Rightarrow> server \<Rightarrow> server" where
  "set_chain bgc s = s\<lparr>SV_chainMap := (SV_chainMap s)(chain_uint64 bgc \<mapsto> bgc)\<rparr>"

definition new_bridge :: "node_env \<Rightarrow> ChainConfig \<Rightarrow> int \<Rightarrow> bridgeConfig" where
  "new_bridge env cc i = \<lparr>BG_config = cc, BG_chainId = i,
     BG_contract = Hex2Addr (NE_lib env) (CC_ContractAddress cc), BG_erc20 = []\<rparr>"

lemma init_chain_ok:
  assumes "init_chain w env ks pw cc s h = (InitOk, s', h')"
  obtains i bgc' s1 h1 where "h1 = TransactorE (CC_Endpoint cc) i (transactorOptions cc) None #
      ChainE (CC_Endpoint cc) (Inr i) # h"
    "IW_ChainID w h (CC_Endpoint cc) = Inr i"
    "init_tokens w env ks pw (CC_TokenConfig cc) (new_bridge env cc i) (set_gas_token cc s) h1
      = (InitOk, bgc', s1, h')"
    "s' = set_chain bgc' s1"
  using assms
  by (auto simp: init_chain_def Let_def config_getters nil_get_def set_gas_token_def set_chain_def
      new_bridge_def split: option.splits sum.splits prod.splits outcome.splits)

lemma set_sel [simp]:
  "SV_chainTokenNameMap (set_gas_token cc s) = SV_chainTokenNameMap s"
  "SV_chainTokenAddrMap (set_gas_token cc s) = SV_chainTokenAddrMap s"
  "SV_chainTokenDecimalMap (set_gas_token cc s) = SV_chainTokenDecimalMap s"
  "SV_chainMap (set_gas_token cc s) = SV_chainMap s" "SV_accountAddr (set_gas_token cc s) = SV_accountAddr s"
  "SV_chainTokenNameMap (set_chain bgc s) = SV_chainTokenNameMap s"
  "SV_chainTokenAddrMap (set_chain bgc s) = SV_chainTokenAddrMap s"
  "SV_chainTokenDecimalMap (set_chain bgc s) = SV_chainTokenDecimalMap s"
  "SV_chainMap (set_chain bgc s) = (SV_chainMap s)(chain_uint64 bgc \<mapsto> bgc)"
  "SV_accountAddr (set_chain bgc s) = SV_accountAddr s"
  by (simp_all add: set_gas_token_def set_chain_def)

lemma set_grows: "server_grows s (set_gas_token cc s)" "server_grows s (set_chain bgc s)"
  by (simp_all add: server_grows_def)

lemma set_decimals [simp]:
  "decimals_hold P (set_gas_token cc s) = decimals_hold P s" "decimals_hold P (set_chain bgc s) = decimals_hold P s"
  "names_have_decimals (set_gas_token cc s) = names_have_decimals s"
  "names_have_decimals (set_chain bgc s) = names_have_decimals s"
  "addrs_have_decimals (set_gas_token cc s) = addrs_have_decimals s"
  "addrs_have_decimals (set_chain bgc s) = addrs_have_decimals s"
  by (simp_all add: decimals_hold_def names_have_decimals_def addrs_have_decimals_def)

lemma init_chain_grows:
  assumes "init_chain w env ks pw cc s h = (InitOk, s', h')"
  shows "server_grows s s'" "set h \<subseteq> set h'" "chain_done env cc s' h'"
proof -
  obtain i bgc' s1 h1 where
    h1: "h1 = TransactorE (CC_Endpoint cc) i (transactorOptions cc) None # ChainE (CC_Endpoint cc) (Inr i) # h"
    and t: "init_tokens w env ks pw (CC_TokenConfig cc) (new_bridge env cc i) (set_gas_token cc s) h1
      = (InitOk, bgc', s1, h')"
    and s': "s' = set_chain bgc' s1"
    using init_chain_ok [OF assms] by metis
  note g = init_tokens_grows [OF t]
  show "server_grows s s'" using g set_grows unfolding s' by (meson server_grows_trans)
  show "set h \<subseteq> set h'" using g h1 by auto
  have id: "chain_uint64 bgc' = of_int i" "chain_uint64 (new_bridge env cc i) = of_int i"
    using g by (simp_all add: chain_uint64_def new_bridge_def)
  have "token_done env cc (of_int i) tc s' h'" if "tc \<in> set (CC_TokenConfig cc)" for tc
    using init_tokens_done [OF t _ that] set_grows(2) token_done_mono id(2) unfolding s'
    by (simp add: new_bridge_def)
  moreover have "ChainE (CC_Endpoint cc) (Inr i) \<in> set h'" using g h1 by auto
  ultimately show "chain_done env cc s' h'" unfolding chain_done_def s' using id(1) by auto
qed

lemma init_chain_decimals:
  assumes "init_chain w env ks pw cc s h = (InitOk, s', h')"
  shows "decimals_hold P s \<Longrightarrow> \<forall>tc\<in>set (CC_TokenConfig cc). 0 < TC_TokenDecimal tc \<longrightarrow> P (TC_TokenDecimal tc) \<Longrightarrow>
      decimals_hold P s'"
    "names_have_decimals s \<Longrightarrow> names_have_decimals s'"
    "addrs_have_decimals s \<Longrightarrow> (\<And>i. IW_ChainID w h (CC_Endpoint cc) = Inr i \<Longrightarrow> of_int i = CC_ChainId cc) \<Longrightarrow>
      addrs_have_decimals s'"
proof -
  obtain i bgc' s1 h1 where
    i: "IW_ChainID w h (CC_Endpoint cc) = Inr i"
    and t: "init_tokens w env ks pw (CC_TokenConfig cc) (new_bridge env cc i) (set_gas_token cc s) h1
      = (InitOk, bgc', s1, h')"
    and s': "s' = set_chain bgc' s1"
    using init_chain_ok [OF assms] by metis
  note d = init_tokens_decimals [OF t]
  show "decimals_hold P s'" if "decimals_hold P s"
    "\<forall>tc\<in>set (CC_TokenConfig cc). 0 < TC_TokenDecimal tc \<longrightarrow> P (TC_TokenDecimal tc)"
    using d(1) that by (simp add: s')
  show "names_have_decimals s'" if "names_have_decimals s" using d(2) that by (simp add: s')
  show "addrs_have_decimals s'" if "addrs_have_decimals s"
    "\<And>i. IW_ChainID w h (CC_Endpoint cc) = Inr i \<Longrightarrow> of_int i = CC_ChainId cc"
    using d(3) that i by (simp add: s' new_bridge_def chain_uint64_def)
qed

lemma init_chains_grows:
  assumes "init_chains w env ks pw ccs s h = (InitOk, s', h')"
  shows "server_grows s s' \<and> set h \<subseteq> set h' \<and> (\<forall>cc\<in>set ccs. chain_done env cc s' h')"
  using assms
proof (induction ccs arbitrary: s h)
  case (Cons cc ccs)
  then obtain s1 h1 where 1: "init_chain w env ks pw cc s h = (InitOk, s1, h1)"
    "init_chains w env ks pw ccs s1 h1 = (InitOk, s', h')"
    by (auto split: prod.splits outcome.splits)
  note a = init_chain_grows [OF 1(1)] and b = Cons.IH [OF 1(2)]
  from a b have "chain_done env cc s' h'" using chain_done_mono by blast
  with a b show ?case using server_grows_trans by auto
qed simp

lemma init_chains_decimals:
  assumes "init_chains w env ks pw ccs s h = (InitOk, s', h')"
  shows "decimals_hold P s \<Longrightarrow>
      \<forall>cc\<in>set ccs. \<forall>tc\<in>set (CC_TokenConfig cc). 0 < TC_TokenDecimal tc \<longrightarrow> P (TC_TokenDecimal tc) \<Longrightarrow>
      decimals_hold P s'"
    "names_have_decimals s \<Longrightarrow> names_have_decimals s'"
    "addrs_have_decimals s \<Longrightarrow>
      (\<And>h cc i. cc \<in> set ccs \<Longrightarrow> IW_ChainID w h (CC_Endpoint cc) = Inr i \<Longrightarrow> of_int i = CC_ChainId cc) \<Longrightarrow>
      addrs_have_decimals s'"
  using assms
proof (induction ccs arbitrary: s h)
  case (Cons cc ccs)
  {
    case 1
    then obtain s1 h1 where s: "init_chain w env ks pw cc s h = (InitOk, s1, h1)"
      "init_chains w env ks pw ccs s1 h1 = (InitOk, s', h')"
      by (auto split: prod.splits outcome.splits)
    from Cons.IH(1) [OF init_chain_decimals(1) [OF s(1) 1(1)] _ s(2)] 1(2) show ?case by simp
  next
    case 2
    then obtain s1 h1 where s: "init_chain w env ks pw cc s h = (InitOk, s1, h1)"
      "init_chains w env ks pw ccs s1 h1 = (InitOk, s', h')"
      by (auto split: prod.splits outcome.splits)
    from Cons.IH(2) [OF init_chain_decimals(2) [OF s(1) 2(1)] s(2)] show ?case .
  next
    case 3
    then obtain s1 h1 where s: "init_chain w env ks pw cc s h = (InitOk, s1, h1)"
      "init_chains w env ks pw ccs s1 h1 = (InitOk, s', h')"
      by (auto split: prod.splits outcome.splits)
    have "addrs_have_decimals s1" using init_chain_decimals(3) [OF s(1) 3(1)] 3(2) by (meson list.set_intros(1))
    from Cons.IH(3) [OF this 3(2) s(2)] show ?case by (meson list.set_intros(2))
  }
qed simp_all

lemma init_chains_names:
  assumes "init_chains w env ks pw ccs s h = (InitOk, s', h')"
    and "names_within C s" "CC_ChainId ` set ccs \<subseteq> C"
  shows "names_within C s'"
  using assms
proof (induction ccs arbitrary: s h)
  case (Cons cc ccs)
  then obtain s1 h1 where 1: "init_chain w env ks pw cc s h = (InitOk, s1, h1)"
    "init_chains w env ks pw ccs s1 h1 = (InitOk, s', h')"
    by (auto split: prod.splits outcome.splits)
  obtain i bgc' s2 h2 where
    t: "init_tokens w env ks pw (CC_TokenConfig cc) (new_bridge env cc i) (set_gas_token cc s) h2
      = (InitOk, bgc', s2, h1)" and s1: "s1 = set_chain bgc' s2"
    using init_chain_ok [OF 1(1)] by metis
  have "names_within C s2"
    by (rule init_tokens_names [OF t]) (use Cons.prems(2,3) in \<open>simp_all add: names_within_def new_bridge_def\<close>)
  then have "names_within C s1" by (simp add: s1 names_within_def)
  from Cons.IH [OF 1(2) this] Cons.prems(3) show ?case by simp
qed simp

section \<open>The whole start\<close>

lemma ping_maps:
  assumes "PingAndRefreshFee env sign bal ping order s = (out, s')"
  shows "s' = s \<or> (\<exists>m. s' = s\<lparr>SV_gatewayChainInfoMap := m\<rparr>)"
  using assms by (auto simp: PingAndRefreshFee_def setGatewayChainInfo_def split: sum.splits option.splits)

lemma start_monitors_history: "start_monitors w bgc events h = (out, h') \<Longrightarrow> set h \<subseteq> set h'"
  by (induction events arbitrary: h) (fastforce simp: Let_def split: option.splits)+

lemma start_chains_history: "start_chains w s ks h = (out, h') \<Longrightarrow> set h \<subseteq> set h'"
proof (induction ks arbitrary: h)
  case (Cons k ks)
  then show ?case
    by (fastforce simp: Let_def simp del: start_monitors.simps split: option.splits if_splits prod.splits outcome.splits
        dest: start_monitors_history)
qed simp

text \<open>The four monitors of a chain, and that all were accepted.\<close>

definition monitored :: "bridgeConfig \<Rightarrow> init_ev list \<Rightarrow> bool" where
  "monitored bgc h \<longleftrightarrow>
     (\<forall>event\<in>{evLogTransferOut, evLogTransferIn, evLogTransferConfirmed, evLogTransferRefunded}.
        \<exists>b. MonitorE (monitor_config bgc event b) None \<in> set h)"

lemma start_monitors_all:
  "start_monitors w bgc events h = (InitOk, h') \<Longrightarrow> event \<in> set events \<Longrightarrow>
     \<exists>b. MonitorE (monitor_config bgc event b) None \<in> set h'"
proof (induction events arbitrary: h)
  case (Cons e events)
  then obtain h1 where h1: "h1 = MonitorE (monitor_config bgc e (IW_Block w h (chain_uint64 bgc))) None # h"
    "start_monitors w bgc events h1 = (InitOk, h')"
    by (auto simp: Let_def split: option.splits)
  from start_monitors_history [OF h1(2)] h1(1) Cons.IH [OF h1(2)] Cons.prems(2) show ?case by auto
qed simp

lemma start_chains_all:
  "start_chains w s ks h = (InitOk, h') \<Longrightarrow> k \<in> set ks \<Longrightarrow> SV_chainMap s k = Some bgc \<Longrightarrow> monitored bgc h'"
proof (induction ks arbitrary: h)
  case (Cons c ks)
  show ?case
  proof (cases "SV_chainMap s c")
    case None
    with Cons show ?thesis by auto
  next
    case (Some b)
    with Cons.prems(1) obtain h1 where h1: "start_monitors w b
        [evLogTransferOut, evLogTransferIn, evLogTransferConfirmed, evLogTransferRefunded] h = (InitOk, h1)"
      "start_chains w s ks h1 = (InitOk, h')"
      by (auto simp: Let_def simp del: start_monitors.simps split: if_splits prod.splits outcome.splits)
    have "monitored b h'"
      using start_monitors_all [OF h1(1)] start_chains_history [OF h1(2)] unfolding monitored_def
      by (metis insertE list.set(1,2) subsetD)
    with Some Cons h1(2) show ?thesis by auto
  qed
qed simp

lemma server_Init_ok:
  assumes "server_Init w env config ks pwdDir s0 = (InitOk, s, h)"
  obtains pw account s1 s2 h2 m where
    "init_chains w env ks pw (CB_ChainConfig config) s1 [DbE dbDriver
        (dbFmt (CB_Db config)) dbPoolSize] = (InitOk, s2, h2)"
    "s1 = s0\<lparr>SV_cfg := Some config, SV_accountAddr := account\<rparr>" "s = s2\<lparr>SV_gatewayChainInfoMap := m\<rparr>"
    "start_chains w s (IW_Order w (dom (SV_chainMap s2))) h2 = (InitOk, h)"
proof -
  from assms obtain pw account s1 s2 h2 ping_out sign bal where a:
    "init_chains w env ks pw (CB_ChainConfig config) s1 [DbE dbDriver
        (dbFmt (CB_Db config)) dbPoolSize] = (InitOk, s2, h2)"
    "s1 = s0\<lparr>SV_cfg := Some config, SV_accountAddr := account\<rparr>"
    "PingAndRefreshFee env sign bal (IW_Ping w h2) (IW_Order w (dom (SV_chainMap s2))) s2 = (PingOk, s)"
    "start_chains w s (IW_Order w (dom (SV_chainMap s2))) h2 = (InitOk, h)"
    by (simp add: server_Init_def Let_def config_getters nil_get_def
        split: sum.splits prod.splits outcome.splits ping_out.splits)
  from ping_maps [OF a(3)] obtain m where "s = s2\<lparr>SV_gatewayChainInfoMap := m\<rparr>"
    by (metis server.surjective server.update_convs(5))
  with a that show ?thesis by blast
qed

section \<open>A concrete start\<close>

text \<open>One chain, configured with id 1, that reports the id \<open>i\<close>; one token, with no allowance
  yet.\<close>

definition start_config :: CBridgeConfig where
  "start_config = \<lparr>CB_RelayNodeName = ''relay'', CB_ChainConfig =
     [\<lparr>CC_Endpoint = ''node'', CC_ChainId = 1, CC_ContractAddress = ''65'',
       CC_TokenConfig = [\<lparr>TC_TokenName = ''USDT'', TC_TokenAddress = ''09'', TC_TokenDecimal = 6\<rparr>],
       CC_WatchConfig = None, CC_ForceGasGwei = 0, CC_FeeRate = 10, CC_GasTokenName = ''ETH'',
       CC_GasTokenDecimal = 18, CC_TransactorConfig = None\<rparr>], CB_Db = ''db'', CB_Gateway = ''gw''\<rparr>"

definition start_world :: "int \<Rightarrow> init_world" where
  "start_world i = \<lparr>IW_os = \<lparr>ReadFile = (\<lambda>f. Inr ''k''), StdinIsTerminal = False,
       TerminalPassword = Inl ''no terminal'', StdinLine = Inl ''no input'', JsonAddress = (\<lambda>k. Inr ''07''),
       DecryptKey = (\<lambda>k p. Inr ())\<rparr>,
     IW_NewDb = (\<lambda>d f n. Inr ()), IW_KeyAddr = (\<lambda>k p. Inr 7), IW_Signer = (\<lambda>k p. Inr (\<lambda>m. Inr m)),
     IW_Dial = (\<lambda>ep. None), IW_ChainID = (\<lambda>h ep. Inr i), IW_Transactor = (\<lambda>h ep c opts. None),
     IW_Erc20Err = None, IW_OpenKs = (\<lambda>f. None), IW_AuthErr = (\<lambda>p c. None),
     IW_Call = (\<lambda>h ep a c. Inr [VUint256 0]), IW_Approve = (\<lambda>h ep a c. Inr 5),
     IW_Mined = (\<lambda>h ep t. None), IW_Ping = (\<lambda>h q. Inr None), IW_Watch = (\<lambda>k p d. True),
     IW_Block = (\<lambda>h k. 90), IW_Monitor = (\<lambda>h cfg. None), IW_Order = (\<lambda>K. [of_int i])\<rparr>"

definition start_env :: node_env where
  "start_env = \<lparr>NE_lib = ref_lib, NE_SHA3 = (\<lambda>types vals. []), NE_AbiErr = None\<rparr>"

definition start_result :: "int \<Rightarrow> server" where
  "start_result i = fst (snd (server_Init (start_world i) start_env start_config ''ks'' ''pwd'' (NewServer ''v1'')))"

definition start_history :: "int \<Rightarrow> init_ev list" where
  "start_history i = snd (snd (server_Init (start_world i) start_env start_config ''ks'' ''pwd'' (NewServer ''v1'')))"

lemma start_account [simp]: "Hex2Addr ref_lib ''09'' = 9" "Hex2Addr ref_lib ''65'' = 101"
  by (simp_all add: Hex2Addr_def ref_lib_def Hex2Bytes_def strip_0x_def char_digit_def be_nat_def Let_def)

lemmas start_eval = server_Init_def start_world_def start_env_def start_config_def NewServer_def Let_def
  NewDAL_def GetTransactorConfig_def ReadPassword_def GetAddressFromKeystore_def init_chain_def
  init_token_def approve_token_def config_getters nil_get_def Erc20_out_def PingAndRefreshFee_def
  PingResponse_GetErr_def PingResponse_GetChainInfo_def chain_uint64_def add_key_def MaxUint256_eq
  setGatewayChainInfo_def dbDriver_def dbFmt_def dbPoolSize_def

lemma start_ok:
  "server_Init (start_world i) start_env start_config ''ks'' ''pwd'' (NewServer ''v1'') =
     (InitOk, start_result i, start_history i)"
proof -
  have "fst (server_Init (start_world i) start_env start_config ''ks'' ''pwd'' (NewServer ''v1'')) = InitOk"
    by (simp add: start_eval)
  then show ?thesis unfolding start_result_def start_history_def by (metis prod.collapse)
qed

section \<open>Properties\<close>

lemma start_maps:
  assumes "server_Init w env config ks pwdDir (NewServer v) = (InitOk, s, h)"
  shows "names_have_decimals s"
    "\<forall>cc\<in>set (CB_ChainConfig config). \<forall>tc\<in>set (CC_TokenConfig cc). 0 < TC_TokenDecimal tc \<longrightarrow>
       P (TC_TokenDecimal tc) \<Longrightarrow> decimals_hold P s"
    "(\<And>h cc i. cc \<in> set (CB_ChainConfig config) \<Longrightarrow> IW_ChainID w h (CC_Endpoint cc) = Inr i \<Longrightarrow>
       of_int i = CC_ChainId cc) \<Longrightarrow> addrs_have_decimals s"
    "\<forall>cc\<in>set (CB_ChainConfig config). chain_done env cc s h"
proof -
  obtain pw account s1 s2 h2 m where
    c: "init_chains w env ks pw (CB_ChainConfig config) s1 [DbE dbDriver
        (dbFmt (CB_Db config)) dbPoolSize] = (InitOk, s2, h2)"
    and s1: "s1 = (NewServer v)\<lparr>SV_cfg := Some config, SV_accountAddr := account\<rparr>"
    and s: "s = s2\<lparr>SV_gatewayChainInfoMap := m\<rparr>"
    and w: "start_chains w s (IW_Order w (dom (SV_chainMap s2))) h2 = (InitOk, h)"
    using server_Init_ok [OF assms] by metis
  have "names_have_decimals s1" "decimals_hold P s1" "addrs_have_decimals s1"
    by (simp_all add: s1 NewServer_def names_have_decimals_def decimals_hold_def addrs_have_decimals_def)
  note d = init_chains_decimals [OF c] and init = this
  have same: "names_have_decimals s = names_have_decimals s2" "decimals_hold P s = decimals_hold P s2"
    "addrs_have_decimals s = addrs_have_decimals s2"
    by (simp_all add: s names_have_decimals_def decimals_hold_def addrs_have_decimals_def)
  show "names_have_decimals s" using d(2) init same by simp
  show "decimals_hold P s" if "\<forall>cc\<in>set (CB_ChainConfig config). \<forall>tc\<in>set (CC_TokenConfig cc).
      0 < TC_TokenDecimal tc \<longrightarrow> P (TC_TokenDecimal tc)"
    using d(1) [OF init(2) that] same by simp
  show "addrs_have_decimals s" if "\<And>h cc i. cc \<in> set (CB_ChainConfig config) \<Longrightarrow>
      IW_ChainID w h (CC_Endpoint cc) = Inr i \<Longrightarrow> of_int i = CC_ChainId cc"
    using d(3) [OF init(3) that] same by simp
  have "server_grows s2 s" by (simp add: s server_grows_def)
  then show "\<forall>cc\<in>set (CB_ChainConfig config). chain_done env cc s h"
    using init_chains_grows [OF c] start_chains_history [OF w] chain_done_mono by blast
qed

lemma start_names:
  assumes "server_Init w env config ks pwdDir (NewServer v) = (InitOk, s, h)"
  shows "names_within (CC_ChainId ` set (CB_ChainConfig config)) s"
proof -
  obtain pw account s1 s2 h2 m where
    c: "init_chains w env ks pw (CB_ChainConfig config) s1 [DbE dbDriver
        (dbFmt (CB_Db config)) dbPoolSize] = (InitOk, s2, h2)"
    and s1: "s1 = (NewServer v)\<lparr>SV_cfg := Some config, SV_accountAddr := account\<rparr>"
    and s: "s = s2\<lparr>SV_gatewayChainInfoMap := m\<rparr>"
    using server_Init_ok [OF assms] by metis
  have "names_within (CC_ChainId ` set (CB_ChainConfig config)) s2"
    by (rule init_chains_names [OF c]) (simp_all add: s1 NewServer_def names_within_def)
  then show ?thesis by (simp add: s names_within_def)
qed

text \<open>What the callback for a new transfer out does where a name or a decimal is missing: at most it
  reads the clock.\<close>

definition ignores :: "proc \<Rightarrow> bool" where
  "ignores p \<longleftrightarrow> p = Done False \<or> p = Now (\<lambda>t. Done False)"

lemma nameless_source_ignored:
  assumes "\<And>a. lookup2 (SV_chainTokenNameMap s) (chain_uint64 bc) a = None"
  shows "ignores (monitorLogTransferOut env s bc eLog)"
  unfolding ignores_def monitorLogTransferOut_def by (auto simp: assms split: sum.splits)

lemma dangling_destination_ignored:
  assumes "ParseEvent to_LogNewTransferOut evLogTransferOut eLog = Inr ev"
    and "\<And>a. lookup2 (SV_chainTokenDecimalMap s) (LO_DstChainId ev) a = None"
  shows "ignores (monitorLogTransferOut env s bc eLog)"
  unfolding ignores_def monitorLogTransferOut_def by (auto simp: assms split: option.splits)

text \<open>C30: After a successful start from a fresh server, every token with a name has a decimal and
  conversely, every decimal is positive, and every configured chain is in the chain map under an id
  it reported, with each of its tokens entered by name, by address and by decimal and its allowance
  for the bridge contract either sufficient or raised by an approval that was mined.\<close>

theorem started_server_complete:
  assumes "server_Init w env config ks pwdDir (NewServer v) = (InitOk, s, h)"
  shows "names_have_decimals s \<and> decimals_hold (\<lambda>d. 0 < d) s \<and>
    (\<forall>cc\<in>set (CB_ChainConfig config). chain_done env cc s h)"
  using start_maps [OF assms] by blast

theorem started_server_complete_witness:
  "chain_done start_env (hd (CB_ChainConfig start_config)) (start_result 1) (start_history 1)"
  using started_server_complete [OF start_ok, of 1] by (simp add: start_config_def)

text \<open>After a successful start whose runtime visits every entry of the chain map, each chain in the
  map has its four monitors running: for the transfers out and in, the confirmations and the
  refunds of its bridge contract.\<close>

lemma started_server_monitors:
  assumes "server_Init w env config ks pwdDir (NewServer v) = (InitOk, s, h)"
    and "set (IW_Order w (dom (SV_chainMap s))) = dom (SV_chainMap s)"
  shows "\<forall>bgc\<in>ran (SV_chainMap s). monitored bgc h"
proof -
  obtain pw account s1 s2 h2 m where s: "s = s2\<lparr>SV_gatewayChainInfoMap := m\<rparr>"
    and w: "start_chains w s (IW_Order w (dom (SV_chainMap s2))) h2 = (InitOk, h)"
    using server_Init_ok [OF assms(1)] by metis
  show ?thesis
  proof
    fix bgc
    assume "bgc \<in> ran (SV_chainMap s)"
    then obtain k where k: "SV_chainMap s k = Some bgc" by (auto simp: ran_def)
    with assms(2) have "k \<in> set (IW_Order w (dom (SV_chainMap s2)))" by (auto simp: s)
    with k show "monitored bgc h" using start_chains_all [OF w] by blast
  qed
qed

lemma started_server_monitors_example:
  "\<exists>bgc. SV_chainMap (start_result 1) 1 = Some bgc \<and> monitored bgc (start_history 1)"
proof -
  have "dom (SV_chainMap (start_result 1)) = {1}"
    by (simp add: start_result_def start_eval)
  moreover from this obtain bgc where "SV_chainMap (start_result 1) 1 = Some bgc" by auto
  moreover from calculation(1) have "set (IW_Order (start_world 1) (dom (SV_chainMap (start_result 1)))) =
      dom (SV_chainMap (start_result 1))"
    by (simp add: start_world_def)
  ultimately show ?thesis
    using started_server_monitors [OF start_ok, of 1] by (blast intro: ranI)
qed

text \<open>C31: If every chain reports the id it is configured with, then after a successful start every
  token that a name leads to has a decimal, so that a transfer out between two known tokens never
  fails on a missing one.\<close>

theorem lookups_never_dangle:
  assumes "server_Init w env config ks pwdDir (NewServer v) = (InitOk, s, h)"
    and "\<And>h cc i. cc \<in> set (CB_ChainConfig config) \<Longrightarrow> IW_ChainID w h (CC_Endpoint cc) = Inr i \<Longrightarrow>
      of_int i = CC_ChainId cc"
  shows "addrs_have_decimals s"
  by (rule start_maps(3) [OF assms])

theorem lookups_never_dangle_witness: "addrs_have_decimals (start_result 1)"
  by (rule lookups_never_dangle [OF start_ok]) (auto simp: start_world_def start_config_def)

text \<open>C32: The ids have to agree, and the start does not see to it: names and decimals are entered under
  the ids of the configuration, chains under the ids they report. After any start without an
  error, an id that the configuration does not have, as that of a chain which reports another id
  than its own there, has no token name and no decimal, so that every log of a transfer out from
  such a chain, and every log of one to it from any chain, is ignored: its callback writes
  nothing, inserts nothing and is not delivered the log again.\<close>

theorem mismatched_ids_dangle:
  assumes "server_Init w env config ks pwdDir (NewServer v) = (InitOk, s, h)"
    and "c \<notin> CC_ChainId ` set (CB_ChainConfig config)"
  shows "(\<forall>a. lookup2 (SV_chainTokenNameMap s) c a = None \<and>
      lookup2 (SV_chainTokenDecimalMap s) c a = None) \<and>
    (\<forall>bc eLog. chain_uint64 bc = c \<longrightarrow> ignores (monitorLogTransferOut env' s bc eLog)) \<and>
    (\<forall>bc eLog ev. ParseEvent to_LogNewTransferOut evLogTransferOut eLog = Inr ev \<longrightarrow>
      LO_DstChainId ev = c \<longrightarrow> ignores (monitorLogTransferOut env' s bc eLog))"
proof -
  have names: "lookup2 (SV_chainTokenNameMap s) c a = None" for a
    using start_names [OF assms(1)] assms(2) unfolding names_within_def by metis
  then have "lookup2 (SV_chainTokenDecimalMap s) c a = None" for a
    using start_maps(1) [OF assms(1)] by (simp add: names_have_decimals_def)
  with names show ?thesis
    using nameless_source_ignored dangling_destination_ignored by simp
qed

theorem mismatched_ids_dangle_witness:
  "\<exists>bc. SV_chainMap (start_result 2) 2 = Some bc \<and> CC_ChainId (BG_config bc) = 1 \<and>
     lookup2 (SV_chainTokenAddrMap (start_result 2)) 2 ''USDT'' = Some 9 \<and>
     (\<forall>eLog. ignores (monitorLogTransferOut start_env (start_result 2) bc eLog))"
proof -
  obtain bc where bc: "SV_chainMap (start_result 2) 2 = Some bc" "CC_ChainId (BG_config bc) = 1"
    "chain_uint64 bc = 2"
    by (simp add: start_result_def start_eval chain_uint64_def)
  have "lookup2 (SV_chainTokenAddrMap (start_result 2)) 2 ''USDT'' = Some 9"
    by (simp add: start_result_def start_eval insert2_def lookup2_def)
  moreover have "2 \<notin> CC_ChainId ` set (CB_ChainConfig start_config)" by (simp add: start_config_def)
  from mismatched_ids_dangle [OF start_ok this] bc(3)
  have "ignores (monitorLogTransferOut start_env (start_result 2) bc eLog)" for eLog by blast
  ultimately show ?thesis using bc by blast
qed

text \<open>A ping either fails and leaves the server as it was, or the gateway has answered without an
  error and exactly its chain information is stored: the names, decimals, chains and the account
  are never touched.\<close>

lemma ping_effect:
  "case PingAndRefreshFee env sign bal ping order s of (out, s') \<Rightarrow>
     if out = PingOk
     then \<exists>req resp. ping req = Inr resp \<and> PingResponse_GetErr resp = None \<and>
       PQ_EthAddr req = AddrString (NE_lib env) (SV_accountAddr s) \<and>
       sign (addr_bytes (SV_accountAddr s)) = Inr (PQ_Sig req) \<and>
       s' = s\<lparr>SV_gatewayChainInfoMap := PingResponse_GetChainInfo resp\<rparr>
     else s' = s"
  by (auto simp: PingAndRefreshFee_def setGatewayChainInfo_def split: sum.splits option.splits)
    (metis PingRequest.select_convs(1,4))

end
