(* ===== verification/Summaries.thy ===== *)
theory Summaries
  imports Server_State DAL
begin

text \<open>
  The two HTTP handlers of \<open>src/server/server.go\<close>: the totals per pair of chains and the list of
  recent transfers. The summary structs are updated through pointers kept in a map; here the map
  holds the records themselves. A reference definition computes the totals of one pair of chains
  by selecting and summing; the loop is shown equal to it.
\<close>

section \<open>The summary structs\<close>

record TokenFeeSummary =
  TF_TokenName :: string
  TF_TokenAddr :: addr
  TF_FeeAmount :: int
  TF_TotalVolume :: int
  TF_TokenDecimal :: u64

record Chain2ChainBreakDownDetail =
  CD_SrcChainId :: u64
  CD_DstChainId :: u64
  CD_TotalTransferOutNumber :: u64
  CD_TotalSuccessTransferInNumber :: u64
  CD_FeeReceived :: "addr \<rightharpoonup> TokenFeeSummary"
  CD_GasCost :: int
  CD_GasDecimal :: u64
  CD_GasTokenName :: string

type_synonym summaries = "string \<rightharpoonup> Chain2ChainBreakDownDetail"

section \<open>Names and decimals\<close>

definition getTokenName :: "node_env \<Rightarrow> server \<Rightarrow> u64 \<Rightarrow> addr \<Rightarrow> string" where
  "getTokenName env s chainId tokenAddr =
     (case lookup2 (SV_chainTokenNameMap s) chainId tokenAddr of
        None \<Rightarrow> AddrString (NE_lib env) tokenAddr
      | Some name \<Rightarrow> name)"

definition getTokenDecimal :: "server \<Rightarrow> u64 \<Rightarrow> addr \<Rightarrow> u64" where
  "getTokenDecimal s chainId tokenAddr =
     (case lookup2 (SV_chainTokenDecimalMap s) chainId tokenAddr of None \<Rightarrow> 1 | Some decimal \<Rightarrow> decimal)"

definition getGasTokenInfo :: "server \<Rightarrow> u64 \<Rightarrow> chainGasTokenInfo" where
  "getGasTokenInfo s chainId =
     (case SV_chainGasTokenMap s chainId of
        None \<Rightarrow> \<lparr>GT_GasTokenName = ''unknown'', GT_GasTokenDecimal = 1\<rparr>
      | Some info \<Rightarrow> info)"

definition generateChain2ChainKey :: "u64 \<Rightarrow> u64 \<Rightarrow> string" where
  "generateChain2ChainKey srcChainId dstChainId =
     FormatUint10 srcChainId @ ''->'' @ FormatUint10 dstChainId"

section \<open>Recording one transfer\<close>

definition recordTransferOutSummary :: "Transfer \<Rightarrow> summaries \<Rightarrow> summaries" where
  "recordTransferOutSummary transferOut m =
     (let key = generateChain2ChainKey (ChainId transferOut) (RelatedChainId transferOut);
          d = (case m key of
                 Some d \<Rightarrow> d
               | None \<Rightarrow>
                   \<lparr>CD_SrcChainId = ChainId transferOut, CD_DstChainId = RelatedChainId transferOut,
                    CD_TotalTransferOutNumber = 0, CD_TotalSuccessTransferInNumber = 0,
                    CD_FeeReceived = Map.empty, CD_GasCost = 0, CD_GasDecimal = 0,
                    CD_GasTokenName = []\<rparr>)
      in m(key \<mapsto> d\<lparr>CD_TotalTransferOutNumber := CD_TotalTransferOutNumber d + 1\<rparr>))"

text \<open>The confirmed branch of the switch: the fee entry of the token, created on first use.\<close>

definition record_fee ::
  "node_env \<Rightarrow> server \<Rightarrow> Transfer \<Rightarrow> (addr \<rightharpoonup> TokenFeeSummary) \<Rightarrow> (addr \<rightharpoonup> TokenFeeSummary)" where
  "record_fee env s tin fees =
     (let f = (case fees (Token tin) of
                 Some f \<Rightarrow> f
               | None \<Rightarrow>
                   \<lparr>TF_TokenName = getTokenName env s (ChainId tin) (Token tin),
                    TF_TokenAddr = Token tin, TF_FeeAmount = 0, TF_TotalVolume = 0,
                    TF_TokenDecimal = getTokenDecimal s (ChainId tin) (Token tin)\<rparr>)
      in fees(Token tin \<mapsto>
           f\<lparr>TF_TotalVolume := TF_TotalVolume f + Amount tin,
             TF_FeeAmount := TF_FeeAmount f + Fee tin\<rparr>))"

definition recordTransferInSummary ::
  "node_env \<Rightarrow> server \<Rightarrow> Transfer \<Rightarrow> summaries \<Rightarrow> summaries" where
  "recordTransferInSummary env s tin m =
     (if Status tin = TRANSFER_STATUS_LOCKED \<or> Status tin = TRANSFER_STATUS_REFUNDED \<or>
         Status tin = TRANSFER_STATUS_CONFIRMED
      then
        (let key = generateChain2ChainKey (RelatedChainId tin) (ChainId tin);
             gasTokenInfo = getGasTokenInfo s (ChainId tin);
             d = (case m key of
                    Some d \<Rightarrow> d
                  | None \<Rightarrow>
                      \<lparr>CD_SrcChainId = RelatedChainId tin, CD_DstChainId = ChainId tin,
                       CD_TotalTransferOutNumber = 0, CD_TotalSuccessTransferInNumber = 0,
                       CD_FeeReceived = Map.empty, CD_GasCost = 0,
                       CD_GasDecimal = GT_GasTokenDecimal gasTokenInfo,
                       CD_GasTokenName = GT_GasTokenName gasTokenInfo\<rparr>)
         in m(key \<mapsto>
              (case Status tin of
                 TRANSFER_STATUS_LOCKED \<Rightarrow>
                   d\<lparr>CD_GasCost := CD_GasCost d + TransferGasCost tin\<rparr>
               | TRANSFER_STATUS_REFUNDED \<Rightarrow>
                   d\<lparr>CD_GasCost := CD_GasCost d + TransferGasCost tin + RefundGasCost tin\<rparr>
               | TRANSFER_STATUS_CONFIRMED \<Rightarrow>
                   d\<lparr>CD_GasCost := CD_GasCost d + TransferGasCost tin + ConfirmGasCost tin,
                     CD_TotalSuccessTransferInNumber := CD_TotalSuccessTransferInNumber d + 1,
                     CD_FeeReceived := record_fee env s tin (CD_FeeReceived d)\<rparr>
               | _ \<Rightarrow> d)))
      else m)"

text \<open>The body and the whole of the loop over all transfers.\<close>

definition record_transfer :: "node_env \<Rightarrow> server \<Rightarrow> summaries \<Rightarrow> Transfer \<Rightarrow> summaries" where
  "record_transfer env s m tx =
     (if TransferType tx = TRANSFER_TYPE_OUT then recordTransferOutSummary tx m
      else if TransferType tx = TRANSFER_TYPE_IN then recordTransferInSummary env s tx m
      else m)"

definition summarize :: "node_env \<Rightarrow> server \<Rightarrow> Transfer list \<Rightarrow> summaries" where
  "summarize env s transfers = foldl (record_transfer env s) Map.empty transfers"

section \<open>Responses\<close>

text \<open>What a handler does to the \<open>http.ResponseWriter\<close>.\<close>

datatype http_ev = SetHeader string string | WriteBody string | HttpError string nat

text \<open>The texts of floating-point numbers and times are parameters: \<open>float64(n)/float64(d)\<close> with
  two decimals (and of 0), an integer scaled by a power of ten as a \<open>big.Float\<close>, and
  \<open>time.Time.String\<close>.\<close>

record text_env =
  TE_ratio :: "u64 \<Rightarrow> u64 \<Rightarrow> string"
  TE_zero :: string
  TE_scaled :: "int \<Rightarrow> u64 \<Rightarrow> string"
  TE_time :: "gotime \<Rightarrow> string"

definition nl :: string where "nl = [char_of (10 :: nat)]"

definition rule_line :: string where "rule_line = str_Repeat ''-'' 48"

definition success_rate :: "text_env \<Rightarrow> Chain2ChainBreakDownDetail \<Rightarrow> string" where
  "success_rate fl v =
     (if CD_TotalTransferOutNumber v \<noteq> 0
      then TE_ratio fl (CD_TotalSuccessTransferInNumber v * 100) (CD_TotalTransferOutNumber v)
      else TE_zero fl)"

definition fee_line :: "text_env \<Rightarrow> TokenFeeSummary \<Rightarrow> string" where
  "fee_line fl f =
     ''Token name: '' @ TF_TokenName f @ '', transfer volume:'' @
     TE_scaled fl (TF_TotalVolume f) (TF_TokenDecimal f) @ '' '' @ TF_TokenName f @
     '', earned fee:'' @ TE_scaled fl (TF_FeeAmount f) (TF_TokenDecimal f) @ '' '' @ TF_TokenName f"

definition pair_lines ::
  "text_env \<Rightarrow> addr list \<Rightarrow> Chain2ChainBreakDownDetail \<Rightarrow> string list" where
  "pair_lines fl tokens v =
     [''chain '' @ FormatUint10 (CD_SrcChainId v) @ '' -> chain '' @ FormatUint10 (CD_DstChainId v),
      ''Received '' @ FormatUint10 (CD_TotalTransferOutNumber v) @ '' transfers'',
      ''Successfully processed '' @ FormatUint10 (CD_TotalSuccessTransferInNumber v) @ '' transfers'',
      ''Success rate: '' @ success_rate fl v @ ''%''] @
     map (fee_line fl) (List.map_filter (CD_FeeReceived v) tokens) @ [rule_line]"

text \<open>\<open>pairs\<close> and \<open>tokens\<close> are the orders in which the runtime iterates the maps. A failed
  query leaves the response empty; \<open>write\<close> is the outcome of writing a body.\<close>

definition GetTotalSummary ::
  "node_env \<Rightarrow> text_env \<Rightarrow> server \<Rightarrow> Transfer list result \<Rightarrow> string list \<Rightarrow> (string \<Rightarrow> addr list) \<Rightarrow>
     (string \<Rightarrow> string option) \<Rightarrow> http_ev list" where
  "GetTotalSummary env fl s db pairs tokens write =
     (case db of
        Inl dbErr \<Rightarrow> []
      | Inr transfers \<Rightarrow>
          (let m = summarize env s transfers;
               content = rule_line # concat (map (\<lambda>k. case m k of None \<Rightarrow> []
                   | Some v \<Rightarrow> pair_lines fl (tokens k) v) pairs) @ [[]];
               resp = str_Join content nl
           in [SetHeader ''Access-Control-Allow-Origin'' ''*'', WriteBody resp] @
              (if write resp \<noteq> None then [HttpError ''write response failed'' 417] else [])))"

text \<open>Source and destination of a row, whichever of the two transfers it is.\<close>

definition route :: "Transfer \<Rightarrow> u64 \<times> u64" where
  "route tx =
     (if TransferType tx = TRANSFER_TYPE_IN then (RelatedChainId tx, ChainId tx)
      else (ChainId tx, RelatedChainId tx))"

definition transfer_line :: "node_env \<Rightarrow> text_env \<Rightarrow> Transfer \<Rightarrow> string" where
  "transfer_line env fl tx =
     ''userAddr:'' @ AddrString (NE_lib env) (Sender tx) @ '', chain '' @ FormatUint10 (fst (route tx)) @
     '' -> chain '' @ FormatUint10 (snd (route tx)) @ '' ,transferAmount:'' @
     big_String (Amount tx + Fee tx) @ '', createTs:'' @ TE_time fl (CreateTs tx) @ '', type:'' @
     TransferType_String (TransferType tx) @ '', status:'' @ TransferStatus_String (Status tx)"

definition GetTransfer ::
  "node_env \<Rightarrow> text_env \<Rightarrow> string \<Rightarrow> (u64 \<Rightarrow> Transfer list result) \<Rightarrow> (string \<Rightarrow> string option) \<Rightarrow>
     http_ev list" where
  "GetTransfer env fl limitString db write =
     (case ParseUint10 limitString of
        Inl err \<Rightarrow> [HttpError ''invalid limit param'' 400]
      | Inr limit0 \<Rightarrow>
          (let limit = (if limit0 \<le> 0 then 500 else limit0)
           in case db limit of
                Inl dbErr \<Rightarrow> [HttpError (''db err happened, err:'' @ dbErr) 400]
              | Inr transfers \<Rightarrow>
                  (let resp = str_Join (map (transfer_line env fl) transfers) nl
                   in [SetHeader ''Access-Control-Allow-Origin'' ''*'', WriteBody resp] @
                      (if write resp \<noteq> None then [HttpError ''write response failed'' 417] else []))))"

section \<open>The keys tell the pairs apart\<close>

lemma base_text_no_arrow: "CHR ''-'' \<notin> set (FormatUint10 n)"
proof
  assume "CHR ''-'' \<in> set (FormatUint10 n)"
  then obtain d where "d < 10" "CHR ''-'' = digit_char d"
    using base_text_digits [of 10 "unat n"] by (auto simp: FormatUint10_def)
  with digit_char_not_sign [of d] show False by simp
qed

lemma split_at_unique:
  assumes "as @ x # bs = cs @ x # ds" "x \<notin> set as" "x \<notin> set cs"
  shows "as = cs \<and> bs = ds"
  using assms
proof (induction as arbitrary: cs)
  case Nil
  then show ?case by (cases cs) auto
next
  case (Cons a as)
  then show ?case by (cases cs) auto
qed

lemma generateChain2ChainKey_eq [simp]:
  "generateChain2ChainKey a b = generateChain2ChainKey c d \<longleftrightarrow> a = c \<and> b = d"
  using split_at_unique [OF _ base_text_no_arrow base_text_no_arrow, of a "''>'' @ FormatUint10 b" c
      "''>'' @ FormatUint10 d"]
  by (auto simp: generateChain2ChainKey_def dest: FormatUint10_inj)

section \<open>The reference\<close>

text \<open>The rows that count for a pair of chains: every transfer out, and the transfers in that the
  destination chain has seen.\<close>

definition counted :: "Transfer \<Rightarrow> bool" where
  "counted tx \<longleftrightarrow> TransferType tx = TRANSFER_TYPE_OUT \<or>
     TransferType tx = TRANSFER_TYPE_IN \<and>
     Status tx \<in> {TRANSFER_STATUS_LOCKED, TRANSFER_STATUS_REFUNDED, TRANSFER_STATUS_CONFIRMED}"

definition on_route :: "u64 \<Rightarrow> u64 \<Rightarrow> Transfer \<Rightarrow> bool" where
  "on_route src dst tx \<longleftrightarrow> counted tx \<and> route tx = (src, dst)"

definition is_out :: "Transfer \<Rightarrow> bool" where
  "is_out tx \<longleftrightarrow> TransferType tx = TRANSFER_TYPE_OUT"

definition success :: "Transfer \<Rightarrow> bool" where
  "success tx \<longleftrightarrow> \<not> is_out tx \<and> Status tx = TRANSFER_STATUS_CONFIRMED"

definition gas_spent :: "Transfer \<Rightarrow> int" where
  "gas_spent tx =
     (if is_out tx then 0
      else TransferGasCost tx +
        (if Status tx = TRANSFER_STATUS_REFUNDED then RefundGasCost tx
         else if Status tx = TRANSFER_STATUS_CONFIRMED then ConfirmGasCost tx else 0))"

definition fees_of :: "node_env \<Rightarrow> server \<Rightarrow> u64 \<Rightarrow> Transfer list \<Rightarrow> (addr \<rightharpoonup> TokenFeeSummary)" where
  "fees_of env s dst txs a =
     (let paid = filter (\<lambda>t. success t \<and> Token t = a) txs
      in if paid = [] then None
         else Some \<lparr>TF_TokenName = getTokenName env s dst a, TF_TokenAddr = a,
           TF_FeeAmount = sum_list (map Fee paid), TF_TotalVolume = sum_list (map Amount paid),
           TF_TokenDecimal = getTokenDecimal s dst a\<rparr>)"

text \<open>The gas token is only looked up when a transfer in comes first.\<close>

definition route_summary ::
  "node_env \<Rightarrow> server \<Rightarrow> u64 \<Rightarrow> u64 \<Rightarrow> Transfer list \<Rightarrow> Chain2ChainBreakDownDetail option" where
  "route_summary env s src dst rel =
     (if rel = [] then None
      else Some \<lparr>CD_SrcChainId = src, CD_DstChainId = dst,
        CD_TotalTransferOutNumber = of_nat (length (filter is_out rel)),
        CD_TotalSuccessTransferInNumber = of_nat (length (filter success rel)),
        CD_FeeReceived = fees_of env s dst rel, CD_GasCost = sum_list (map gas_spent rel),
        CD_GasDecimal = (if is_out (hd rel) then 0 else GT_GasTokenDecimal (getGasTokenInfo s dst)),
        CD_GasTokenName = (if is_out (hd rel) then [] else GT_GasTokenName (getGasTokenInfo s dst))\<rparr>)"

definition pair_summary ::
  "node_env \<Rightarrow> server \<Rightarrow> u64 \<Rightarrow> u64 \<Rightarrow> Transfer list \<Rightarrow> Chain2ChainBreakDownDetail option" where
  "pair_summary env s src dst txs = route_summary env s src dst (filter (on_route src dst) txs)"

section \<open>The loop computes the reference\<close>

lemmas summary_defs = recordTransferOutSummary_def recordTransferInSummary_def record_transfer_def

lemma record_uncounted: "\<not> counted tx \<Longrightarrow> record_transfer env s m tx = m"
  by (auto simp: counted_def summary_defs)

lemma record_elsewhere:
  assumes "route tx \<noteq> (src, dst)"
  shows "record_transfer env s m tx (generateChain2ChainKey src dst) = m (generateChain2ChainKey src dst)"
proof -
  have "recordTransferOutSummary tx m k = m k" if "k \<noteq> generateChain2ChainKey (ChainId tx) (RelatedChainId tx)" for k
    using that by (simp add: recordTransferOutSummary_def Let_def)
  moreover have "recordTransferInSummary env s tx m k = m k"
    if "k \<noteq> generateChain2ChainKey (RelatedChainId tx) (ChainId tx)" for k
    using that by (simp add: recordTransferInSummary_def Let_def)
  ultimately show ?thesis
    using assms by (cases "TransferType tx") (auto simp: record_transfer_def route_def)
qed

lemma record_fee_other: "a \<noteq> Token tx \<Longrightarrow> record_fee env s tx fees a = fees a"
  by (simp add: record_fee_def Let_def)

lemma record_fee_same:
  "record_fee env s tx fees (Token tx) =
     (case fees (Token tx) of
        None \<Rightarrow> Some \<lparr>TF_TokenName = getTokenName env s (ChainId tx) (Token tx), TF_TokenAddr = Token tx,
          TF_FeeAmount = Fee tx, TF_TotalVolume = Amount tx,
          TF_TokenDecimal = getTokenDecimal s (ChainId tx) (Token tx)\<rparr>
      | Some f \<Rightarrow> Some (f\<lparr>TF_TotalVolume := TF_TotalVolume f + Amount tx,
          TF_FeeAmount := TF_FeeAmount f + Fee tx\<rparr>))"
  by (simp add: record_fee_def Let_def split: option.splits)

lemma record_fee_reference:
  assumes "success tx" "ChainId tx = dst"
  shows "record_fee env s tx (fees_of env s dst txs) = fees_of env s dst (txs @ [tx])"
proof
  fix a
  show "record_fee env s tx (fees_of env s dst txs) a = fees_of env s dst (txs @ [tx]) a"
  proof (cases "a = Token tx")
    case True
    define paid where "paid = filter (\<lambda>t. success t \<and> Token t = Token tx) txs"
    have "filter (\<lambda>t. success t \<and> Token t = Token tx) (txs @ [tx]) = paid @ [tx]"
      using assms(1) by (simp add: paid_def)
    then show ?thesis
      unfolding True record_fee_same fees_of_def Let_def paid_def [symmetric]
      using assms(2) by (cases "paid = []") simp_all
  next
    case False
    then show ?thesis by (simp add: record_fee_other fees_of_def)
  qed
qed

lemma fees_of_skip: "\<not> success tx \<Longrightarrow> fees_of env s dst (txs @ [tx]) = fees_of env s dst txs"
  by (rule ext) (simp add: fees_of_def)

lemma fees_of_Nil [simp]: "fees_of env s dst [] = Map.empty"
  by (rule ext) (simp add: fees_of_def)

lemma record_fee_first:
  "success tx \<Longrightarrow> ChainId tx = dst \<Longrightarrow> record_fee env s tx Map.empty = fees_of env s dst [tx]"
  using record_fee_reference [of tx dst env s "[]"] by simp

lemma record_out:
  assumes "is_out tx" "ChainId tx = src" "RelatedChainId tx = dst"
    and "m (generateChain2ChainKey src dst) = route_summary env s src dst rel"
  shows "record_transfer env s m tx (generateChain2ChainKey src dst) = route_summary env s src dst (rel @ [tx])"
proof -
  have "record_transfer env s m tx = recordTransferOutSummary tx m" "\<not> success tx" "gas_spent tx = 0"
    using assms(1) by (simp_all add: record_transfer_def is_out_def success_def gas_spent_def)
  with assms show ?thesis
    by (cases "rel = []") (simp_all add: recordTransferOutSummary_def route_summary_def Let_def fees_of_skip
        fees_of_skip [where txs = "[]", simplified])
qed

lemma record_in:
  assumes "counted tx" "\<not> is_out tx" "ChainId tx = dst" "RelatedChainId tx = src"
    and "m (generateChain2ChainKey src dst) = route_summary env s src dst rel"
  shows "record_transfer env s m tx (generateChain2ChainKey src dst) = route_summary env s src dst (rel @ [tx])"
proof -
  have rec: "record_transfer env s m tx = recordTransferInSummary env s tx m"
    using assms(1,2) by (auto simp: record_transfer_def is_out_def counted_def)
  from assms(1,2) consider "Status tx = TRANSFER_STATUS_LOCKED" | "Status tx = TRANSFER_STATUS_REFUNDED"
    | "Status tx = TRANSFER_STATUS_CONFIRMED" by (auto simp: counted_def is_out_def)
  then show ?thesis
  proof cases
    case 3
    then have "success tx" using assms(2) by (simp add: success_def)
    with 3 assms(2-5) show ?thesis
      by (cases "rel = []") (simp_all add: rec recordTransferInSummary_def route_summary_def gas_spent_def Let_def
          record_fee_reference record_fee_first)
  qed (use assms(2-5) in \<open>cases "rel = []"; simp add: rec recordTransferInSummary_def route_summary_def
      Let_def gas_spent_def success_def fees_of_skip fees_of_skip [where txs = "[]", simplified]\<close>)+
qed

lemma record_counted:
  assumes "on_route src dst tx" "m (generateChain2ChainKey src dst) = pair_summary env s src dst txs"
  shows "record_transfer env s m tx (generateChain2ChainKey src dst) = pair_summary env s src dst (txs @ [tx])"
proof (cases "is_out tx")
  case True
  with assms(1) have "ChainId tx = src" "RelatedChainId tx = dst"
    by (auto simp: on_route_def route_def is_out_def)
  from record_out [OF True this] assms show ?thesis by (simp add: pair_summary_def)
next
  case False
  with assms(1) have "counted tx" "ChainId tx = dst" "RelatedChainId tx = src"
    by (auto simp: on_route_def route_def is_out_def counted_def)
  from record_in [OF this(1) False this(2,3)] assms show ?thesis by (simp add: pair_summary_def)
qed

lemma summarize_pair:
  "summarize env s txs (generateChain2ChainKey src dst) = pair_summary env s src dst txs"
proof (induction txs rule: rev_induct)
  case Nil
  then show ?case by (simp add: summarize_def pair_summary_def route_summary_def)
next
  case (snoc tx txs)
  have fold: "summarize env s (txs @ [tx]) = record_transfer env s (summarize env s txs) tx"
    by (simp add: summarize_def)
  show ?case
  proof (cases "on_route src dst tx")
    case True
    with snoc show ?thesis by (simp add: fold record_counted)
  next
    case False
    then have "pair_summary env s src dst (txs @ [tx]) = pair_summary env s src dst txs"
      by (simp add: pair_summary_def)
    with False snoc show ?thesis
      by (cases "counted tx") (simp_all add: fold record_uncounted record_elsewhere on_route_def)
  qed
qed

lemma summarize_keys: "summarize env s txs k \<noteq> None \<Longrightarrow> \<exists>src dst. k = generateChain2ChainKey src dst"
proof (induction txs rule: rev_induct)
  case (snoc tx txs)
  then show ?case
    by (auto simp: summarize_def summary_defs Let_def split: if_splits)
qed (simp add: summarize_def)

text \<open>C28: The totals that the loop over all transfers accumulates are, for each pair of chains, those
  that selecting the rows of the pair and summing gives: transfers received, transfers confirmed
  (both in 64 bits), gas spent by status, and for each token that was confirmed the amounts and fees;
  no other key appears. The keys are texts, so this needs that no two pairs share one.\<close>

theorem summary_is_reference:
  "summarize env s txs (generateChain2ChainKey src dst) = pair_summary env s src dst txs \<and>
   dom (summarize env s txs) \<subseteq> range (\<lambda>(a, b). generateChain2ChainKey a b)"
  using summarize_pair summarize_keys by fastforce

text \<open>A request for \<open>n\<close> transfers, in decimal, is answered with one line for each of the \<open>n\<close>
  newest rows of the table, newest first, and for 500 when \<open>n\<close> is 0, if \<open>n\<close> is below 2^63: the text of the limit, the
  SQL with its limit and order, the scan of the rows and the joining of the lines together.\<close>

lemma GetTransfer_lists_newest:
  assumes "dal_doc dal" "rel_table dal R T" "unat n < 2 ^ 63"
  shows "\<exists>ts. mset ts = mset (map scan T) \<and> sorted_wrt (\<lambda>a b. CreateTs b \<le> CreateTs a) ts \<and>
    GetTransfer env fl (FormatUint10 n) (\<lambda>limit. GetAllTransfersWithLimit dal limit R) (\<lambda>resp. None) =
      [SetHeader ''Access-Control-Allow-Origin'' ''*'',
       WriteBody (str_Join (map (transfer_line env fl) (take (if n = 0 then 500 else unat n) ts)) nl)]"
proof -
  obtain txs where "GetAllTransfersWithLimit dal (if n = 0 then 500 else n) R = Inr txs"
    "query_ok (AllWithLimitQ (if n = 0 then 500 else n)) T txs"
    using limit_query_sim [OF assms(1,2), of "if n = 0 then 500 else n"] assms(3)
    by (cases "n = 0") auto
  then obtain ts where "mset ts = mset (map scan T)" "sorted_wrt (\<lambda>a b. CreateTs b \<le> CreateTs a) ts"
    "GetAllTransfersWithLimit dal (if n = 0 then 500 else n) R = Inr (take (if n = 0 then 500 else unat n) ts)"
    by auto
  then show ?thesis
    by (intro exI [of _ ts]) (simp add: GetTransfer_def ParseUint10_FormatUint10 Let_def split del: if_split)
qed

lemma GetTransfer_lists_newest_example:
  "\<forall>env fl. GetTransfer env fl ''0'' (\<lambda>limit. GetAllTransfersWithLimit ref_env limit [inserted_sql_row ref_env example_tx 7000])
      (\<lambda>resp. None) =
    [SetHeader ''Access-Control-Allow-Origin'' ''*'',
     WriteBody (transfer_line env fl (scan (inserted_row example_tx 7000)))]"
proof (intro allI)
  fix env fl
  have "base_text 10 0 = ''0''" by code_simp
  then have zero: "FormatUint10 0 = ''0''" by (simp add: FormatUint10_def)
  from GetTransfer_lists_newest [OF ref_env_doc example_tables(2), of 0 env fl]
  show "GetTransfer env fl ''0'' (\<lambda>limit. GetAllTransfersWithLimit ref_env limit
      [inserted_sql_row ref_env example_tx 7000]) (\<lambda>resp. None) =
    [SetHeader ''Access-Control-Allow-Origin'' ''*'',
     WriteBody (transfer_line env fl (scan (inserted_row example_tx 7000)))]"
    by (auto simp: zero)
qed

end
