(* ===== verification/Main_Program.thy ===== *)
theory Main_Program
  imports Server_Maps Relay_Loops Summaries
begin

text \<open>
  The command line of \<open>src/server/main/main.go\<close>: the flags and their check, and \<open>main\<close> as the
  sequence of what it does: end with a message, print, start a background loop, register a route,
  listen.
\<close>

section \<open>Flags\<close>

record flags =
  FL_p :: int
  FL_c :: string
  FL_v :: bool
  FL_ks :: string
  FL_pwddir :: string

definition default_flags :: flags where
  "default_flags = \<lparr>FL_p = 8088, FL_c = [], FL_v = False, FL_ks = [], FL_pwddir = []\<rparr>"

text \<open>The message of the \<open>log.Fatalln\<close> that ends the process, if any.\<close>

definition checkFlags :: "flags \<Rightarrow> string option" where
  "checkFlags f =
     (if FL_c f = [] then Some ''-c config not specified''
      else if FL_ks f = [] then Some ''-ks keystore not specified''
      else if FL_pwddir f = [] then Some ''-pwddir password file not specified''
      else None)"

section \<open>The program\<close>

datatype main_ev =
    Fatal string
  | PanicExit
  | PrintLine string
  | ExitWith int
  | GoCron
  | GoLoop int proc
  | RouteGET string
  | ListenOn string

definition printver :: "string \<Rightarrow> string \<Rightarrow> main_ev list" where
  "printver version commit = [PrintLine (''Version: '' @ version), PrintLine (''Commit: '' @ commit)]"

definition startListenAndServeByPort :: "int \<Rightarrow> main_ev list" where
  "startListenAndServeByPort port = [ListenOn (CHR '':'' # big_String port)]"

definition main_program ::
  "init_world \<Rightarrow> node_env \<Rightarrow> (string \<Rightarrow> CBridgeConfig result) \<Rightarrow> (string \<Rightarrow> 'conn result) \<Rightarrow>
     string \<Rightarrow> string \<Rightarrow> flags \<Rightarrow> main_ev list" where
  "main_program w env unmarshal dial version commit f =
     (let version = (if version = [] then ''v1.0.2'' else version)
      in case checkFlags f of
           Some msg \<Rightarrow> [Fatal msg]
         | None \<Rightarrow>
             if FL_v f then printver version commit @ [ExitWith 0]
             else (case ParseCfgFile (IW_os w) unmarshal (FL_c f) of
                 Inl err \<Rightarrow> [Fatal err]
               | Inr cbConfig \<Rightarrow> (case InitGatewayClient dial (CBridgeConfig_GetGateway (Some cbConfig)) of
                   Inl err \<Rightarrow> [Fatal err]
                 | Inr gateway \<Rightarrow>
                     (case server_Init w env cbConfig (FL_ks f) (FL_pwddir f) (NewServer version) of
                        (InitErr err, s, h) \<Rightarrow> [Fatal err]
                      | (InitPanic, s, h) \<Rightarrow> [PanicExit]
                      | (InitOk, s, h) \<Rightarrow>
                          [GoCron,
                           GoLoop (fst (ProcessSendTransfer env s)) (snd (ProcessSendTransfer env s)),
                           GoLoop (fst (ProcessConfirmTransfer env s)) (snd (ProcessConfirmTransfer env s)),
                           GoLoop (fst (ProcessRefundTransferIn env s)) (snd (ProcessRefundTransferIn env s)),
                           GoLoop (fst ProcessRecoverTimeoutPendingTransfer)
                             (snd ProcessRecoverTimeoutPendingTransfer),
                           RouteGET ''/v1/summary/total'', RouteGET ''/v1/transfer/:limit''] @
                          startListenAndServeByPort (FL_p f)))))"

section \<open>Properties\<close>

text \<open>What \<open>main\<close> does after a successful start.\<close>

definition serving :: "node_env \<Rightarrow> server \<Rightarrow> flags \<Rightarrow> main_ev list" where
  "serving env s f =
     [GoCron,
      GoLoop (fst (ProcessSendTransfer env s)) (snd (ProcessSendTransfer env s)),
      GoLoop (fst (ProcessConfirmTransfer env s)) (snd (ProcessConfirmTransfer env s)),
      GoLoop (fst (ProcessRefundTransferIn env s)) (snd (ProcessRefundTransferIn env s)),
      GoLoop (fst ProcessRecoverTimeoutPendingTransfer) (snd ProcessRecoverTimeoutPendingTransfer),
      RouteGET ''/v1/summary/total'', RouteGET ''/v1/transfer/:limit''] @
     startListenAndServeByPort (FL_p f)"

lemma serving_loops:
  "GoLoop d p \<in> set (serving env s f) \<Longrightarrow> p \<in> node_programs env s \<and> 10 * second \<le> d"
  by (auto simp: serving_def startListenAndServeByPort_def node_programs_on_def tickers)

lemma main_program_cases:
  assumes "main_program w env unmarshal dial version commit f = evs"
  obtains (ended) "\<And>d p. GoLoop d p \<notin> set evs"
  | (serves) cfg v s h where "ParseCfgFile (IW_os w) unmarshal (FL_c f) = Inr cfg"
      "server_Init w env cfg (FL_ks f) (FL_pwddir f) (NewServer v) = (InitOk, s, h)"
      "\<not> FL_v f" "checkFlags f = None" "evs = serving env s f"
proof -
  define v where "v = (if version = [] then ''v1.0.2'' else version)"
  show ?thesis
  proof (cases "checkFlags f = None \<and> \<not> FL_v f")
    case False
    then show ?thesis
      by (intro ended) (use assms in \<open>auto simp: main_program_def printver_def Let_def split: option.splits\<close>)
  next
    case True
    show ?thesis
    proof (cases "\<exists>cfg s h. ParseCfgFile (IW_os w) unmarshal (FL_c f) = Inr cfg \<and>
        server_Init w env cfg (FL_ks f) (FL_pwddir f) (NewServer v) = (InitOk, s, h) \<and>
        (\<exists>g. InitGatewayClient dial (CBridgeConfig_GetGateway (Some cfg)) = Inr g)")
      case True': True
      then obtain cfg s h g where r: "ParseCfgFile (IW_os w) unmarshal (FL_c f) = Inr cfg"
        "server_Init w env cfg (FL_ks f) (FL_pwddir f) (NewServer v) = (InitOk, s, h)"
        "InitGatewayClient dial (CBridgeConfig_GetGateway (Some cfg)) = Inr g" by blast
      have "evs = serving env s f"
        using assms True r unfolding main_program_def v_def [symmetric] serving_def by (simp add: Let_def)
      with r True show ?thesis by (intro serves) auto
    next
      case none: False
      have "evs = [PanicExit] \<or> (\<exists>m. evs = [Fatal m])"
      proof (cases "ParseCfgFile (IW_os w) unmarshal (FL_c f)")
        case (Inl e)
        then show ?thesis using assms True by (auto simp: main_program_def Let_def)
      next
        case (Inr cfg)
        obtain out s h where i: "server_Init w env cfg (FL_ks f) (FL_pwddir f) (NewServer v) = (out, s, h)"
          by (metis prod_cases3)
        show ?thesis
          using assms True none Inr i unfolding main_program_def v_def [symmetric] Let_def
          by (cases "InitGatewayClient dial (CBridgeConfig_GetGateway (Some cfg))"; cases out) auto
      qed
      then show ?thesis by (intro ended) auto
    qed
  qed
qed

text \<open>Each background loop that the program starts is one of the node's verified programs, on the
  server that a successful start on the parsed configuration returned: no loop runs before the
  configuration is read, the database and the keystore are open, the gateway has accepted the node
  and the tokens are approved, nor when a flag is missing or only the version was asked for.\<close>

lemma main_starts_verified_loops:
  assumes "GoLoop d p \<in> set (main_program w env unmarshal dial version commit f)"
  shows "\<exists>cfg v s h. ParseCfgFile (IW_os w) unmarshal (FL_c f) = Inr cfg \<and>
    server_Init w env cfg (FL_ks f) (FL_pwddir f) (NewServer v) = (InitOk, s, h) \<and>
    p \<in> node_programs env s \<and> 10 * second \<le> d \<and> \<not> FL_v f \<and> checkFlags f = None"
  by (rule main_program_cases [OF HOL.refl, of w env unmarshal dial version commit f])
    (use assms serving_loops in fastforce)+

definition start_flags :: flags where
  "start_flags = \<lparr>FL_p = 8088, FL_c = ''cfg'', FL_v = False, FL_ks = ''ks'', FL_pwddir = ''pwd''\<rparr>"

lemma main_starts_verified_loops_example:
  "\<exists>v s h. server_Init (start_world 1) start_env start_config ''ks'' ''pwd'' (NewServer v) = (InitOk, s, h) \<and>
     processTrySendTransferIn start_env (start_result 1) \<in> node_programs start_env s"
proof -
  have parsed: "ParseCfgFile (IW_os (start_world 1)) (\<lambda>raw. Inr start_config) f = Inr start_config" for f
    by (simp add: ParseCfgFile_def start_world_def)
  have "GoLoop (10 * second) (processTrySendTransferIn start_env (start_result 1))
     \<in> set (main_program (start_world 1) start_env (\<lambda>raw. Inr start_config) Inr ''v1'' [] start_flags)"
    by (simp add: main_program_def checkFlags_def start_flags_def parsed InitGatewayClient_def NewGatewayAPI_def
        start_ok ProcessSendTransfer_def Let_def)
  from main_starts_verified_loops [OF this] show ?thesis by (auto simp: parsed start_flags_def)
qed

text \<open>Asking for the version alone does not print it: without the other flags, whatever they would
  be used for, the program ends with the message on the first missing one.\<close>

lemma version_needs_all_flags:
  "main_program w env unmarshal dial version commit (default_flags\<lparr>FL_v := True\<rparr>)
     = [Fatal ''-c config not specified'']"
  by (simp add: main_program_def checkFlags_def default_flags_def Let_def)

end
