(* ===== verification/Relay_Rounds.thy ===== *)
theory Relay_Rounds
  imports Relay_Effects Relay_Trace
begin

text \<open>
  What a whole round of the send, confirm and refund loops does when nothing comes between its
  steps, stated row by row: the row each selected row becomes and the transactions submitted for
  it. The loops work on copies of rows and on one row after the other; the reference below says what
  each row gets from the table as it was at the start.
\<close>

section \<open>The effect of a program\<close>

text \<open>The table it leaves and the transactions it submits, in their order.\<close>

primrec effect :: "outside \<Rightarrow> proc \<Rightarrow> table \<Rightarrow> table \<times> ev list" where
  "effect w (Done b) T = (T, [])"
| "effect w Panic T = (T, [])"
| "effect w (Now k) T = effect w (k (O_Now w)) T"
| "effect w (Exec s k) T = effect w (k None) (apply_stmt s T)"
| "effect w (Query q k) T = effect w (k (Inr (run_query q T))) T"
| "effect w (BlockNumber c k) T = effect w (k (O_Block w c)) T"
| "effect w (CallContract c a n m k) T = effect w (k (O_Call w c m)) T"
| "effect w (FeeRpc q k) T = effect w (k (O_Fee w q)) T"
| "effect w (Transact c a m k) T =
     map_prod id ((#) (TransactE c a m (O_Tx w c m))) (effect w (k (O_Tx w c m)) T)"
| "effect w (Sleep d p) T = effect w p T"

fun transacts :: "ev \<Rightarrow> bool" where
  "transacts (TransactE c a m r) = True"
| "transacts e = False"

lemma effect_run_alone:
  "\<exists>new. fst (snd (run_alone w p T h)) = new @ h \<and>
     effect w p T = (fst (run_alone w p T h), rev (filter transacts new))"
proof (induction p arbitrary: T h)
  case (Now k)
  from Now.IH [OF rangeI, of "O_Now w" T "NowE (O_Now w) # h"] show ?case by fastforce
next
  case (Exec s k)
  from Exec.IH [OF rangeI, of None "apply_stmt s T" "ExecE s None # h"] show ?case by fastforce
next
  case (Query q k)
  let ?r = "Inr (run_query q T)"
  from Query.IH [OF rangeI, of ?r T "QueryE q ?r # h"] show ?case by fastforce
next
  case (BlockNumber c k)
  from BlockNumber.IH [OF rangeI, of "O_Block w c" T "BlockE c (O_Block w c) # h"] show ?case by fastforce
next
  case (CallContract c a n m k)
  from CallContract.IH [OF rangeI, of "O_Call w c m" T "CallE c a n m (O_Call w c m) # h"]
  show ?case by fastforce
next
  case (FeeRpc q k)
  from FeeRpc.IH [OF rangeI, of "O_Fee w q" T "FeeE q (O_Fee w q) # h"] show ?case by fastforce
next
  case (Transact c a m k)
  from Transact.IH [OF rangeI, of "O_Tx w c m" T "TransactE c a m (O_Tx w c m) # h"]
  show ?case by fastforce
next
  case (Sleep d p)
  from Sleep.IH [of T "SleepE d # h"] show ?case by fastforce
qed simp_all

lemma effect_after: "fst (effect w p T) = after w p T"
  using effect_run_alone [of w p T "[]"] by (auto simp: after_def)

definition emits :: "ev list \<Rightarrow> table \<times> ev list \<Rightarrow> table \<times> ev list" where
  "emits es x = (fst x, es @ snd x)"

lemma emits_simps [simp]:
  "emits [] x = x" "emits es (emits es' x) = emits (es @ es') x" "emits es (T, es') = (T, es @ es')"
  "map_prod id ((#) e) x = emits [e] x" "fst (emits es x) = fst x"
  by (simp_all add: emits_def prod_eq_iff)

section \<open>One row at a time\<close>

definition put_row :: "StoredTransfer \<Rightarrow> table \<Rightarrow> table" where
  "put_row r T = update_where (\<lambda>x. TransferId x = TransferId r) (\<lambda>x. r) T"

lemma put_row_keys [simp]: "map TransferId (put_row r T) = map TransferId T"
  by (auto simp: put_row_def update_where_def)

lemma put_row_distinct [simp]: "keys_distinct (put_row r T) = keys_distinct T"
  by (simp add: keys_distinct_def)

lemma put_row_again [simp]: "TransferId r' = TransferId r \<Longrightarrow> put_row r' (put_row r T) = put_row r' T"
  by (auto simp: put_row_def update_where_def)

lemma find_put_row:
  "find_row tid (put_row r T) =
     (if tid = TransferId r then map_option (\<lambda>x. r) (find_row tid T) else find_row tid T)"
  by (induction T) (auto simp: put_row_def update_where_def find_row_def)

lemma row_at:
  assumes "keys_distinct T" "find_row tid T = Some r" "x \<in> set T" "TransferId x = tid"
  shows "x = r"
  using find_row_unique [OF assms(1,3)] assms(2,4) by simp

lemma put_row_same:
  assumes "keys_distinct T" "find_row (TransferId r) T = Some r"
  shows "put_row r T = T"
  unfolding put_row_def update_where_def using row_at [OF assms] by (intro map_idI) (metis (full_types))

text \<open>A statement that selects by id rewrites that row.\<close>

lemma apply_put_row:
  assumes "\<not> is_insert s" "\<And>x. stmt_sel s x \<Longrightarrow> TransferId x = TransferId r"
    and "keys_distinct T" "find_row (TransferId r) T = Some r"
  shows "apply_stmt s T = put_row (if stmt_sel s r then stmt_upd s r else r) T"
proof -
  have key: "TransferId (stmt_upd s r) = TransferId r"
    using fixed_colsD(1) [OF row_update.keeps_fixed [OF stmt_row_update [OF assms(1)]]] .
  have "(if stmt_sel s x then stmt_upd s x else x) =
      (if TransferId x = TransferId r then (if stmt_sel s r then stmt_upd s r else r) else x)"
    if "x \<in> set T" for x
  proof (cases "TransferId x = TransferId r")
    case True
    then have "x = r" by (rule row_at [OF assms(3,4) that])
    then show ?thesis by simp
  next
    case False
    then have "\<not> stmt_sel s x" using assms(2) by blast
    with False show ?thesis by simp
  qed
  then show ?thesis
    unfolding apply_update [OF assms(1)] put_row_def update_where_def
    by (intro map_cong) (simp_all add: key)
qed

text \<open>A loop whose body works on the row it was given, and may read rows the loop does not touch.\<close>

lemma loop_effect:
  assumes body: "\<And>r nx T'. r \<in> set xs \<Longrightarrow> keys_distinct T' \<Longrightarrow> find_row (TransferId r) T' = Some r \<Longrightarrow>
      (\<And>tid. tid \<notin> TransferId ` set xs \<Longrightarrow> find_row tid T' = find_row tid T) \<Longrightarrow>
      effect w (body (scan r) nx) T' = emits (calls r) (effect w nx (put_row (result r) T'))"
    and keeps: "\<And>r. r \<in> set xs \<Longrightarrow> TransferId (result r) = TransferId r"
    and "keys_distinct T" "distinct (map TransferId xs)" "\<And>r. r \<in> set xs \<Longrightarrow> find_row (TransferId r) T = Some r"
  shows "effect w (for_each body (map scan xs) k) T = emits (concat (map calls xs))
    (effect w k (foldl (\<lambda>T r. put_row (result r) T) T xs))"
proof -
  have "effect w (for_each body (map scan ys) k) T' = emits (concat (map calls ys))
      (effect w k (foldl (\<lambda>T r. put_row (result r) T) T' ys))"
    if "set ys \<subseteq> set xs" "distinct (map TransferId ys)" "keys_distinct T'"
      "\<And>r. r \<in> set ys \<Longrightarrow> find_row (TransferId r) T' = Some r"
      "\<And>tid. tid \<notin> TransferId ` set xs \<Longrightarrow> find_row tid T' = find_row tid T" for ys T'
    using that
  proof (induction ys arbitrary: T')
    case (Cons r ys)
    have r: "r \<in> set xs" "find_row (TransferId r) T' = Some r" using Cons.prems(1,4) by auto
    let ?T = "put_row (result r) T'"
    have "effect w (for_each body (map scan ys) k) ?T = emits (concat (map calls ys))
        (effect w k (foldl (\<lambda>T r. put_row (result r) T) ?T ys))"
    proof (rule Cons.IH)
      show "find_row (TransferId x) ?T = Some x" if "x \<in> set ys" for x
      proof -
        have "TransferId x \<noteq> TransferId r" using Cons.prems(2) imageI [OF that, of TransferId] by auto
        then show ?thesis using Cons.prems(4) that keeps [OF r(1)] by (simp add: find_put_row)
      qed
      show "find_row tid ?T = find_row tid T" if "tid \<notin> TransferId ` set xs" for tid
        using Cons.prems(5) [OF that] that r(1) keeps [OF r(1)] by (auto simp: find_put_row)
    qed (use Cons.prems in auto)
    with body [OF r(1) Cons.prems(3) r(2) Cons.prems(5)] show ?case by simp
  qed simp
  from this [of xs T] assms(3-5) show ?thesis by simp
qed

lemma foldl_put_rows:
  assumes "keys_distinct T" "\<And>r. r \<in> set T \<Longrightarrow> sel r \<Longrightarrow> TransferId (result r) = TransferId r"
  shows "foldl (\<lambda>T r. put_row (result r) T) T (filter sel T) = map (\<lambda>r. if sel r then result r else r) T"
proof -
  have "foldl (\<lambda>T r. put_row (result r) T) (map g U) ys =
      map (\<lambda>x. if x \<in> set ys then result x else g x) U"
    if "distinct (map TransferId U)" "set ys \<subseteq> set U" "distinct ys"
      "\<And>r. r \<in> set U \<Longrightarrow> TransferId (g r) = TransferId r"
      "\<And>r. r \<in> set ys \<Longrightarrow> TransferId (result r) = TransferId r" for g U ys
    using that
  proof (induction ys arbitrary: g)
    case (Cons y ys)
    have same: "TransferId x = TransferId y \<longleftrightarrow> x = y" if "x \<in> set U" for x
      using Cons.prems(1,2) that by (auto simp: distinct_map dest: inj_onD)
    have "put_row (result y) (map g U) = map (\<lambda>x. if x = y then result y else g x) U"
      using Cons.prems(2,4,5) same by (auto simp: put_row_def update_where_def)
    then have "foldl (\<lambda>T r. put_row (result r) T) (map g U) (y # ys) =
        foldl (\<lambda>T r. put_row (result r) T) (map (\<lambda>x. if x = y then result y else g x) U) ys" by simp
    also have "\<dots> = map (\<lambda>x. if x \<in> set ys then result x else if x = y then result y else g x) U"
      by (rule Cons.IH) (use Cons.prems in auto)
    also have "\<dots> = map (\<lambda>x. if x \<in> set (y # ys) then result x else g x) U" by auto
    finally show ?case .
  qed simp
  from this [of T "filter sel T" id] assms show ?thesis
    by (auto simp: keys_distinct_def distinct_map)
qed

lemma round_effect:
  assumes "\<And>r nx T'. r \<in> set T \<Longrightarrow> sel r \<Longrightarrow> keys_distinct T' \<Longrightarrow> find_row (TransferId r) T' = Some r \<Longrightarrow>
      (\<And>tid. tid \<notin> TransferId ` {r \<in> set T. sel r} \<Longrightarrow> find_row tid T' = find_row tid T) \<Longrightarrow>
      effect w (body (scan r) nx) T' = emits (calls r) (effect w nx (put_row (result r) T'))"
    and "\<And>r. r \<in> set T \<Longrightarrow> sel r \<Longrightarrow> TransferId (result r) = TransferId r" "keys_distinct T"
  shows "effect w (for_each body (map scan (filter sel T)) (Done b)) T =
    (map (\<lambda>r. if sel r then result r else r) T, concat (map calls (filter sel T)))"
proof -
  have "distinct (map TransferId (filter sel T))"
    using assms(3) by (simp add: keys_distinct_def distinct_map_filter)
  then have "effect w (for_each body (map scan (filter sel T)) (Done b)) T =
      emits (concat (map calls (filter sel T)))
        (effect w (Done b) (foldl (\<lambda>T r. put_row (result r) T) T (filter sel T)))"
    using assms by (intro loop_effect) (auto simp: find_row_unique)
  then show ?thesis using foldl_put_rows [OF assms(3,2)] by simp
qed

section \<open>The reference\<close>

text \<open>What the chain's contract says of a transfer, \<open>None\<close> if it cannot be asked.\<close>

definition seen_status :: "outside \<Rightarrow> node_env \<Rightarrow> bridgeConfig \<Rightarrow> hash \<Rightarrow> u8 option" where
  "seen_status w env bc tid =
     (case NE_AbiErr env of
        Some err \<Rightarrow> None
      | None \<Rightarrow> remote_status (O_Call w (chain_uint64 bc) (CBridge_transfers_call tid)))"

definition typed_outside :: "outside \<Rightarrow> bool" where
  "typed_outside w \<longleftrightarrow> (\<forall>c tid. CBridge_Transfers (O_Call w c (CBridge_transfers_call tid)) \<noteq> None)"

definition submit :: "outside \<Rightarrow> bridgeConfig \<Rightarrow> abi_call \<Rightarrow> ev" where
  "submit w bc call =
     TransactE (chain_uint64 bc) (BG_contract bc) (Inr call) (O_Tx w (chain_uint64 bc) (Inr call))"

text \<open>A started transfer in: locked if its chain already has it pending; sent, and once more if that
  fails, if its chain does not know it and the fee is covered.\<close>

definition send_spec ::
  "outside \<Rightarrow> node_env \<Rightarrow> server \<Rightarrow> StoredTransfer \<Rightarrow> StoredTransfer \<times> ev list" where
  "send_spec w env s r =
     (case SV_chainMap s (ChainId r) of
        None \<Rightarrow> (r, [])
      | Some bc \<Rightarrow>
     case seen_status w env bc (TransferId r) of
        None \<Rightarrow> (r, [])
      | Some st \<Rightarrow>
          if st = remoteTransferStatusPending then (set_status TRANSFER_STATUS_LOCKED (O_Now w) r, [])
          else if st \<noteq> 0 then (r, [])
          else (case fee_of (O_Fee w \<lparr>FQ_TransferOutId = HashString (NE_lib env) (RelatedTid r)\<rparr>) of
                  Inl err \<Rightarrow> (r, [])
                | Inr fee \<Rightarrow>
                    if gross r < fee then (r, [])
                    else (r\<lparr>Amount := gross r - fee, Fee := fee,
                            Status := TRANSFER_STATUS_TRANSFER_IN_PENDING, UpdateTs := O_Now w\<rparr>,
                          let call = send_call (scan r) fee
                          in if O_Tx w (chain_uint64 bc) (Inr call) = None then [submit w bc call]
                             else [submit w bc call, submit w bc call])))"

text \<open>A locked row with a preimage: confirmed on its chain if pending there, otherwise brought to
  the final status of its chain.\<close>

definition confirm_spec ::
  "outside \<Rightarrow> node_env \<Rightarrow> server \<Rightarrow> StoredTransfer \<Rightarrow> StoredTransfer \<times> ev list" where
  "confirm_spec w env s r =
     (case SV_chainMap s (ChainId r) of
        None \<Rightarrow> (r, [])
      | Some bc \<Rightarrow>
     case seen_status w env bc (TransferId r) of
        None \<Rightarrow> (r, [])
      | Some st \<Rightarrow>
          if st = remoteTransferStatusPending then
            (set_status TRANSFER_STATUS_CONFIRM_PENDING (O_Now w) r,
             [submit w bc (CBridge_Confirm (TransferId r) (Preimage r))])
          else if st = remoteTransferStatusRefunded then (r\<lparr>Status := TRANSFER_STATUS_REFUNDED\<rparr>, [])
          else if st = remoteTransferStatusConfirmed then
            (r\<lparr>Status := TRANSFER_STATUS_CONFIRMED, PreimageSet := True, TxConfirmHash := 0\<rparr>, [])
          else (r, []))"

text \<open>An expired locked transfer in that is pending on its chain: its transfer out decides.\<close>

definition settle_calls ::
  "outside \<Rightarrow> node_env \<Rightarrow> server \<Rightarrow> bridgeConfig \<Rightarrow> StoredTransfer \<Rightarrow> StoredTransfer option \<Rightarrow> ev list" where
  "settle_calls w env s bc r out =
     (case out of
        None \<Rightarrow> []
      | Some x \<Rightarrow>
          if Status x = TRANSFER_STATUS_CONFIRMED then
            [submit w bc (CBridge_Confirm (TransferId r) (Preimage x))]
          else (case SV_chainMap s (ChainId x) of
             None \<Rightarrow> []
           | Some out_bc \<Rightarrow>
               (case seen_status w env out_bc (TransferId x) of
                  None \<Rightarrow> []
                | Some st \<Rightarrow> if st = remoteTransferStatusConfirmed then []
                            else [submit w bc (CBridge_Refund (TransferId r))])))"

definition refund_spec ::
  "outside \<Rightarrow> node_env \<Rightarrow> server \<Rightarrow> table \<Rightarrow> StoredTransfer \<Rightarrow> StoredTransfer \<times> ev list" where
  "refund_spec w env s T r =
     (case SV_chainMap s (ChainId r) of
        None \<Rightarrow> (r, [])
      | Some bc \<Rightarrow>
     case seen_status w env bc (TransferId r) of
        None \<Rightarrow> (r, [])
      | Some st \<Rightarrow>
          if st = remoteTransferStatusPending then
            (set_status TRANSFER_STATUS_REFUND_PENDING (O_Now w) r,
             settle_calls w env s bc r (find_row (RelatedTid r) T))
          else if st = remoteTransferStatusRefunded then (r\<lparr>Status := TRANSFER_STATUS_REFUNDED\<rparr>, [])
          else (r, []))"

lemmas spec_defs = send_spec_def confirm_spec_def refund_spec_def

lemma spec_keys:
  "TransferId (fst (send_spec w env s r)) = TransferId r"
  "TransferId (fst (confirm_spec w env s r)) = TransferId r"
  "TransferId (fst (refund_spec w env s T r)) = TransferId r"
  by (auto simp: spec_defs split: option.splits sum.splits)

section \<open>The loops meet it\<close>

lemma effect_getTransfer:
  assumes "typed_outside w"
    and "\<And>err. seen_status w env bc tid = None \<Longrightarrow> effect w (k (Inl err)) T = res"
    and "\<And>i. seen_status w env bc tid = Some (TI_Status i) \<Longrightarrow> effect w (k (Inr i)) T = res"
  shows "effect w (getTransfer env bc tid k) T = res"
proof (cases "NE_AbiErr env")
  case None
  let ?r = "O_Call w (chain_uint64 bc) (CBridge_transfers_call tid)"
  obtain res where res: "CBridge_Transfers ?r = Some res" using assms(1) by (auto simp: typed_outside_def)
  with None assms(2,3) show ?thesis
    by (cases res) (auto simp: getTransfer_def seen_status_def remote_status_def)
next
  case (Some err)
  with assms(2) show ?thesis by (simp add: getTransfer_def seen_status_def)
qed

lemma seen_status_bound: "seen_status w env bc tid = Some st \<Longrightarrow> bound_call env call = Inr call"
  by (auto simp: seen_status_def bound_call_def split: option.splits)

lemma seen_status_abi: "seen_status w env bc tid = Some st \<Longrightarrow> NE_AbiErr env = None"
  by (auto simp: seen_status_def split: option.splits)

text \<open>The statements of the loops on the row at hand.\<close>

lemma loop_statements:
  assumes "keys_distinct T" "find_row (TransferId r) T = Some r"
  shows "apply_stmt (SetTransferStatusByFromS (TransferId r) to from now) T =
      put_row (if Status r = from then set_status to now r else r) T"
    "apply_stmt (SetPendingTransferInS (TransferId r) to from now) T =
      put_row (if Status r = from then set_status to now r else r) T"
    "apply_stmt (SetTransferInAmountAndFeeS (TransferId r) a f) T = put_row (r\<lparr>Amount := a, Fee := f\<rparr>) T"
    "apply_stmt (UpdateTransferStatusS (TransferId r) to) T = put_row (r\<lparr>Status := to\<rparr>) T"
    "apply_stmt (ConfirmTransferS (TransferId r) p h) T =
      put_row (r\<lparr>Status := TRANSFER_STATUS_CONFIRMED, Preimage := p, PreimageSet := True,
        TxConfirmHash := h\<rparr>) T"
  by (subst apply_put_row [OF _ _ assms]; simp)+

lemma send_effect:
  assumes "typed_outside w" "query_sel (StartTransferInQ (O_Now w + hour)) r"
    and row: "keys_distinct T" "find_row (TransferId r) T = Some r"
  shows "effect w (send_one env s (scan r) nx) T =
    emits (snd (send_spec w env s r)) (effect w nx (put_row (fst (send_spec w env s r)) T))"
proof (cases "SV_chainMap s (ChainId r)")
  case None
  then show ?thesis by (simp add: send_one_def send_spec_def put_row_same [OF row])
next
  case (Some bc)
  have lock: "\<not> TimeLock r - 6 * minute < O_Now w" "Status r = TRANSFER_STATUS_TRANSFER_IN_START"
    using assms(2) by simp_all
  have claimed: "apply_stmt (SetPendingTransferInS (TransferId r) to TRANSFER_STATUS_TRANSFER_IN_START now)
      (put_row (r\<lparr>Amount := a, Fee := f\<rparr>) T) =
      put_row (set_status to now (r\<lparr>Amount := a, Fee := f\<rparr>)) T" for a f to now
    using loop_statements(2) [of "put_row (r\<lparr>Amount := a, Fee := f\<rparr>) T" "r\<lparr>Amount := a, Fee := f\<rparr>"]
      row lock(2) by (simp add: find_put_row)
  show ?thesis
    unfolding send_one_def
    using Some lock
    by (auto simp: db_defs transferIn_def gateway_GetFee_fold Let_def loop_statements [OF row] claimed
        seen_status_bound put_row_same [OF row] send_spec_def gross_def submit_def send_call_def
        remote_status_defs simp del: apply_stmt.simps
        split: sum.splits intro!: effect_getTransfer [OF assms(1)])
qed

lemma confirm_effect:
  assumes "typed_outside w" "query_sel ConfirmableLockedQ r"
    and row: "keys_distinct T" "find_row (TransferId r) T = Some r"
  shows "effect w (confirm_one env s (scan r) nx) T =
    emits (snd (confirm_spec w env s r)) (effect w nx (put_row (fst (confirm_spec w env s r)) T))"
proof (cases "SV_chainMap s (ChainId r)")
  case None
  then show ?thesis by (simp add: confirm_one_def confirm_spec_def put_row_same [OF row])
next
  case (Some bc)
  have sel: "Status r = TRANSFER_STATUS_LOCKED" using assms(2) by simp
  have same: "r\<lparr>Status := st, Preimage := Preimage r, PreimageSet := b, TxConfirmHash := h\<rparr> =
      r\<lparr>Status := st, PreimageSet := b, TxConfirmHash := h\<rparr>" for st b h
    by (cases r) simp
  show ?thesis
    unfolding confirm_one_def
    using Some sel
    by (auto simp: db_defs confirm_def loop_statements [OF row] seen_status_bound put_row_same [OF row]
        confirm_spec_def submit_def remote_status_defs same simp del: apply_stmt.simps
        intro!: effect_getTransfer [OF assms(1)])
qed

text \<open>The refund loop also reads the transfer out, which no round of it changes.\<close>

lemma run_ByTid:
  assumes "keys_distinct T"
  shows "run_query (ByTidQ tid) T = (case find_row tid T of None \<Rightarrow> [] | Some x \<Rightarrow> [scan x])"
proof -
  have "filter (query_sel (ByTidQ tid)) T = (case find_row tid T of None \<Rightarrow> [] | Some x \<Rightarrow> [x])"
    using assms
    by (induction T) (auto simp: keys_distinct_def find_row_def filter_empty_conv image_iff
        split: option.splits dest!: find_SomeD)
  then show ?thesis by (simp split: option.splits)
qed

lemma settle_effect:
  assumes "typed_outside w" "Status r = TRANSFER_STATUS_LOCKED"
    and row: "keys_distinct T" "find_row (TransferId r) T = Some r"
    and abi: "NE_AbiErr env = None" and "RelatedTid r \<noteq> TransferId r"
  shows "effect w (refund_pending env s bc (scan r) nx) T =
    emits (settle_calls w env s bc r (find_row (RelatedTid r) T))
      (effect w nx (put_row (set_status TRANSFER_STATUS_REFUND_PENDING (O_Now w) r) T))"
proof -
  have q: "run_query (ByTidQ (RelatedTid r)) (put_row (set_status st t r) T) =
      (case find_row (RelatedTid r) T of None \<Rightarrow> [] | Some x \<Rightarrow> [scan x])" for st t
    using row(1) assms(6) by (simp add: run_ByTid find_put_row del: run_query.simps)
  show ?thesis
    unfolding refund_pending_def settle_calls_def
    using assms(2)
    by (cases "find_row (RelatedTid r) T")
      (auto simp: db_defs confirm_def refund_def loop_statements [OF row] q submit_def
        bound_call_def abi remote_status_defs simp del: apply_stmt.simps run_query.simps
        split: option.splits intro!: effect_getTransfer [OF assms(1)])
qed

lemma refund_effect:
  assumes "typed_outside w" "query_sel (RefundAbleTransferInQ (O_Now w)) r"
    and row: "keys_distinct T" "find_row (TransferId r) T = Some r" and "RelatedTid r \<noteq> TransferId r"
  shows "effect w (refund_one env s (scan r) nx) T =
    emits (snd (refund_spec w env s T r)) (effect w nx (put_row (fst (refund_spec w env s T r)) T))"
proof (cases "SV_chainMap s (ChainId r)")
  case None
  then show ?thesis by (simp add: refund_one_def refund_spec_def put_row_same [OF row])
next
  case (Some bc)
  have sel: "Status r = TRANSFER_STATUS_LOCKED" using assms(2) by simp
  show ?thesis
    unfolding refund_one_def
    using Some
    by (auto simp: settle_effect [OF assms(1) sel row seen_status_abi assms(5)]
        loop_statements [OF row] put_row_same [OF row] refund_spec_def remote_status_defs
        simp del: apply_stmt.simps intro!: effect_getTransfer [OF assms(1)])
qed

section \<open>Whole rounds\<close>

definition in_round ::
  "query \<Rightarrow> (StoredTransfer \<Rightarrow> StoredTransfer \<times> ev list) \<Rightarrow> table \<Rightarrow> table \<times> ev list" where
  "in_round q spec T =
     (map (\<lambda>r. if query_sel q r then fst (spec r) else r) T,
      concat (map (\<lambda>r. snd (spec r)) (filter (query_sel q) T)))"

lemma send_round:
  assumes "typed_outside w" "keys_distinct T"
  shows "effect w (processTrySendTransferIn env s) T =
    in_round (StartTransferInQ (O_Now w + hour)) (send_spec w env s) T"
  unfolding processTrySendTransferIn_def db_defs effect.simps run_query.simps sum.case in_round_def
  by (rule round_effect [OF _ _ assms(2)]) (simp_all only: send_effect [OF assms(1)] spec_keys)

lemma confirm_round:
  assumes "typed_outside w" "keys_distinct T"
  shows "effect w (processTryConfirmTransfer env s) T = in_round ConfirmableLockedQ (confirm_spec w env s) T"
  unfolding processTryConfirmTransfer_def db_defs effect.simps run_query.simps sum.case in_round_def
  by (rule round_effect [OF _ _ assms(2)]) (simp_all only: confirm_effect [OF assms(1)] spec_keys)

lemma refund_round:
  assumes "typed_outside w" "keys_distinct T"
    and "\<And>r x. r \<in> set T \<Longrightarrow> x \<in> set T \<Longrightarrow> TransferType r = TRANSFER_TYPE_IN \<Longrightarrow>
      TransferId x = RelatedTid r \<Longrightarrow> TransferType x \<noteq> TRANSFER_TYPE_IN"
  shows "effect w (processTryRefundTransferIn env s) T =
    in_round (RefundAbleTransferInQ (O_Now w)) (refund_spec w env s T) T"
  unfolding processTryRefundTransferIn_def db_defs effect.simps run_query.simps sum.case in_round_def
proof (rule round_effect [OF _ _ assms(2)])
  let ?sel = "query_sel (RefundAbleTransferInQ (O_Now w))"
  fix r nx T'
  assume r: "r \<in> set T" "?sel r" "keys_distinct T'" "find_row (TransferId r) T' = Some r"
    and others: "\<And>tid. tid \<notin> TransferId ` {r \<in> set T. ?sel r} \<Longrightarrow> find_row tid T' = find_row tid T"
  have "RelatedTid r \<notin> TransferId ` {r \<in> set T. ?sel r}"
  proof
    assume "RelatedTid r \<in> TransferId ` {r \<in> set T. ?sel r}"
    then obtain x where "x \<in> set T" "?sel x" "TransferId x = RelatedTid r" by (elim imageE) auto
    moreover have "TransferType x = TRANSFER_TYPE_IN" "TransferType r = TRANSFER_TYPE_IN"
      using calculation(2) r(2) by simp_all
    ultimately show False using assms(3) [OF r(1)] by blast
  qed
  moreover have "TransferId r \<in> TransferId ` {r \<in> set T. ?sel r}" using r(1,2) by blast
  ultimately have fr: "find_row (RelatedTid r) T' = find_row (RelatedTid r) T"
    and ne: "RelatedTid r \<noteq> TransferId r"
    using others by metis+
  have eq: "refund_spec w env s T' r = refund_spec w env s T r" unfolding refund_spec_def fr ..
  show "effect w (refund_one env s (scan r) nx) T' = emits (snd (refund_spec w env s T r))
      (effect w nx (put_row (fst (refund_spec w env s T r)) T'))"
    unfolding eq [symmetric] by (rule refund_effect [OF assms(1) r(2-4) ne])
qed (rule spec_keys)

end
