(* ===== verification/Overwritten_Amount.thy ===== *)
theory Overwritten_Amount
  imports Example_Run Relay_Rounds
begin

text \<open>
  A run in which the amount in the table ends up another than the amount that was paid. The send
  loop stores the new amount and fee before it submits; if the row is taken back to start before the
  chain shows the first transaction, the next round stores another amount, its transaction fails, and
  the event of the first one locks the row without looking at the amount it reports.
\<close>

section \<open>The outside, a quarter of an hour later\<close>

text \<open>The contract still answers that it does not know the transfer, the fee has gone up to 200, and
  a second transaction for the same transfer is refused.\<close>

definition ex_later :: outside where
  "ex_later = ex_outside\<lparr>O_Now := 100 * hour + 16 * minute,
     O_Fee := (\<lambda>q. Inr \<lparr>FR_Err = None, FR_Fee = big_String 200\<rparr>), O_Tx := (\<lambda>c m. Some ''reverted'')\<rparr>"

text \<open>The event of the first transaction, with the amount it locked.\<close>

definition ex_in_event :: LogNewTransferIn where
  "ex_in_event = \<lparr>LI_TransferId = 42, LI_Sender = 7, LI_Receiver = 6, LI_Token = 19, LI_Amount = 99850,
     LI_Hashlock = 77, LI_Timelock = 116 * 3600, LI_SrcChainId = 1, LI_SrcTransferId = 41\<rparr>"

definition ex_in_log :: ethlog where
  "ex_in_log = \<lparr>LG_TxHash = 11, LG_BlockNumber = 4990,
     LG_Unpack = (\<lambda>name. Inr [VBytes32 42, VAddress 7, VAddress 6, VAddress 19, VUint256 99850,
       VBytes32 77, VUint64 (116 * 3600), VUint64 1, VBytes32 41])\<rparr>"

lemma ex_in_parse: "ParseEvent to_LogNewTransferIn evLogTransferIn ex_in_log = Inr ex_in_event"
  by (simp add: ParseEvent_def ex_in_log_def to_LogNewTransferIn_def ex_in_event_def)

lemma ex_in_hash: "LG_TxHash ex_in_log = 11"
  by (simp add: ex_in_log_def)

lemma ex_pending_outside:
  "typed_outside ex_pending" "seen_status ex_pending ex_env bc tid = Some 1"
  "O_Tx ex_pending c m = None" "O_Now ex_pending = 117 * hour"
  by (simp_all add: typed_outside_def seen_status_def remote_status_def ex_pending_def ex_env_def)

section \<open>Its steps\<close>

abbreviation ex_row :: "int \<Rightarrow> int \<Rightarrow> TransferStatus \<Rightarrow> gotime \<Rightarrow> StoredTransfer" where
  "ex_row amount fee st t \<equiv>
     (inserted_row ex_in (100 * hour))\<lparr>Amount := amount, Fee := fee, Status := st, UpdateTs := t\<rparr>"

abbreviation ex_out_row :: StoredTransfer where
  "ex_out_row \<equiv> inserted_row ex_out (100 * hour)"

lemma ex_later_sel [simp]: "O_Now ex_later = 100 * hour + 16 * minute"
  by (simp add: ex_later_def)

lemma ex_recovered:
  "after ex_later (snd ProcessRecoverTimeoutPendingTransfer) ex_sent =
     [ex_out_row, ex_row 99850 150 TRANSFER_STATUS_TRANSFER_IN_START (100 * hour + 16 * minute)]"
  unfolding ex_sent_def by (subst recover_round) (simp_all add: keys_distinct_def recovered_def)

lemma ex_later_outside:
  "typed_outside ex_later" "seen_status ex_later ex_env bc tid = Some 0"
  "fee_of (O_Fee ex_later q) = Inr 200" "O_Tx ex_later c m = Some ''reverted''"
  by (simp_all add: typed_outside_def seen_status_def remote_status_def ex_later_def ex_outside_def
      ex_env_def fee_of_def GetFee_result_def gateway_getters)

lemma ex_sent_again:
  "after ex_later (snd (ProcessSendTransfer ex_env ex_server))
     [ex_out_row, ex_row 99850 150 TRANSFER_STATUS_TRANSFER_IN_START (100 * hour + 16 * minute)] =
   [ex_out_row, ex_row 99800 200 TRANSFER_STATUS_TRANSFER_IN_PENDING (100 * hour + 16 * minute)]"
  by (simp add: effect_after [symmetric] ProcessSendTransfer_def send_round ex_later_outside keys_distinct_def
      in_round_def send_spec_def remote_status_defs gross_def Let_def)

lemma ex_recorded:
  "after ex_later (monitorLogTransferIn ex_server ex_in_log)
     [ex_out_row, ex_row 99800 200 TRANSFER_STATUS_TRANSFER_IN_PENDING (100 * hour + 16 * minute)] =
   [ex_out_row, (ex_row 99800 200 TRANSFER_STATUS_LOCKED (100 * hour + 16 * minute))\<lparr>TxHash := 11\<rparr>]"
  by (simp add: monitorLogTransferIn_def ex_in_parse ex_in_event_def update_where_def ex_in_hash)

text \<open>A program run to its end beside the others, by its effect on the table.\<close>

lemma spawn_after:
  assumes "sys_reach (\<lambda>e. True) P s0 (T, ths)" "p \<in> P"
  shows "\<exists>th. sys_reach (\<lambda>e. True) P s0 (after w p T, ths @ [th])"
proof -
  obtain T' h' b where run: "run_alone w p T [] = (T', h', b)" by (metis prod_cases3)
  with spawn_then_alone [OF admits_all assms run] show ?thesis by (auto simp: after_def)
qed

lemma ex_overwritten:
  "\<exists>ths p. sys_reach (\<lambda>e. True) (node_programs ex_env ex_server) ([], [])
     ([ex_out_row, (ex_row 99800 200 TRANSFER_STATUS_LOCKED (100 * hour + 16 * minute))\<lparr>TxHash := 11\<rparr>],
      (TransactE 56 101 (Inr ex_call) None # ex_past, p) # ths)"
proof -
  let ?P = "node_programs ex_env ex_server"
  have progs: "snd ProcessRecoverTimeoutPendingTransfer \<in> ?P"
    "snd (ProcessSendTransfer ex_env ex_server) \<in> ?P" "monitorLogTransferIn ex_server ex_in_log \<in> ?P"
    by (auto simp: node_programs_on_def)
  obtain p where "sys_reach (\<lambda>e. True) ?P ([], [])
      (ex_sent, [(TransactE 56 101 (Inr ex_call) None # ex_past, p)])"
    using ex_received_reachable ex_sent_later by blast
  from spawn_after [OF this progs(1), of ex_later] obtain t1 where
    "sys_reach (\<lambda>e. True) ?P ([], [])
      ([ex_out_row, ex_row 99850 150 TRANSFER_STATUS_TRANSFER_IN_START (100 * hour + 16 * minute)],
       [(TransactE 56 101 (Inr ex_call) None # ex_past, p), t1])"
    unfolding ex_recovered by auto
  from spawn_after [OF this progs(2), of ex_later] obtain t2 where
    "sys_reach (\<lambda>e. True) ?P ([], [])
      ([ex_out_row, ex_row 99800 200 TRANSFER_STATUS_TRANSFER_IN_PENDING (100 * hour + 16 * minute)],
       [(TransactE 56 101 (Inr ex_call) None # ex_past, p), t1, t2])"
    unfolding ex_sent_again by auto
  from spawn_after [OF this progs(3), of ex_later] show ?thesis
    unfolding ex_recorded by auto
qed

end
