(* ===== verification/Relay_Lifecycle.thy ===== *)
theory Relay_Lifecycle
  imports Relay_Rounds Relay_Inserts
begin

text \<open>
  The life of one transfer, from the deposit on the source chain to the node collecting it: the
  callbacks and rounds that move it, one after the other, with whatever other rows the table has.
\<close>

section \<open>One row through a round and an update\<close>

lemma in_round_row:
  assumes "\<And>r. TransferId (fst (spec r)) = TransferId r" "find_row tid T = Some r"
  shows "find_row tid (fst (in_round q spec T)) = Some (if query_sel q r then fst (spec r) else r)"
proof -
  have "find_row tid (map (\<lambda>r. if query_sel q r then fst (spec r) else r) T) =
      map_option (\<lambda>r. if query_sel q r then fst (spec r) else r) (find_row tid T)"
    unfolding find_row_def by (rule find_map_same) (simp add: assms(1))
  then show ?thesis by (simp add: in_round_def assms(2))
qed

lemma in_round_calls:
  assumes "find_row tid T = Some r" "query_sel q r" "e \<in> set (snd (spec r))"
  shows "e \<in> set (snd (in_round q spec T))"
  using assms find_row_Some [OF assms(1)] by (auto simp: in_round_def)

lemma in_round_distinct:
  assumes "\<And>r. TransferId (fst (spec r)) = TransferId r" "keys_distinct T"
  shows "keys_distinct (fst (in_round q spec T))"
proof -
  have "map TransferId (fst (in_round q spec T)) = map TransferId T"
    by (simp add: in_round_def assms(1))
  with assms(2) show ?thesis by (simp add: keys_distinct_def)
qed

lemma find_updated:
  assumes "\<not> is_insert s" "find_row tid T = Some r"
  shows "find_row tid (apply_stmt s T) = Some (if stmt_sel s r then stmt_upd s r else r)"
  using row_update.find_opr [OF stmt_row_update [OF assms(1)]] assms(2) by simp

lemma after_distinct: "keys_distinct T \<Longrightarrow> keys_distinct (after w p T)"
proof (induction p arbitrary: T)
  case (Exec s k)
  then show ?case by (simp add: apply_stmt_distinct)
qed simp_all

section \<open>A deposit is taken over and sent\<close>

lemma after_accepted:
  assumes "accepted s bc eLog (O_Now w) ev dstToken amount"
  shows "after w (monitorLogTransferOut env s bc eLog) T =
    insert_row (inserted_row (in_transfer env bc ev dstToken amount (O_Now w)) (O_Now w))
      (insert_row (inserted_row (out_transfer env bc eLog ev dstToken (O_Now w)) (O_Now w)) T)"
  using assms
  by (auto simp: accepted_def monitorLogTransferOut_def db_defs lookup2_def split: option.splits)

abbreviation in_tid :: "node_env \<Rightarrow> LogNewTransferOut \<Rightarrow> hash" where
  "in_tid env ev \<equiv> getTransferId env (LO_Receiver ev) (LO_DstAddress ev) (LO_Hashlock ev) (LO_DstChainId ev)"

lemma taken_over:
  assumes "accepted s bc eLog (O_Now w) ev dstToken amount"
    and "find_row (LO_TransferId ev) T = None" "find_row (in_tid env ev) T = None"
    and "in_tid env ev \<noteq> LO_TransferId ev"
  shows "find_row (in_tid env ev) (after w (monitorLogTransferOut env s bc eLog) T) =
      Some (inserted_row (in_transfer env bc ev dstToken amount (O_Now w)) (O_Now w))"
    and "find_row (LO_TransferId ev) (after w (monitorLogTransferOut env s bc eLog) T) =
      Some (inserted_row (out_transfer env bc eLog ev dstToken (O_Now w)) (O_Now w))"
  unfolding after_accepted [OF assms(1)]
  using assms(2-4) by (auto simp: find_insert_row in_transfer_def out_transfer_def)

text \<open>The send round on a started row that the chain does not know, with the fee covered.\<close>

definition claimed :: "outside \<Rightarrow> int \<Rightarrow> StoredTransfer \<Rightarrow> StoredTransfer" where
  "claimed w fee r = r\<lparr>Amount := gross r - fee, Fee := fee,
     Status := TRANSFER_STATUS_TRANSFER_IN_PENDING, UpdateTs := O_Now w\<rparr>"

lemma started_row_sent:
  assumes "typed_outside w" "keys_distinct T" "find_row tid T = Some r"
    and "query_sel (StartTransferInQ (O_Now w + hour)) r" "SV_chainMap s (ChainId r) = Some dst"
    and "seen_status w env dst tid = Some remoteTransferStatusUndefined"
    and "fee_of (O_Fee w \<lparr>FQ_TransferOutId = HashString (NE_lib env) (RelatedTid r)\<rparr>) = Inr fee"
    and "fee \<le> gross r"
  shows "submit w dst (send_call (scan r) fee) \<in> set (snd (effect w (snd (ProcessSendTransfer env s)) T))"
    and "find_row tid (fst (effect w (snd (ProcessSendTransfer env s)) T)) = Some (claimed w fee r)"
proof -
  have tid: "TransferId r = tid" using find_row_Some [OF assms(3)] by simp
  have spec: "fst (send_spec w env s r) = claimed w fee r"
    "submit w dst (send_call (scan r) fee) \<in> set (snd (send_spec w env s r))"
    using assms(5-8) tid by (simp_all add: send_spec_def claimed_def remote_status_defs Let_def)
  have e: "effect w (snd (ProcessSendTransfer env s)) T =
      in_round (StartTransferInQ (O_Now w + hour)) (send_spec w env s) T"
    unfolding ProcessSendTransfer_def snd_conv by (rule send_round [OF assms(1,2)])
  show "submit w dst (send_call (scan r) fee) \<in> set (snd (effect w (snd (ProcessSendTransfer env s)) T))"
    unfolding e by (rule in_round_calls [where spec = "send_spec w env s", OF assms(3,4) spec(2)])
  show "find_row tid (fst (effect w (snd (ProcessSendTransfer env s)) T)) = Some (claimed w fee r)"
    unfolding e in_round_row [where spec = "send_spec w env s", OF spec_keys(1) assms(3)]
    using assms(4) spec(1) by simp
qed

section \<open>A preimage is used\<close>

definition confirming :: "outside \<Rightarrow> StoredTransfer \<Rightarrow> StoredTransfer" where
  "confirming w r = set_status TRANSFER_STATUS_CONFIRM_PENDING (O_Now w) r"

lemma locked_row_confirmed:
  assumes "typed_outside w" "keys_distinct T" "find_row tid T = Some r"
    and "query_sel ConfirmableLockedQ r" "SV_chainMap s (ChainId r) = Some bc"
    and "seen_status w env bc tid = Some remoteTransferStatusPending"
  shows "submit w bc (CBridge_Confirm tid (Preimage r))
      \<in> set (snd (effect w (snd (ProcessConfirmTransfer env s)) T))"
    and "find_row tid (fst (effect w (snd (ProcessConfirmTransfer env s)) T)) = Some (confirming w r)"
proof -
  have tid: "TransferId r = tid" using find_row_Some [OF assms(3)] by simp
  have spec: "confirm_spec w env s r = (confirming w r, [submit w bc (CBridge_Confirm tid (Preimage r))])"
    using assms(5,6) tid by (simp add: confirm_spec_def confirming_def)
  have e: "effect w (snd (ProcessConfirmTransfer env s)) T =
      in_round ConfirmableLockedQ (confirm_spec w env s) T"
    unfolding ProcessConfirmTransfer_def snd_conv by (rule confirm_round [OF assms(1,2)])
  show "submit w bc (CBridge_Confirm tid (Preimage r))
      \<in> set (snd (effect w (snd (ProcessConfirmTransfer env s)) T))"
    unfolding e by (rule in_round_calls [where spec = "confirm_spec w env s", OF assms(3,4)]) (simp add: spec)
  show "find_row tid (fst (effect w (snd (ProcessConfirmTransfer env s)) T)) = Some (confirming w r)"
    unfolding e in_round_row [where spec = "confirm_spec w env s", OF spec_keys(2) assms(3)]
    using assms(4) by (simp add: spec)
qed

text \<open>The callback of a confirmed transfer: the row itself, and the rows related to it.\<close>

lemma after_confirm_event:
  assumes "ParseEvent to_LogTransferConfirmed evLogTransferConfirmed eLog = Inr ev"
  shows "after w (monitorLogConfirm eLog) T =
    apply_stmt (SetRelatedTxPreimageS (LC_Preimage ev) (LC_TransferId ev))
      (apply_stmt (ConfirmTransferS (LC_TransferId ev) (LC_Preimage ev) (LG_TxHash eLog)) T)"
  using assms by (simp add: monitorLogConfirm_def)

lemma confirm_event_row:
  assumes "ParseEvent to_LogTransferConfirmed evLogTransferConfirmed eLog = Inr ev"
    and "find_row tid T = Some r"
  shows "tid = LC_TransferId ev \<Longrightarrow> \<exists>r'. find_row tid (after w (monitorLogConfirm eLog) T) = Some r' \<and>
      Status r' = TRANSFER_STATUS_CONFIRMED \<and> Preimage r' = LC_Preimage ev \<and>
      Amount r' = Amount r \<and> Fee r' = Fee r \<and> RelatedTid r' = RelatedTid r"
    and "tid \<noteq> LC_TransferId ev \<Longrightarrow> RelatedTid r = LC_TransferId ev \<Longrightarrow>
      find_row tid (after w (monitorLogConfirm eLog) T) =
        Some (r\<lparr>Preimage := LC_Preimage ev, PreimageSet := True\<rparr>)"
    and "tid \<noteq> LC_TransferId ev \<Longrightarrow> RelatedTid r \<noteq> LC_TransferId ev \<Longrightarrow>
      find_row tid (after w (monitorLogConfirm eLog) T) = Some r"
proof -
  have tid: "TransferId r = tid" using find_row_Some [OF assms(2)] by simp
  let ?r = "if TransferId r = LC_TransferId ev then stmt_upd (ConfirmTransferS (LC_TransferId ev)
    (LC_Preimage ev) (LG_TxHash eLog)) r else r"
  have "find_row tid (apply_stmt (ConfirmTransferS (LC_TransferId ev) (LC_Preimage ev) (LG_TxHash eLog)) T)
      = Some ?r"
    using find_updated [OF _ assms(2), of "ConfirmTransferS (LC_TransferId ev) (LC_Preimage ev) (LG_TxHash eLog)"]
    by simp
  from find_updated [OF _ this, of "SetRelatedTxPreimageS (LC_Preimage ev) (LC_TransferId ev)"]
  have "find_row tid (after w (monitorLogConfirm eLog) T) = Some (if RelatedTid ?r = LC_TransferId ev
      then ?r\<lparr>Preimage := LC_Preimage ev, PreimageSet := True\<rparr> else ?r)"
    unfolding after_confirm_event [OF assms(1)] by simp
  with tid show "tid = LC_TransferId ev \<Longrightarrow> \<exists>r'. find_row tid (after w (monitorLogConfirm eLog) T) = Some r' \<and>
      Status r' = TRANSFER_STATUS_CONFIRMED \<and> Preimage r' = LC_Preimage ev \<and>
      Amount r' = Amount r \<and> Fee r' = Fee r \<and> RelatedTid r' = RelatedTid r"
    and "tid \<noteq> LC_TransferId ev \<Longrightarrow> RelatedTid r = LC_TransferId ev \<Longrightarrow>
      find_row tid (after w (monitorLogConfirm eLog) T) =
        Some (r\<lparr>Preimage := LC_Preimage ev, PreimageSet := True\<rparr>)"
    and "tid \<noteq> LC_TransferId ev \<Longrightarrow> RelatedTid r \<noteq> LC_TransferId ev \<Longrightarrow>
      find_row tid (after w (monitorLogConfirm eLog) T) = Some r"
    by auto
qed

text \<open>Rows a round does not select stay as they are.\<close>

lemma rounds_skip_row:
  assumes "typed_outside w" "keys_distinct T" "find_row tid T = Some r"
  shows "\<not> query_sel (StartTransferInQ (O_Now w + hour)) r \<Longrightarrow>
      find_row tid (fst (effect w (snd (ProcessSendTransfer env s)) T)) = Some r"
    and "\<not> query_sel ConfirmableLockedQ r \<Longrightarrow>
      find_row tid (fst (effect w (snd (ProcessConfirmTransfer env s)) T)) = Some r"
proof -
  have e: "effect w (snd (ProcessSendTransfer env s)) T =
      in_round (StartTransferInQ (O_Now w + hour)) (send_spec w env s) T"
    "effect w (snd (ProcessConfirmTransfer env s)) T = in_round ConfirmableLockedQ (confirm_spec w env s) T"
    unfolding ProcessSendTransfer_def ProcessConfirmTransfer_def snd_conv
    by (rule send_round [OF assms(1,2)], rule confirm_round [OF assms(1,2)])
  show "\<not> query_sel (StartTransferInQ (O_Now w + hour)) r \<Longrightarrow>
      find_row tid (fst (effect w (snd (ProcessSendTransfer env s)) T)) = Some r"
    unfolding e in_round_row [where spec = "send_spec w env s", OF spec_keys(1) assms(3)] by auto
  show "\<not> query_sel ConfirmableLockedQ r \<Longrightarrow>
      find_row tid (fst (effect w (snd (ProcessConfirmTransfer env s)) T)) = Some r"
    unfolding e in_round_row [where spec = "confirm_spec w env s", OF spec_keys(2) assms(3)] by auto
qed

lemma in_event_row:
  assumes "ParseEvent to_LogNewTransferIn evLogTransferIn eLog = Inr ev" "LI_Sender ev = SV_accountAddr s"
    and "find_row tid T = Some r"
  shows "find_row tid (after w (monitorLogTransferIn s eLog) T) =
    Some (if stmt_sel (RecordTransferInS (LI_TransferId ev) (LG_TxHash eLog)) r
          then r\<lparr>Status := TRANSFER_STATUS_LOCKED, TxHash := LG_TxHash eLog\<rparr> else r)"
proof -
  have "after w (monitorLogTransferIn s eLog) T =
      apply_stmt (RecordTransferInS (LI_TransferId ev) (LG_TxHash eLog)) T"
    using assms(1,2) by (simp add: monitorLogTransferIn_def)
  then show ?thesis
    using find_updated [OF _ assms(3), of "RecordTransferInS (LI_TransferId ev) (LG_TxHash eLog)"] by auto
qed

section \<open>One program after the other\<close>

text \<open>What a list of programs, each run to its end in its own surroundings, does and submits.\<close>

primrec course :: "(outside \<times> proc) list \<Rightarrow> table \<Rightarrow> table \<times> ev list" where
  "course [] T = (T, [])"
| "course (wp # ps) T =
     (let r = effect (fst wp) (snd wp) T in emits (snd r) (course ps (fst r)))"

lemma course_table: "fst (course ps T) = foldl (\<lambda>T wp. after (fst wp) (snd wp) T) T ps"
  by (induction ps arbitrary: T) (simp_all add: Let_def effect_after)

lemma course_calls:
  "set (snd (course (wp # ps) T)) =
     set (snd (effect (fst wp) (snd wp) T)) \<union> set (snd (course ps (after (fst wp) (snd wp) T)))"
  by (simp add: Let_def emits_def effect_after)

text \<open>It is a run of the node.\<close>

lemma course_reachable:
  assumes "\<And>wp. wp \<in> set ps \<Longrightarrow> admits A (fst wp) \<and> snd wp \<in> P" "sys_reach A P s0 (T, ths)"
  shows "\<exists>ths'. sys_reach A P s0 (fst (course ps T), ths @ ths')"
  using assms
proof (induction ps arbitrary: T ths)
  case (Cons wp ps)
  obtain w p where wp: "wp = (w, p)" by (cases wp)
  obtain T' h' b where run: "run_alone w p T [] = (T', h', b)" by (metis prod_cases3)
  have "admits A w" "p \<in> P" using Cons.prems(1) [of wp] wp by simp_all
  from spawn_then_alone [OF this(1) Cons.prems(2) this(2) run] obtain th
    where "sys_reach A P s0 (T', ths @ [th])" by blast
  moreover have "T' = fst (effect w p T)" by (simp add: effect_after after_def run)
  ultimately show ?case using Cons.IH [where T = T' and ths = "ths @ [th]"] Cons.prems(1) wp
    by (fastforce simp: Let_def)
qed (metis append_Nil2 course.simps(1) fst_conv)

section \<open>The two courses of a transfer\<close>

text \<open>The deposit is taken over, sent, and seen on the destination chain.\<close>

definition relaying ::
  "node_env \<Rightarrow> server \<Rightarrow> bridgeConfig \<Rightarrow> (nat \<Rightarrow> outside) \<Rightarrow> ethlog \<Rightarrow> ethlog \<Rightarrow> (outside \<times> proc) list" where
  "relaying env s bc w outLog inLog =
     [(w 0, monitorLogTransferOut env s bc outLog), (w 1, snd (ProcessSendTransfer env s)),
      (w 2, monitorLogTransferIn s inLog)]"

text \<open>The surroundings in which it is: the event is accepted, its ids are new, when the round runs
  the destination contract does not know the transfer, the fee is covered and an hour is left, and
  the event of the transaction comes back.\<close>

definition relay_setting ::
  "node_env \<Rightarrow> server \<Rightarrow> bridgeConfig \<Rightarrow> (nat \<Rightarrow> outside) \<Rightarrow> ethlog \<Rightarrow> ethlog \<Rightarrow> table \<Rightarrow>
     LogNewTransferOut \<Rightarrow> addr \<Rightarrow> int \<Rightarrow> int \<Rightarrow> bridgeConfig \<Rightarrow> bool" where
  "relay_setting env s bc w outLog inLog T ev dstToken amount fee dst \<longleftrightarrow>
     accepted s bc outLog (O_Now (w 0)) ev dstToken amount \<and> keys_distinct T \<and>
     find_row (LO_TransferId ev) T = None \<and> find_row (in_tid env ev) T = None \<and>
     in_tid env ev \<noteq> LO_TransferId ev \<and> SV_chainMap s (LO_DstChainId ev) = Some dst \<and>
     typed_outside (w 1) \<and>
     seen_status (w 1) env dst (in_tid env ev) = Some remoteTransferStatusUndefined \<and>
     fee_of (O_Fee (w 1) \<lparr>FQ_TransferOutId = HashString (NE_lib env) (LO_TransferId ev)\<rparr>) = Inr fee \<and>
     fee \<le> amount \<and> O_Now (w 1) + hour < chain2TimeLock ev (O_Now (w 0)) \<and>
     (\<exists>iev. ParseEvent to_LogNewTransferIn evLogTransferIn inLog = Inr iev \<and>
        LI_Sender iev = SV_accountAddr s \<and> LI_TransferId iev = in_tid env ev)"

abbreviation taken_row ::
  "node_env \<Rightarrow> bridgeConfig \<Rightarrow> gotime \<Rightarrow> ethlog \<Rightarrow> LogNewTransferOut \<Rightarrow> addr \<Rightarrow> StoredTransfer" where
  "taken_row env bc now outLog ev dstToken \<equiv> inserted_row (out_transfer env bc outLog ev dstToken now) now"

abbreviation owed_row ::
  "node_env \<Rightarrow> bridgeConfig \<Rightarrow> gotime \<Rightarrow> LogNewTransferOut \<Rightarrow> addr \<Rightarrow> int \<Rightarrow> StoredTransfer" where
  "owed_row env bc now ev dstToken amount \<equiv> inserted_row (in_transfer env bc ev dstToken amount now) now"

abbreviation payout_call :: "bridgeConfig \<Rightarrow> gotime \<Rightarrow> LogNewTransferOut \<Rightarrow> addr \<Rightarrow> int \<Rightarrow> abi_call" where
  "payout_call bc now ev dstToken amount \<equiv>
     CBridge_TransferIn (LO_DstAddress ev) dstToken amount (LO_Hashlock ev)
       (of_int (chain2TimeLock ev now div second)) (chain_uint64 bc) (LO_TransferId ev)"

lemma new_rows [simp]:
  "ChainId (in_transfer env bc ev tk a now) = LO_DstChainId ev"
  "Amount (in_transfer env bc ev tk a now) = a" "Fee (in_transfer env bc ev tk a now) = 0"
  "RelatedTid (in_transfer env bc ev tk a now) = LO_TransferId ev"
  "TransferId (in_transfer env bc ev tk a now) = in_tid env ev"
  "Status (in_transfer env bc ev tk a now) = TRANSFER_STATUS_TRANSFER_IN_START"
  "TransferType (in_transfer env bc ev tk a now) = TRANSFER_TYPE_IN"
  "TimeLock (in_transfer env bc ev tk a now) = chain2TimeLock ev now"
  "ChainId (out_transfer env bc l ev tk now) = chain_uint64 bc"
  "RelatedTid (out_transfer env bc l ev tk now) = in_tid env ev"
  "Status (out_transfer env bc l ev tk now) = TRANSFER_STATUS_LOCKED"
  "TransferType (out_transfer env bc l ev tk now) = TRANSFER_TYPE_OUT"
  "Amount (out_transfer env bc l ev tk now) = LO_Amount ev"
  by (simp_all add: in_transfer_def out_transfer_def)

lemma owed_row_call:
  "gross (owed_row env bc now ev tk a) = a"
  "send_call (scan (owed_row env bc now ev tk a)) fee = payout_call bc now ev tk (a - fee)"
  by (simp_all add: in_transfer_def gross_def send_call_def)

lemma relaying_sent:
  assumes "relay_setting env s bc w outLog inLog T ev dstToken amount fee dst"
  defines "T1 \<equiv> after (w 0) (monitorLogTransferOut env s bc outLog) T"
  defines "r \<equiv> effect (w 1) (snd (ProcessSendTransfer env s)) T1"
  shows "keys_distinct (fst r)"
    and "find_row (LO_TransferId ev) (fst r) = Some (taken_row env bc (O_Now (w 0)) outLog ev dstToken)"
    and "find_row (in_tid env ev) (fst r) =
      Some (claimed (w 1) fee (owed_row env bc (O_Now (w 0)) ev dstToken amount))"
    and "submit (w 1) dst (payout_call bc (O_Now (w 0)) ev dstToken (amount - fee)) \<in> set (snd r)"
proof -
  note a = assms(1) [unfolded relay_setting_def]
  have acc: "accepted s bc outLog (O_Now (w 0)) ev dstToken amount" "keys_distinct T"
    and fresh: "find_row (LO_TransferId ev) T = None" "find_row (in_tid env ev) T = None"
      "in_tid env ev \<noteq> LO_TransferId ev"
    and typed: "typed_outside (w 1)"
    and seen: "seen_status (w 1) env dst (in_tid env ev) = Some remoteTransferStatusUndefined"
    using a by blast+
  have d: "keys_distinct T1" unfolding T1_def by (rule after_distinct [OF acc(2)])
  then show "keys_distinct (fst r)" unfolding r_def effect_after by (rule after_distinct)
  let ?in = "owed_row env bc (O_Now (w 0)) ev dstToken amount"
  note rows = taken_over [OF acc(1) fresh, folded T1_def]
  have sel: "query_sel (StartTransferInQ (O_Now (w 1) + hour)) ?in" using a by simp
  have chain: "SV_chainMap s (ChainId ?in) = Some dst" using a by simp
  have fee: "fee_of (O_Fee (w 1) \<lparr>FQ_TransferOutId = HashString (NE_lib env) (RelatedTid ?in)\<rparr>) = Inr fee"
    "fee \<le> gross ?in" using a by (simp_all add: owed_row_call)
  note sent = started_row_sent [where env = env, OF typed d rows(1) sel chain seen fee, folded r_def]
  show "find_row (in_tid env ev) (fst r) = Some (claimed (w 1) fee ?in)" by (rule sent(2))
  show "submit (w 1) dst (payout_call bc (O_Now (w 0)) ev dstToken (amount - fee)) \<in> set (snd r)"
    using sent(1) by (simp add: owed_row_call)
  show "find_row (LO_TransferId ev) (fst r) = Some (taken_row env bc (O_Now (w 0)) outLog ev dstToken)"
    unfolding r_def by (rule rounds_skip_row(1) [OF typed d rows(2)]) simp
qed

text \<open>The row of the transfer in when it is seen on its chain.\<close>

definition paid_row ::
  "node_env \<Rightarrow> bridgeConfig \<Rightarrow> (nat \<Rightarrow> outside) \<Rightarrow> LogNewTransferOut \<Rightarrow> addr \<Rightarrow> int \<Rightarrow> int \<Rightarrow> ethlog \<Rightarrow> StoredTransfer" where
  "paid_row env bc w ev dstToken amount fee inLog =
     (claimed (w 1) fee (owed_row env bc (O_Now (w 0)) ev dstToken amount))
       \<lparr>Status := TRANSFER_STATUS_LOCKED, TxHash := LG_TxHash inLog\<rparr>"

lemma paid_row_sel [simp]:
  "Status (paid_row env bc w ev tk a fee l) = TRANSFER_STATUS_LOCKED"
  "TransferId (paid_row env bc w ev tk a fee l) = in_tid env ev"
  "RelatedTid (paid_row env bc w ev tk a fee l) = LO_TransferId ev"
  "Amount (paid_row env bc w ev tk a fee l) = a - fee" "Fee (paid_row env bc w ev tk a fee l) = fee"
  "TransferType (paid_row env bc w ev tk a fee l) = TRANSFER_TYPE_IN"
  "ChainId (paid_row env bc w ev tk a fee l) = LO_DstChainId ev"
  "TimeLock (paid_row env bc w ev tk a fee l) = chain2TimeLock ev (O_Now (w 0))"
  by (simp_all add: paid_row_def claimed_def owed_row_call)

lemma relaying_rows:
  assumes "relay_setting env s bc w outLog inLog T ev dstToken amount fee dst"
  defines "r \<equiv> course (relaying env s bc w outLog inLog) T"
  shows "keys_distinct (fst r)"
    and "find_row (LO_TransferId ev) (fst r) = Some (taken_row env bc (O_Now (w 0)) outLog ev dstToken)"
    and "find_row (in_tid env ev) (fst r) = Some (paid_row env bc w ev dstToken amount fee inLog)"
    and "submit (w 1) dst (payout_call bc (O_Now (w 0)) ev dstToken (amount - fee)) \<in> set (snd r)"
proof -
  note sent = relaying_sent [OF assms(1)]
  define T1 where "T1 = after (w 0) (monitorLogTransferOut env s bc outLog) T"
  define T2 where "T2 = fst (effect (w 1) (snd (ProcessSendTransfer env s)) T1)"
  obtain iev where i: "ParseEvent to_LogNewTransferIn evLogTransferIn inLog = Inr iev"
    "LI_Sender iev = SV_accountAddr s" "LI_TransferId iev = in_tid env ev" "in_tid env ev \<noteq> LO_TransferId ev"
    using assms(1) by (auto simp: relay_setting_def)
  have r: "fst r = after (w 2) (monitorLogTransferIn s inLog) T2"
    unfolding r_def relaying_def course_table T1_def T2_def effect_after by simp
  show "keys_distinct (fst r)"
    unfolding r T2_def T1_def by (rule after_distinct [OF sent(1)])
  show "find_row (in_tid env ev) (fst r) = Some (paid_row env bc w ev dstToken amount fee inLog)"
    unfolding r in_event_row [OF i(1,2) sent(3) [folded T1_def, folded T2_def]]
    using i(3) by (simp add: claimed_def paid_row_def owed_row_call)
  show "find_row (LO_TransferId ev) (fst r) = Some (taken_row env bc (O_Now (w 0)) outLog ev dstToken)"
    unfolding r in_event_row [OF i(1,2) sent(2) [folded T1_def, folded T2_def]]
    using i(3,4) by simp
  show "submit (w 1) dst (payout_call bc (O_Now (w 0)) ev dstToken (amount - fee)) \<in> set (snd r)"
    unfolding r_def relaying_def course_calls fst_conv snd_conv using sent(4) by blast
qed

lemma course_append:
  "course (ps @ qs) T = emits (snd (course ps T)) (course qs (fst (course ps T)))"
  by (induction ps arbitrary: T) (simp_all add: Let_def prod_eq_iff emits_def)

section \<open>The user reveals the preimage\<close>

text \<open>The transfer in is confirmed on its chain, the confirm round runs, and the transfer out is
  confirmed on its own.\<close>

definition collecting ::
  "node_env \<Rightarrow> server \<Rightarrow> (nat \<Rightarrow> outside) \<Rightarrow> ethlog \<Rightarrow> ethlog \<Rightarrow> (outside \<times> proc) list" where
  "collecting env s w inConfirmed outConfirmed =
     [(w 3, monitorLogConfirm inConfirmed), (w 4, snd (ProcessConfirmTransfer env s)),
      (w 5, monitorLogConfirm outConfirmed)]"

lemma collecting_rows:
  assumes T: "keys_distinct T" "find_row out_id T = Some x" "find_row in_id T = Some r" "in_id \<noteq> out_id"
    and x: "Status x = TRANSFER_STATUS_LOCKED" "RelatedTid x = in_id" "SV_chainMap s (ChainId x) = Some src"
    and r: "RelatedTid r = out_id"
    and c1: "ParseEvent to_LogTransferConfirmed evLogTransferConfirmed inConfirmed = Inr cev"
      "LC_TransferId cev = in_id"
    and c2: "ParseEvent to_LogTransferConfirmed evLogTransferConfirmed outConfirmed = Inr fev"
      "LC_TransferId fev = out_id"
    and w: "typed_outside (w 4)" "seen_status (w 4) env src out_id = Some remoteTransferStatusPending"
  defines "res \<equiv> course (collecting env s w inConfirmed outConfirmed) T"
  shows "submit (w 4) src (CBridge_Confirm out_id (LC_Preimage cev)) \<in> set (snd res)"
    and "\<exists>r'. find_row in_id (fst res) = Some r' \<and> Status r' = TRANSFER_STATUS_CONFIRMED \<and>
      Amount r' = Amount r \<and> Fee r' = Fee r"
    and "\<exists>x'. find_row out_id (fst res) = Some x' \<and> Status x' = TRANSFER_STATUS_CONFIRMED \<and>
      Preimage x' = LC_Preimage fev \<and> Amount x' = Amount x"
proof -
  define T1 where "T1 = after (w 3) (monitorLogConfirm inConfirmed) T"
  define T2 where "T2 = fst (effect (w 4) (snd (ProcessConfirmTransfer env s)) T1)"
  have res: "fst res = after (w 5) (monitorLogConfirm outConfirmed) T2"
    unfolding res_def collecting_def course_table T1_def T2_def effect_after by simp
  have d: "keys_distinct T1" unfolding T1_def by (rule after_distinct [OF T(1)])
  let ?x = "x\<lparr>Preimage := LC_Preimage cev, PreimageSet := True\<rparr>"
  have x1: "find_row out_id T1 = Some ?x"
    unfolding T1_def using T(4) x(2) c1(2) by (intro confirm_event_row(2) [OF c1(1) T(2)]) auto
  obtain r1 where r1: "find_row in_id T1 = Some r1" "Status r1 = TRANSFER_STATUS_CONFIRMED"
    "Amount r1 = Amount r" "Fee r1 = Fee r" "RelatedTid r1 = out_id"
    using confirm_event_row(1) [OF c1(1) T(3), of "w 3"] c1(2) r by (auto simp: T1_def)
  have q: "query_sel ConfirmableLockedQ ?x" "\<not> query_sel ConfirmableLockedQ r1"
    using x(1) r1(2) by simp_all
  have chain: "SV_chainMap s (ChainId ?x) = Some src" using x(3) by simp
  note confirmed = locked_row_confirmed [where env = env, OF w(1) d x1 q(1) chain w(2), folded T2_def]
  show "submit (w 4) src (CBridge_Confirm out_id (LC_Preimage cev)) \<in> set (snd res)"
    unfolding res_def collecting_def course_calls fst_conv snd_conv
    using confirmed(1) by (simp add: T1_def)
  show "\<exists>x'. find_row out_id (fst res) = Some x' \<and> Status x' = TRANSFER_STATUS_CONFIRMED \<and>
      Preimage x' = LC_Preimage fev \<and> Amount x' = Amount x"
    unfolding res using confirm_event_row(1) [OF c2(1) confirmed(2), of "w 5"] c2(2)
    by (auto simp: confirming_def)
  have r2: "find_row in_id T2 = Some r1"
    unfolding T2_def by (rule rounds_skip_row(2) [OF w(1) d r1(1) q(2)])
  show "\<exists>r'. find_row in_id (fst res) = Some r' \<and> Status r' = TRANSFER_STATUS_CONFIRMED \<and>
      Amount r' = Amount r \<and> Fee r' = Fee r"
    unfolding res using confirm_event_row(2) [OF c2(1) r2, of "w 5"] T(4) r1 c2(2) by simp
qed

section \<open>The user does not\<close>

text \<open>The lock of the transfer in expires, the refund round runs, and the refund is seen.\<close>

definition refunding ::
  "node_env \<Rightarrow> server \<Rightarrow> (nat \<Rightarrow> outside) \<Rightarrow> ethlog \<Rightarrow> (outside \<times> proc) list" where
  "refunding env s w inRefunded =
     [(w 3, snd (ProcessRefundTransferIn env s)), (w 4, monitorLogRefund inRefunded)]"

definition ins_relate_outs :: "table \<Rightarrow> bool" where
  "ins_relate_outs T \<longleftrightarrow>
     (\<forall>r\<in>set T. \<forall>x\<in>set T. TransferType r = TRANSFER_TYPE_IN \<longrightarrow> TransferId x = RelatedTid r \<longrightarrow>
        TransferType x \<noteq> TRANSFER_TYPE_IN)"

lemma refunding_rows:
  assumes T: "keys_distinct T" "ins_relate_outs T" "find_row out_id T = Some x" "find_row in_id T = Some r"
      "in_id \<noteq> out_id"
    and x: "Status x = TRANSFER_STATUS_LOCKED" "TransferType x = TRANSFER_TYPE_OUT"
      "SV_chainMap s (ChainId x) = Some src"
    and r: "RelatedTid r = out_id" "Status r = TRANSFER_STATUS_LOCKED" "TransferType r = TRANSFER_TYPE_IN"
      "TimeLock r < O_Now (w 3)" "SV_chainMap s (ChainId r) = Some dst"
    and c: "ParseEvent to_LogTransferRefunded evLogTransferRefunded inRefunded = Inr gev"
      "LR_TransferId gev = in_id"
    and w: "typed_outside (w 3)" "seen_status (w 3) env dst in_id = Some remoteTransferStatusPending"
      "seen_status (w 3) env src out_id = Some st" "st \<noteq> remoteTransferStatusConfirmed"
  defines "res \<equiv> course (refunding env s w inRefunded) T"
  shows "submit (w 3) dst (CBridge_Refund in_id) \<in> set (snd res)"
    and "\<exists>r'. find_row in_id (fst res) = Some r' \<and> Status r' = TRANSFER_STATUS_REFUNDED \<and>
      Amount r' = Amount r \<and> Fee r' = Fee r"
    and "find_row out_id (fst res) = Some x"
proof -
  let ?q = "RefundAbleTransferInQ (O_Now (w 3))" and ?spec = "refund_spec (w 3) env s T"
  let ?r1 = "set_status TRANSFER_STATUS_REFUND_PENDING (O_Now (w 3)) r"
  have ids: "TransferId r = in_id" "TransferId x = out_id" using find_row_Some T(3,4) by blast+
  have e: "effect (w 3) (snd (ProcessRefundTransferIn env s)) T = in_round ?q ?spec T"
    unfolding ProcessRefundTransferIn_def snd_conv
    by (rule refund_round [OF w(1) T(1)]) (use T(2) [unfolded ins_relate_outs_def] in blast)
  have spec: "?spec r = (?r1, [submit (w 3) dst (CBridge_Refund in_id)])"
    using T(3) x r w ids by (simp add: refund_spec_def settle_calls_def)
  have sel: "query_sel ?q r" "\<not> query_sel ?q x" using x r by simp_all
  have call: "submit (w 3) dst (CBridge_Refund in_id) \<in> set (snd (?spec r))" unfolding spec by simp
  show "submit (w 3) dst (CBridge_Refund in_id) \<in> set (snd res)"
    unfolding res_def refunding_def course_calls fst_conv snd_conv e
    using in_round_calls [where spec = ?spec, OF T(4) sel(1) call] by blast
  have row: "find_row tid (fst (in_round ?q ?spec T)) = Some (if query_sel ?q y then fst (?spec y) else y)"
    if "find_row tid T = Some y" for tid y
    by (rule in_round_row [where spec = ?spec, OF spec_keys(3) that])
  have rows: "find_row in_id (fst (in_round ?q ?spec T)) = Some ?r1"
    "find_row out_id (fst (in_round ?q ?spec T)) = Some x"
    unfolding row [OF T(4)] row [OF T(3)] using sel spec by auto
  have res: "fst res = apply_stmt (RefundTransferS in_id (LG_TxHash inRefunded)) (fst (in_round ?q ?spec T))"
    unfolding res_def refunding_def course_table foldl.simps fst_conv snd_conv effect_after [symmetric] e
    using c by (simp add: effect_after monitorLogRefund_def)
  show "\<exists>r'. find_row in_id (fst res) = Some r' \<and> Status r' = TRANSFER_STATUS_REFUNDED \<and>
      Amount r' = Amount r \<and> Fee r' = Fee r"
    unfolding res using find_updated [OF _ rows(1), of "RefundTransferS in_id (LG_TxHash inRefunded)"] ids by simp
  show "find_row out_id (fst res) = Some x"
    unfolding res using find_updated [OF _ rows(2), of "RefundTransferS in_id (LG_TxHash inRefunded)"] ids T(5)
    by simp
qed

text \<open>Relaying adds the two rows and changes no fixed column.\<close>

lemma relaying_fixed:
  assumes "relay_setting env s bc w outLog inLog T ev dstToken amount fee dst"
    and "r \<in> set (fst (course (relaying env s bc w outLog inLog) T))"
  shows "\<exists>r0\<in>set T \<union> {taken_row env bc (O_Now (w 0)) outLog ev dstToken,
      owed_row env bc (O_Now (w 0)) ev dstToken amount}. fixed_cols r = fixed_cols r0"
proof -
  note a = assms(1) [unfolded relay_setting_def]
  let ?q = "StartTransferInQ (O_Now (w 1) + hour)"
  define T1 where "T1 = after (w 0) (monitorLogTransferOut env s bc outLog) T"
  define T2 where "T2 = after (w 1) (snd (ProcessSendTransfer env s)) T1"
  obtain iev where i: "ParseEvent to_LogNewTransferIn evLogTransferIn inLog = Inr iev"
    "LI_Sender iev = SV_accountAddr s" using a by blast
  have "keys_distinct T1" using a by (simp add: T1_def after_distinct)
  then have "T2 = fst (in_round ?q (send_spec (w 1) env s) T1)"
    unfolding T2_def effect_after [symmetric] ProcessSendTransfer_def snd_conv
    using a by (simp only: send_round)
  moreover have "fixed_cols (fst (send_spec (w 1) env s r)) = fixed_cols r" for r
    by (auto simp: send_spec_def fixed_cols_def split: option.splits sum.splits)
  ultimately have m: "map fixed_cols T2 = map fixed_cols T1" by (simp add: in_round_def)
  have c: "fst (course (relaying env s bc w outLog inLog) T) =
      apply_stmt (RecordTransferInS (LI_TransferId iev) (LG_TxHash inLog)) T2"
    unfolding relaying_def course_table T1_def T2_def using i by (simp add: monitorLogTransferIn_def)
  have "map fixed_cols (fst (course (relaying env s bc w outLog inLog) T)) = map fixed_cols T1"
    unfolding c record_upd.fixed by (rule m)
  then have "fixed_cols ` set (fst (course (relaying env s bc w outLog inLog) T)) = fixed_cols ` set T1"
    by (metis list.set_map)
  then have "fixed_cols r \<in> fixed_cols ` set T1" using imageI [OF assms(2), of fixed_cols] by simp
  moreover have "set T1 \<subseteq> insert (owed_row env bc (O_Now (w 0)) ev dstToken amount)
      (insert (taken_row env bc (O_Now (w 0)) outLog ev dstToken) (set T))"
    unfolding T1_def after_accepted [OF conjunct1 [OF a]]
    by (rule subset_trans [OF set_insert_row(1)]) (rule insert_mono [OF set_insert_row(1)])
  ultimately obtain r0 where "fixed_cols r = fixed_cols r0"
    "r0 \<in> insert (owed_row env bc (O_Now (w 0)) ev dstToken amount)
      (insert (taken_row env bc (O_Now (w 0)) outLog ev dstToken) (set T))" by (meson imageE subsetD)
  then show ?thesis by (intro bexI [of _ r0]) auto
qed

lemma relaying_relates_outs:
  assumes "relay_setting env s bc w outLog inLog T ev dstToken amount fee dst" "ins_relate_outs T"
    and "\<And>r. r \<in> set T \<Longrightarrow> TransferType r = TRANSFER_TYPE_IN \<Longrightarrow> RelatedTid r \<noteq> in_tid env ev"
  shows "ins_relate_outs (fst (course (relaying env s bc w outLog inLog) T))"
  unfolding ins_relate_outs_def
proof (intro ballI impI)
  let ?dep = "taken_row env bc (O_Now (w 0)) outLog ev dstToken"
  let ?pay = "owed_row env bc (O_Now (w 0)) ev dstToken amount"
  fix r x
  assume rx: "r \<in> set (fst (course (relaying env s bc w outLog inLog) T))"
    "x \<in> set (fst (course (relaying env s bc w outLog inLog) T))"
    "TransferType r = TRANSFER_TYPE_IN" "TransferId x = RelatedTid r"
  obtain r0 where r0: "r0 \<in> set T \<union> {?dep, ?pay}" "fixed_cols r = fixed_cols r0"
    using relaying_fixed [OF assms(1) rx(1)] by blast
  obtain x0 where x0: "x0 \<in> set T \<union> {?dep, ?pay}" "fixed_cols x = fixed_cols x0"
    using relaying_fixed [OF assms(1) rx(2)] by blast
  have ids: "in_tid env ev \<noteq> LO_TransferId ev" "find_row (LO_TransferId ev) T = None"
    using assms(1) by (simp_all add: relay_setting_def)
  have "r0 \<noteq> ?dep" "TransferType r0 = TRANSFER_TYPE_IN" "TransferId x0 = RelatedTid r0"
    using rx(3,4) fixed_colsD [OF r0(2)] fixed_colsD [OF x0(2)] by auto
  then consider "r0 \<in> set T" | "r0 = ?pay" "TransferId x0 = LO_TransferId ev" using r0(1) by auto
  then have "x0 = ?dep \<or> TransferType x0 \<noteq> TRANSFER_TYPE_IN"
  proof cases
    case 1
    then have "x0 \<noteq> ?pay" using assms(3) [of r0] \<open>TransferType r0 = _\<close> \<open>TransferId x0 = _\<close> by auto
    with 1 show ?thesis
      using x0(1) assms(2) \<open>TransferType r0 = _\<close> \<open>TransferId x0 = _\<close> unfolding ins_relate_outs_def by blast
  next
    case 2
    then have "x0 \<notin> set T" "x0 \<noteq> ?pay"
      using ids imageI [of x0 "set T" TransferId] by (auto simp: find_row_None has_tid_def)
    with x0(1) show ?thesis by blast
  qed
  then show "TransferType x \<noteq> TRANSFER_TYPE_IN" using fixed_colsD(4) [OF x0(2)] by auto
qed

end
