(* ===== verification/Example_Course.thy ===== *)
theory Example_Course
  imports Overwritten_Amount Relay_Lifecycle
begin

text \<open>
  The deposit of \<open>Example_Run\<close> through both courses of \<open>Relay_Lifecycle\<close>: it is sent at hour 100, and
  at hour 117 either collected or refunded.
\<close>

definition ex_times :: "nat \<Rightarrow> outside" where
  "ex_times n = (if n < 3 then ex_outside else ex_pending)"

definition ex_paid_log :: ethlog where
  "ex_paid_log = \<lparr>LG_TxHash = 12, LG_BlockNumber = 8990, LG_Unpack = (\<lambda>name. Inr [VBytes32 42, VBytes32 99])\<rparr>"

definition ex_refunded_log :: ethlog where
  "ex_refunded_log = \<lparr>LG_TxHash = 13, LG_BlockNumber = 8990, LG_Unpack = (\<lambda>name. Inr [VBytes32 42])\<rparr>"

lemma ex_accepted: "accepted ex_server (ex_bridge 1) ex_log (100 * hour) ex_event 19 100000"
proof -
  have "dst_amount 1000 6 8 = Some 100000" by (simp add: dst_amount_def pow10_loop_eq)
  moreover have "sint (src_timeout ex_event (100 * hour)) = 86400"
    by (simp add: src_timeout_def ex_event_def)
  moreover have "lookup2 (SV_chainTokenAddrMap ex_server) 56 ''USDT'' = Some 19"
    by (simp add: lookup2_def)
  ultimately show ?thesis by (simp add: accepted_def ex_parse)
qed

lemma ex_relay_setting:
  "relay_setting ex_env ex_server (ex_bridge 1) ex_times ex_log ex_in_log [] ex_event 19 100000 150 (ex_bridge 56)"
proof -
  have "typed_outside ex_outside" "seen_status ex_outside ex_env (ex_bridge 56) tid = Some 0"
    "fee_of (O_Fee ex_outside q) = Inr 150" for tid q
    by (simp_all add: typed_outside_def seen_status_def remote_status_def ex_outside_def ex_env_def
        fee_of_def GetFee_result_def gateway_getters)
  moreover have "chain2TimeLock ex_event (100 * hour) = 116 * hour"
    by (simp add: chain2TimeLock_def src_timeout_def ex_event_def)
  moreover have "LO_TransferId ex_event = 41" by (simp add: ex_event_def)
  ultimately show ?thesis
    using ex_accepted
    by (simp add: relay_setting_def ex_times_def ex_in_tid keys_distinct_def find_row_def ex_in_parse
        ex_in_event_def remote_status_defs)
qed

lemma ex_paid_parse:
  "ParseEvent to_LogTransferConfirmed evLogTransferConfirmed ex_paid_log =
     Inr \<lparr>LC_TransferId = 42, LC_Preimage = 99\<rparr>"
  "LC_TransferId \<lparr>LC_TransferId = 42, LC_Preimage = 99\<rparr> = in_tid ex_env ex_event"
  by (simp_all add: ParseEvent_def ex_paid_log_def to_LogTransferConfirmed_def ex_in_tid)

lemma ex_confirm_parse:
  "ParseEvent to_LogTransferConfirmed evLogTransferConfirmed ex_confirm_log =
     Inr \<lparr>LC_TransferId = 41, LC_Preimage = 99\<rparr>"
  "LC_TransferId \<lparr>LC_TransferId = 41, LC_Preimage = 99\<rparr> = LO_TransferId ex_event"
  by (simp_all add: ParseEvent_def ex_confirm_log_def to_LogTransferConfirmed_def ex_event_def)

lemma ex_refunded_parse:
  "ParseEvent to_LogTransferRefunded evLogTransferRefunded ex_refunded_log = Inr \<lparr>LR_TransferId = 42\<rparr>"
  "LR_TransferId \<lparr>LR_TransferId = 42\<rparr> = in_tid ex_env ex_event"
  by (simp_all add: ParseEvent_def ex_refunded_log_def to_LogTransferRefunded_def ex_in_tid)

lemma ex_times_pending:
  "typed_outside (ex_times 4)" "seen_status (ex_times 4) ex_env bc tid = Some remoteTransferStatusPending"
  by (simp_all add: ex_times_def ex_pending_outside remote_status_defs)

lemma ex_times_unsettled:
  "typed_outside (ex_times 3)" "seen_status (ex_times 3) ex_env bc tid = Some remoteTransferStatusPending"
  "seen_status (ex_times 3) ex_env bc' tid' = Some 1"
  by (simp_all add: ex_times_def ex_pending_outside remote_status_defs)

lemma ex_times_expired: "chain2TimeLock ex_event (O_Now (ex_times 0)) < O_Now (ex_times 3)"
  by (simp add: ex_times_def ex_pending_outside chain2TimeLock_def src_timeout_def ex_event_def)

lemma ex_course_simps:
  "ex_times 0 = ex_outside" "ex_times 1 = ex_outside" "ex_times (Suc 0) = ex_outside"
  "ex_times 3 = ex_pending" "ex_times 4 = ex_pending" "LO_TransferId ex_event = 41"
  "LO_DstAddress ex_event = 6" "LO_Hashlock ex_event = 77" "chain2TimeLock ex_event 360000000000000 = 116 * hour"
  by (simp_all add: ex_times_def ex_event_def chain2TimeLock_def src_timeout_def)

end
