(* ===== verification/Bind_Contract.thy ===== *)
theory Bind_Contract
  imports Contract_Bindings
begin

text \<open>
  The library's contract handle, \<open>*bind.BoundContract\<close> of go-ethereum, as the generated bindings
  use it: an address and an ABI with the connection to read over, to write over and to filter over,
  each of which may be missing, and the library's operations on it as a record of functions.
\<close>

record 'b bind_contract =
  BB_address :: addr
  BB_abi :: string
  BB_caller :: "'b option"
  BB_transactor :: "'b option"
  BB_filterer :: "'b option"

text \<open>\<open>'c\<close> are the options of a call, \<open>'o\<close> those of a transaction. \<open>BL_JSON\<close> is the error, if
  any, of parsing an ABI text; \<open>BL_Transfer\<close> sends plain funds.\<close>

record ('b, 'c, 'o, 'tx) bind_lib =
  BL_JSON :: "string \<Rightarrow> string option"
  BL_Call :: "'b bind_contract \<Rightarrow> 'c \<Rightarrow> abi_call \<Rightarrow> abi_val list result"
  BL_Transact :: "'b bind_contract \<Rightarrow> 'o \<Rightarrow> abi_call \<Rightarrow> 'tx result"
  BL_Transfer :: "'b bind_contract \<Rightarrow> 'o \<Rightarrow> 'tx result"
  BL_Deploy :: "'o \<Rightarrow> string \<Rightarrow> string \<Rightarrow> 'b \<Rightarrow> abi_val list \<Rightarrow> (addr \<times> 'tx \<times> 'b bind_contract) result"

end
