(* ===== verification/Event_Logs.thy ===== *)
theory Event_Logs
  imports Contract_Bindings
begin

text \<open>
  The event half of the generated bindings in \<open>src/contracts\<close>: for each event an iterator over
  past logs, a filter that makes one, a subscription that forwards new logs, and a parser. The
  generator writes the same code for each event, so the code is modelled once, over the conversion
  of a log to the struct of the event, and instantiated for the four bridge and two token events.
  Go's \<open>select\<close> takes any branch that is ready: \<open>iter_Next\<close> returns the list of all results
  a call can have, which is empty while the call blocks.
\<close>

section \<open>Events of the token contract\<close>

record Erc20Approval =
  EA_Owner :: addr
  EA_Spender :: addr
  EA_Value :: int

record Erc20Transfer =
  ET_From :: addr
  ET_To :: addr
  ET_Value :: int

definition to_Erc20Approval :: "abi_val list \<Rightarrow> Erc20Approval option" where
  "to_Erc20Approval vs =
     (case vs of
        [VAddress a, VAddress b, VUint256 v] \<Rightarrow> Some \<lparr>EA_Owner = a, EA_Spender = b, EA_Value = v\<rparr>
      | _ \<Rightarrow> None)"

definition to_Erc20Transfer :: "abi_val list \<Rightarrow> Erc20Transfer option" where
  "to_Erc20Transfer vs =
     (case vs of
        [VAddress a, VAddress b, VUint256 v] \<Rightarrow> Some \<lparr>ET_From = a, ET_To = b, ET_Value = v\<rparr>
      | _ \<Rightarrow> None)"

section \<open>Iterators\<close>

text \<open>An event struct with its \<open>Raw\<close> log, which is empty until it is set. What a failed unpack
  leaves in a new struct is the library's business, and a parameter.\<close>

record 'e log_event =
  EV_fields :: 'e
  EV_Raw :: "ethlog option"

text \<open>\<open>IT_logs\<close> are the logs offered on the channel, \<open>IT_sub\<close> what the subscription's error
  channel has ready: nothing, or an error, or its close with no error.\<close>

record 'e log_iterator =
  IT_Event :: "'e log_event option"
  IT_event :: string
  IT_logs :: "ethlog list"
  IT_sub :: "string option option"
  IT_subscribed :: bool
  IT_done :: bool
  IT_fail :: "string option"

definition iter_take ::
  "(abi_val list \<Rightarrow> 'e option) \<Rightarrow> (ethlog \<Rightarrow> 'e) \<Rightarrow> ethlog \<Rightarrow> 'e log_iterator \<Rightarrow>
     bool \<times> 'e log_iterator" where
  "iter_take conv left log it =
     (let it = it\<lparr>IT_logs := tl (IT_logs it)\<rparr>
      in case ParseEvent conv (IT_event it) log of
           Inl err \<Rightarrow>
             (False, it\<lparr>IT_Event := Some \<lparr>EV_fields = left log, EV_Raw = None\<rparr>, IT_fail := Some err\<rparr>)
         | Inr ev \<Rightarrow> (True, it\<lparr>IT_Event := Some \<lparr>EV_fields = ev, EV_Raw = Some log\<rparr>\<rparr>))"

function iter_Next ::
  "(abi_val list \<Rightarrow> 'e option) \<Rightarrow> (ethlog \<Rightarrow> 'e) \<Rightarrow> 'e log_iterator \<Rightarrow> (bool \<times> 'e log_iterator) list" where
  "iter_Next conv left it =
     (if IT_fail it \<noteq> None then [(False, it)]
      else if IT_done it then
        (case IT_logs it of [] \<Rightarrow> [(False, it)] | log # _ \<Rightarrow> [iter_take conv left log it])
      else
        (case IT_logs it of [] \<Rightarrow> [] | log # _ \<Rightarrow> [iter_take conv left log it]) @
        (case IT_sub it of
           None \<Rightarrow> []
         | Some err \<Rightarrow> iter_Next conv left (it\<lparr>IT_done := True, IT_fail := err\<rparr>)))"
  by pat_completeness auto

termination
  by (relation "measure (\<lambda>(conv, left, it). if IT_done it then 0 else 1)") auto

declare iter_Next.simps [simp del]

lemma iter_Next_modes:
  "IT_fail it \<noteq> None \<Longrightarrow> iter_Next conv left it = [(False, it)]"
  "IT_fail it = None \<Longrightarrow> IT_done it \<Longrightarrow> iter_Next conv left it =
     (case IT_logs it of [] \<Rightarrow> [(False, it)] | log # _ \<Rightarrow> [iter_take conv left log it])"
  "IT_fail it = None \<Longrightarrow> \<not> IT_done it \<Longrightarrow> iter_Next conv left it =
     (case IT_logs it of [] \<Rightarrow> [] | log # _ \<Rightarrow> [iter_take conv left log it]) @
     (case IT_sub it of None \<Rightarrow> []
      | Some err \<Rightarrow> iter_Next conv left (it\<lparr>IT_done := True, IT_fail := err\<rparr>))"
  by (subst iter_Next.simps, simp)+

definition iter_Error :: "'e log_iterator \<Rightarrow> string option" where
  "iter_Error it = IT_fail it"

definition iter_Close :: "'e log_iterator \<Rightarrow> 'e log_iterator \<times> string option" where
  "iter_Close it = (it\<lparr>IT_subscribed := False\<rparr>, None)"

section \<open>Filters, parsers and subscriptions\<close>

text \<open>\<open>logs_of\<close> is the library's \<open>FilterLogs\<close> for an event name and the rules of its indexed
  arguments: the channel and subscription to read from, or an error.\<close>

type_synonym filter_lib = "string \<Rightarrow> addr list list \<Rightarrow> (ethlog list \<times> string option option) result"

definition iter_Filter :: "string \<Rightarrow> addr list list \<Rightarrow> filter_lib \<Rightarrow> 'e log_iterator result" where
  "iter_Filter event rules logs_of =
     (case logs_of event rules of
        Inl err \<Rightarrow> Inl err
      | Inr (logs, sub) \<Rightarrow>
          Inr \<lparr>IT_Event = None, IT_event = event, IT_logs = logs, IT_sub = sub, IT_subscribed = True,
            IT_done = False, IT_fail = None\<rparr>)"

definition event_Parse ::
  "(abi_val list \<Rightarrow> 'e option) \<Rightarrow> string \<Rightarrow> ethlog \<Rightarrow> 'e log_event result" where
  "event_Parse conv event log =
     (case ParseEvent conv event log of
        Inl err \<Rightarrow> Inl err
      | Inr ev \<Rightarrow> Inr \<lparr>EV_fields = ev, EV_Raw = Some log\<rparr>)"

text \<open>Which branch each \<open>select\<close> of a subscription takes: the outer one receives a log, the
  subscription's error or the request to quit; the inner one, for a log that parsed, hands the event
  to the sink, or again ends.\<close>

datatype watch_send = SinkTakes | SendErr "string option" | SendQuit

datatype watch_recv = LogArrives ethlog watch_send | RecvErr "string option" | RecvQuit

text \<open>The events forwarded, and what the subscription function returned, or \<open>None\<close> while it
  waits.\<close>

fun watch_loop ::
  "(abi_val list \<Rightarrow> 'e option) \<Rightarrow> string \<Rightarrow> watch_recv list \<Rightarrow> 'e log_event list \<times> string option option" where
  "watch_loop conv event [] = ([], None)"
| "watch_loop conv event (RecvErr err # ws) = ([], Some err)"
| "watch_loop conv event (RecvQuit # ws) = ([], Some None)"
| "watch_loop conv event (LogArrives log send # ws) =
     (case ParseEvent conv event log of
        Inl err \<Rightarrow> ([], Some (Some err))
      | Inr ev \<Rightarrow>
          (case send of
             SinkTakes \<Rightarrow>
               (let (evs, r) = watch_loop conv event ws
                in (\<lparr>EV_fields = ev, EV_Raw = Some log\<rparr> # evs, r))
           | SendErr err \<Rightarrow> ([], Some err)
           | SendQuit \<Rightarrow> ([], Some None)))"

text \<open>\<open>subscribe\<close> is the error, if any, of the library's \<open>WatchLogs\<close>.\<close>

definition event_Watch ::
  "(abi_val list \<Rightarrow> 'e option) \<Rightarrow> string \<Rightarrow> addr list list \<Rightarrow> (string \<Rightarrow> addr list list \<Rightarrow> string option) \<Rightarrow>
     watch_recv list \<Rightarrow> ('e log_event list \<times> string option option) result" where
  "event_Watch conv event rules subscribe ws =
     (case subscribe event rules of Some err \<Rightarrow> Inl err | None \<Rightarrow> Inr (watch_loop conv event ws))"

section \<open>An iterator and its subscription\<close>

text \<open>The subscription offers logs and ends, with or without an error; the client calls \<open>Next\<close>. The
  state holds the logs offered and the events of the calls that returned true.\<close>

inductive iter_step ::
  "(abi_val list \<Rightarrow> 'e option) \<Rightarrow> (ethlog \<Rightarrow> 'e) \<Rightarrow>
     ethlog list \<times> 'e log_event list \<times> 'e log_iterator \<Rightarrow>
     ethlog list \<times> 'e log_event list \<times> 'e log_iterator \<Rightarrow> bool"
  for conv :: "abi_val list \<Rightarrow> 'e option" and left :: "ethlog \<Rightarrow> 'e" where
  offer: "IT_sub it = None \<Longrightarrow>
    iter_step conv left (em, dl, it) (em @ [log], dl, it\<lparr>IT_logs := IT_logs it @ [log]\<rparr>)"
| finish: "IT_sub it = None \<Longrightarrow> iter_step conv left (em, dl, it) (em, dl, it\<lparr>IT_sub := Some err\<rparr>)"
| call_true: "(True, it') \<in> set (iter_Next conv left it) \<Longrightarrow>
    iter_step conv left (em, dl, it) (em, dl @ [the (IT_Event it')], it')"
| call_false: "(False, it') \<in> set (iter_Next conv left it) \<Longrightarrow> iter_step conv left (em, dl, it) (em, dl, it')"

definition unpacked :: "(abi_val list \<Rightarrow> 'e option) \<Rightarrow> string \<Rightarrow> 'e log_event \<Rightarrow> bool" where
  "unpacked conv event e \<longleftrightarrow>
     (\<exists>log. EV_Raw e = Some log \<and> ParseEvent conv event log = Inr (EV_fields e))"

abbreviation raws :: "'e log_event list \<Rightarrow> ethlog list" where
  "raws dl \<equiv> map (\<lambda>e. the (EV_Raw e)) dl"

text \<open>At most one log is gone without an event: the one whose unpacking failed.\<close>

definition iter_inv ::
  "(abi_val list \<Rightarrow> 'e option) \<Rightarrow> string \<Rightarrow> ethlog list \<times> 'e log_event list \<times> 'e log_iterator \<Rightarrow> bool" where
  "iter_inv conv event s \<longleftrightarrow> (case s of (em, dl, it) \<Rightarrow>
     IT_event it = event \<and> list_all (unpacked conv event) dl \<and>
     (em = raws dl @ IT_logs it \<or> (\<exists>bad. em = raws dl @ bad # IT_logs it \<and> IT_fail it \<noteq> None)))"

text \<open>What a call can do: fail for good, or take the first log, or find the channel empty.\<close>

lemma iter_Next_cases:
  assumes "(b, it') \<in> set (iter_Next conv left it)"
  obtains (failed) "\<not> b" "IT_fail it' \<noteq> None" "IT_logs it' = IT_logs it" "IT_event it' = IT_event it"
  | (empty) "\<not> b" "IT_fail it = None" "IT_logs it = []" "IT_logs it' = []" "IT_event it' = IT_event it"
  | (took) log logs it1 where "IT_fail it = None" "IT_logs it = log # logs" "(b, it') = iter_take conv left log it1"
      "IT_logs it1 = IT_logs it" "IT_event it1 = IT_event it"
proof -
  have done_mode: thesis
    if "IT_done it1" "(b, it') \<in> set (iter_Next conv left it1)" "IT_logs it1 = IT_logs it"
      "IT_event it1 = IT_event it" "IT_fail it = None" for it1
  proof (cases "IT_fail it1 = None")
    case True
    with that show ?thesis
      by (auto simp: iter_Next_modes split: list.splits intro: empty took)
  next
    case False
    with that show ?thesis by (auto simp: iter_Next_modes intro: failed)
  qed
  show thesis
  proof (cases "IT_fail it = None \<and> \<not> IT_done it")
    case True
    with assms consider (log) log logs where "IT_logs it = log # logs" "(b, it') = iter_take conv left log it"
      | (sub) err where "(b, it') \<in> set (iter_Next conv left (it\<lparr>IT_done := True, IT_fail := err\<rparr>))"
      by (cases "IT_logs it"; cases "IT_sub it") (auto simp: iter_Next_modes(3))
    then show ?thesis
    proof cases
      case log
      with True show ?thesis by (intro took) auto
    next
      case sub
      with True show ?thesis using done_mode [OF _ sub] by simp
    qed
  next
    case False
    show ?thesis
    proof (cases "IT_fail it = None")
      case True
      with False show ?thesis using done_mode [OF _ assms] by simp
    next
      case failed_before: False
      with assms show ?thesis by (auto simp: iter_Next_modes intro: failed)
    qed
  qed
qed

lemma iter_take_cases:
  assumes "(b, it') = iter_take conv left log it1"
  shows "IT_logs it' = tl (IT_logs it1)" "IT_event it' = IT_event it1"
    "b \<Longrightarrow> \<exists>e. IT_Event it' = Some e \<and> EV_Raw e = Some log \<and> unpacked conv (IT_event it1) e"
    "\<not> b \<Longrightarrow> IT_fail it' \<noteq> None"
  using assms by (auto simp: iter_take_def unpacked_def Let_def split: sum.splits)

lemma iter_step_inv:
  assumes "iter_step conv left s s'" "iter_inv conv event s"
  shows "iter_inv conv event s'"
  using assms
proof (cases rule: iter_step.cases)
  case (call_true it' it em dl)
  from call_true(3) show ?thesis
  proof (cases rule: iter_Next_cases)
    case (took log logs it1)
    obtain e where "IT_Event it' = Some e" "EV_Raw e = Some log" "unpacked conv (IT_event it1) e"
      using iter_take_cases(3) [OF took(3)] by auto
    with took iter_take_cases(1,2) [OF took(3)] assms(2) call_true(1,2) show ?thesis
      by (auto simp: iter_inv_def)
  qed simp_all
next
  case (call_false it' it em dl)
  from call_false(3) show ?thesis
  proof (cases rule: iter_Next_cases)
    case (took log logs it1)
    with iter_take_cases [OF took(3)] assms(2) call_false(1,2) show ?thesis
      by (auto simp: iter_inv_def)
  qed (use assms(2) call_false(1,2) in \<open>auto simp: iter_inv_def\<close>)
qed (auto simp: iter_inv_def)

lemma iter_reach_inv:
  assumes "(iter_step conv left)\<^sup>*\<^sup>* s s'" "iter_inv conv event s"
  shows "iter_inv conv event s'"
  using assms by (induction rule: rtranclp_induct) (auto intro: iter_step_inv)

text \<open>C39: However the subscription and the calls of \<open>Next\<close> interleave, the events an iterator of a
  filter has delivered are the unpacked logs of the subscription in their order, with none left out;
  and when a call returns false and \<open>Error\<close> reports nothing, every log the subscription offered
  has been delivered.\<close>

theorem iterator_delivers_in_order:
  assumes "iter_Filter event rules logs_of = Inr it0"
    and "(iter_step conv left)\<^sup>*\<^sup>* (IT_logs it0, [], it0) (em, dl, it)"
  shows "(\<exists>rest. em = raws dl @ rest) \<and> list_all (unpacked conv event) dl \<and>
    (\<forall>it'. (False, it') \<in> set (iter_Next conv left it) \<and> iter_Error it' = None \<longrightarrow> em = raws dl)"
proof -
  have "iter_inv conv event (IT_logs it0, [], it0)"
    using assms(1) by (auto simp: iter_inv_def iter_Filter_def split: sum.splits prod.splits)
  then have inv: "iter_inv conv event (em, dl, it)" by (rule iter_reach_inv [OF assms(2)])
  have "em = raws dl" if "(False, it') \<in> set (iter_Next conv left it)" "iter_Error it' = None" for it'
    using that(1)
  proof (cases rule: iter_Next_cases)
    case failed
    with that(2) show ?thesis by (simp add: iter_Error_def)
  next
    case empty
    with inv show ?thesis by (simp add: iter_inv_def)
  next
    case (took log logs it1)
    with iter_take_cases(4) [OF took(3)] that(2) show ?thesis by (simp add: iter_Error_def)
  qed
  with inv show ?thesis by (auto simp: iter_inv_def)
qed

definition ex_refund_log :: ethlog where
  "ex_refund_log = \<lparr>LG_TxHash = 9, LG_BlockNumber = 100, LG_Unpack = \<lambda>_. Inr [VBytes32 7]\<rparr>"

definition ex_iter :: "ethlog list \<Rightarrow> LogTransferRefunded log_iterator" where
  "ex_iter logs = \<lparr>IT_Event = None, IT_event = ''LogTransferRefunded'', IT_logs = logs, IT_sub = Some None,
     IT_subscribed = True, IT_done = False, IT_fail = None\<rparr>"

definition ex_refund_event :: "LogTransferRefunded log_event" where
  "ex_refund_event = \<lparr>EV_fields = \<lparr>LR_TransferId = 7\<rparr>, EV_Raw = Some ex_refund_log\<rparr>"

definition ex_left :: "ethlog \<Rightarrow> LogTransferRefunded" where
  "ex_left log = \<lparr>LR_TransferId = 0\<rparr>"

theorem iterator_delivers_in_order_witness:
  "(\<exists>rest. [ex_refund_log] = raws [ex_refund_event] @ rest) \<and>
   unpacked to_LogTransferRefunded ''LogTransferRefunded'' ex_refund_event"
proof -
  let ?it = "(ex_iter [])\<lparr>IT_Event := Some ex_refund_event\<rparr>"
  have it: "iter_Filter ''LogTransferRefunded'' [] (\<lambda>_ _. Inr ([ex_refund_log], Some None)) = Inr (ex_iter [ex_refund_log])"
    by (simp add: iter_Filter_def ex_iter_def)
  have "(True, ?it) \<in> set (iter_Next to_LogTransferRefunded ex_left (ex_iter [ex_refund_log]))"
    by (simp add: iter_Next_modes iter_take_def ParseEvent_def to_LogTransferRefunded_def ex_iter_def
        ex_refund_log_def ex_refund_event_def)
  from call_true [OF this, where em = "[ex_refund_log]" and dl = "[]"]
  have "iter_step to_LogTransferRefunded ex_left
      (IT_logs (ex_iter [ex_refund_log]), [], ex_iter [ex_refund_log]) ([ex_refund_log], [ex_refund_event], ?it)"
    by (simp add: ex_iter_def)
  then have "(iter_step to_LogTransferRefunded ex_left)\<^sup>*\<^sup>*
      (IT_logs (ex_iter [ex_refund_log]), [], ex_iter [ex_refund_log]) ([ex_refund_log], [ex_refund_event], ?it)"
    by (rule r_into_rtranclp)
  from iterator_delivers_in_order [OF it this] show ?thesis by simp
qed

section \<open>Subscriptions\<close>

text \<open>A log that is forwarded: it parses and the sink takes it.\<close>

fun forwards :: "(abi_val list \<Rightarrow> 'e option) \<Rightarrow> string \<Rightarrow> watch_recv \<Rightarrow> 'e log_event option" where
  "forwards conv event (LogArrives log SinkTakes) =
     (case ParseEvent conv event log of
        Inl err \<Rightarrow> None | Inr ev \<Rightarrow> Some \<lparr>EV_fields = ev, EV_Raw = Some log\<rparr>)"
| "forwards conv event w = None"

lemma forwards_bad: "ParseEvent conv event log = Inl e \<Longrightarrow> forwards conv event (LogArrives log send) = None"
  by (cases send) simp_all

text \<open>C40: A subscription forwards exactly the events of the logs before the first one that does not
  unpack or that the sink does not take, before an error and before the request to quit, in order;
  it is still waiting exactly when there was none of these.\<close>

theorem watch_forwards_prefix:
  "fst (watch_loop conv event ws) =
     map (the \<circ> forwards conv event) (takeWhile (\<lambda>w. forwards conv event w \<noteq> None) ws) \<and>
   (snd (watch_loop conv event ws) = None) = list_all (\<lambda>w. forwards conv event w \<noteq> None) ws"
  by (induction conv event ws rule: watch_loop.induct)
    (auto simp: forwards_bad split: sum.splits watch_send.splits prod.splits)

end
