(* ===== verification/CBridge_Binding.thy ===== *)
theory CBridge_Binding
  imports Bind_Contract Event_Logs
begin

text \<open>
  The generated binding \<open>src/contracts/cbridge.go\<close> function by function: constructors, raw access,
  the methods of the caller, the transactor and the sessions, and the four events. The ABI and byte
  code texts of the file are arguments.
\<close>

section \<open>Types\<close>

record 'b CBridgeCaller =
  CBridgeCaller_contract :: "'b bind_contract"

record 'b CBridgeTransactor =
  CBridgeTransactor_contract :: "'b bind_contract"

record 'b CBridgeFilterer =
  CBridgeFilterer_contract :: "'b bind_contract"

record 'b CBridge =
  CBridge_Caller :: "'b CBridgeCaller"
  CBridge_Transactor :: "'b CBridgeTransactor"
  CBridge_Filterer :: "'b CBridgeFilterer"

record ('b, 'c, 'o) CBridgeSession =
  CBridgeSession_Contract :: "'b CBridge"
  CBridgeSession_CallOpts :: "'c"
  CBridgeSession_TransactOpts :: "'o"

record ('b, 'c) CBridgeCallerSession =
  CBridgeCallerSession_Contract :: "'b CBridgeCaller"
  CBridgeCallerSession_CallOpts :: "'c"

record ('b, 'o) CBridgeTransactorSession =
  CBridgeTransactorSession_Contract :: "'b CBridgeTransactor"
  CBridgeTransactorSession_TransactOpts :: "'o"

record 'b CBridgeRaw =
  CBridgeRaw_Contract :: "'b CBridge"

record 'b CBridgeCallerRaw =
  CBridgeCallerRaw_Contract :: "'b CBridgeCaller"

record 'b CBridgeTransactorRaw =
  CBridgeTransactorRaw_Contract :: "'b CBridgeTransactor"

section \<open>Binding\<close>

definition bindCBridge ::
  "('b, 'c, 'o, 'tx) bind_lib \<Rightarrow> string \<Rightarrow> addr \<Rightarrow> 'b option \<Rightarrow> 'b option \<Rightarrow> 'b option \<Rightarrow>
     'b bind_contract result" where
  "bindCBridge lib abi address caller transactor filterer =
     (case BL_JSON lib abi of
        Some err \<Rightarrow> Inl err
      | None \<Rightarrow> Inr \<lparr>BB_address = address, BB_abi = abi, BB_caller = caller, BB_transactor = transactor,
          BB_filterer = filterer\<rparr>)"

definition CBridge_of :: "'b bind_contract \<Rightarrow> 'b CBridge" where
  "CBridge_of contract =
     \<lparr>CBridge_Caller = \<lparr>CBridgeCaller_contract = contract\<rparr>, CBridge_Transactor = \<lparr>CBridgeTransactor_contract = contract\<rparr>,
         CBridge_Filterer = \<lparr>CBridgeFilterer_contract = contract\<rparr>\<rparr>"

definition NewCBridge ::
  "('b, 'c, 'o, 'tx) bind_lib \<Rightarrow> string \<Rightarrow> addr \<Rightarrow> 'b \<Rightarrow> 'b CBridge result" where
  "NewCBridge lib abi address backend =
     (case bindCBridge lib abi address (Some backend) (Some backend) (Some backend) of
        Inl err \<Rightarrow> Inl err
      | Inr contract \<Rightarrow> Inr (CBridge_of contract))"

definition NewCBridgeCaller ::
  "('b, 'c, 'o, 'tx) bind_lib \<Rightarrow> string \<Rightarrow> addr \<Rightarrow> 'b \<Rightarrow> 'b CBridgeCaller result" where
  "NewCBridgeCaller lib abi address backend =
     (case bindCBridge lib abi address (Some backend) None None of
        Inl err \<Rightarrow> Inl err
      | Inr contract \<Rightarrow> Inr \<lparr>CBridgeCaller_contract = contract\<rparr>)"

definition NewCBridgeTransactor ::
  "('b, 'c, 'o, 'tx) bind_lib \<Rightarrow> string \<Rightarrow> addr \<Rightarrow> 'b \<Rightarrow> 'b CBridgeTransactor result" where
  "NewCBridgeTransactor lib abi address backend =
     (case bindCBridge lib abi address None (Some backend) None of
        Inl err \<Rightarrow> Inl err
      | Inr contract \<Rightarrow> Inr \<lparr>CBridgeTransactor_contract = contract\<rparr>)"

definition NewCBridgeFilterer ::
  "('b, 'c, 'o, 'tx) bind_lib \<Rightarrow> string \<Rightarrow> addr \<Rightarrow> 'b \<Rightarrow> 'b CBridgeFilterer result" where
  "NewCBridgeFilterer lib abi address backend =
     (case bindCBridge lib abi address None None (Some backend) of
        Inl err \<Rightarrow> Inl err
      | Inr contract \<Rightarrow> Inr \<lparr>CBridgeFilterer_contract = contract\<rparr>)"

definition DeployCBridge ::
  "('b, 'c, 'o, 'tx) bind_lib \<Rightarrow> string \<Rightarrow> string \<Rightarrow> 'o \<Rightarrow> 'b \<Rightarrow> 
     (addr \<times> 'tx \<times> 'b CBridge) result" where
  "DeployCBridge lib abi bin auth backend  =
     (case BL_JSON lib abi of
        Some err \<Rightarrow> Inl err
      | None \<Rightarrow>
          (case BL_Deploy lib auth abi bin backend [] of
             Inl err \<Rightarrow> Inl err
           | Inr (address, tx, contract) \<Rightarrow> Inr (address, tx, CBridge_of contract)))"

section \<open>Raw access\<close>

definition CBridgeRaw_Call ::
  "('b, 'c, 'o, 'tx) bind_lib \<Rightarrow> 'b CBridgeRaw \<Rightarrow> 'c \<Rightarrow> string \<Rightarrow> abi_val list \<Rightarrow>
     abi_val list result" where
  "CBridgeRaw_Call lib c opts method params =
     BL_Call lib (CBridgeCaller_contract (CBridge_Caller (CBridgeRaw_Contract c))) opts (method, params)"

definition CBridgeRaw_Transfer ::
  "('b, 'c, 'o, 'tx) bind_lib \<Rightarrow> 'b CBridgeRaw \<Rightarrow> 'o \<Rightarrow> 'tx result" where
  "CBridgeRaw_Transfer lib c opts =
     BL_Transfer lib (CBridgeTransactor_contract (CBridge_Transactor (CBridgeRaw_Contract c))) opts"

definition CBridgeRaw_Transact ::
  "('b, 'c, 'o, 'tx) bind_lib \<Rightarrow> 'b CBridgeRaw \<Rightarrow> 'o \<Rightarrow> string \<Rightarrow> abi_val list \<Rightarrow> 'tx result" where
  "CBridgeRaw_Transact lib c opts method params =
     BL_Transact lib (CBridgeTransactor_contract (CBridge_Transactor (CBridgeRaw_Contract c))) opts (method, params)"

definition CBridgeCallerRaw_Call ::
  "('b, 'c, 'o, 'tx) bind_lib \<Rightarrow> 'b CBridgeCallerRaw \<Rightarrow> 'c \<Rightarrow> string \<Rightarrow> abi_val list \<Rightarrow>
     abi_val list result" where
  "CBridgeCallerRaw_Call lib c opts method params =
     BL_Call lib (CBridgeCaller_contract (CBridgeCallerRaw_Contract c)) opts (method, params)"

definition CBridgeTransactorRaw_Transfer ::
  "('b, 'c, 'o, 'tx) bind_lib \<Rightarrow> 'b CBridgeTransactorRaw \<Rightarrow> 'o \<Rightarrow> 'tx result" where
  "CBridgeTransactorRaw_Transfer lib c opts =
     BL_Transfer lib (CBridgeTransactor_contract (CBridgeTransactorRaw_Contract c)) opts"

definition CBridgeTransactorRaw_Transact ::
  "('b, 'c, 'o, 'tx) bind_lib \<Rightarrow> 'b CBridgeTransactorRaw \<Rightarrow> 'o \<Rightarrow> string \<Rightarrow> abi_val list \<Rightarrow> 'tx result" where
  "CBridgeTransactorRaw_Transact lib c opts method params =
     BL_Transact lib (CBridgeTransactor_contract (CBridgeTransactorRaw_Contract c)) opts (method, params)"

section \<open>Reading methods\<close>

definition CBridgeCaller_Transfers ::
  "('b, 'c, 'o, 'tx) bind_lib \<Rightarrow> 'b CBridgeCaller \<Rightarrow> 'c \<Rightarrow> hash \<Rightarrow> 
     TransfersOut result option" where
  "CBridgeCaller_Transfers lib c opts arg0 =
     CBridge_Transfers (BL_Call lib (CBridgeCaller_contract c) opts (CBridge_transfers_call arg0))"

definition CBridgeSession_Transfers ::
  "('b, 'c, 'o, 'tx) bind_lib \<Rightarrow> ('b, 'c, 'o) CBridgeSession \<Rightarrow> hash \<Rightarrow> 
     TransfersOut result option" where
  "CBridgeSession_Transfers lib s arg0 =
     CBridgeCaller_Transfers lib (CBridge_Caller (CBridgeSession_Contract s)) (CBridgeSession_CallOpts s) arg0"

definition CBridgeCallerSession_Transfers ::
  "('b, 'c, 'o, 'tx) bind_lib \<Rightarrow> ('b, 'c) CBridgeCallerSession \<Rightarrow> hash \<Rightarrow> 
     TransfersOut result option" where
  "CBridgeCallerSession_Transfers lib s arg0 =
     CBridgeCaller_Transfers lib (CBridgeCallerSession_Contract s) (CBridgeCallerSession_CallOpts s) arg0"

section \<open>Writing methods\<close>

definition CBridgeTransactor_Confirm ::
  "('b, 'c, 'o, 'tx) bind_lib \<Rightarrow> 'b CBridgeTransactor \<Rightarrow> 'o \<Rightarrow> hash \<Rightarrow> hash \<Rightarrow> 
     'tx result" where
  "CBridgeTransactor_Confirm lib c opts transferId preimage =
     BL_Transact lib (CBridgeTransactor_contract c) opts (CBridge_Confirm transferId preimage)"

definition CBridgeSession_Confirm ::
  "('b, 'c, 'o, 'tx) bind_lib \<Rightarrow> ('b, 'c, 'o) CBridgeSession \<Rightarrow> hash \<Rightarrow> hash \<Rightarrow> 
     'tx result" where
  "CBridgeSession_Confirm lib s transferId preimage =
     CBridgeTransactor_Confirm lib (CBridge_Transactor (CBridgeSession_Contract s))
       (CBridgeSession_TransactOpts s) transferId preimage"

definition CBridgeTransactorSession_Confirm ::
  "('b, 'c, 'o, 'tx) bind_lib \<Rightarrow> ('b, 'o) CBridgeTransactorSession \<Rightarrow> hash \<Rightarrow> hash \<Rightarrow> 
     'tx result" where
  "CBridgeTransactorSession_Confirm lib s transferId preimage =
     CBridgeTransactor_Confirm lib (CBridgeTransactorSession_Contract s)
       (CBridgeTransactorSession_TransactOpts s) transferId preimage"

definition CBridgeTransactor_Refund ::
  "('b, 'c, 'o, 'tx) bind_lib \<Rightarrow> 'b CBridgeTransactor \<Rightarrow> 'o \<Rightarrow> hash \<Rightarrow> 
     'tx result" where
  "CBridgeTransactor_Refund lib c opts transferId =
     BL_Transact lib (CBridgeTransactor_contract c) opts (CBridge_Refund transferId)"

definition CBridgeSession_Refund ::
  "('b, 'c, 'o, 'tx) bind_lib \<Rightarrow> ('b, 'c, 'o) CBridgeSession \<Rightarrow> hash \<Rightarrow> 
     'tx result" where
  "CBridgeSession_Refund lib s transferId =
     CBridgeTransactor_Refund lib (CBridge_Transactor (CBridgeSession_Contract s))
       (CBridgeSession_TransactOpts s) transferId"

definition CBridgeTransactorSession_Refund ::
  "('b, 'c, 'o, 'tx) bind_lib \<Rightarrow> ('b, 'o) CBridgeTransactorSession \<Rightarrow> hash \<Rightarrow> 
     'tx result" where
  "CBridgeTransactorSession_Refund lib s transferId =
     CBridgeTransactor_Refund lib (CBridgeTransactorSession_Contract s)
       (CBridgeTransactorSession_TransactOpts s) transferId"

definition CBridgeTransactor_TransferIn ::
  "('b, 'c, 'o, 'tx) bind_lib \<Rightarrow> 'b CBridgeTransactor \<Rightarrow> 'o \<Rightarrow> addr \<Rightarrow> addr \<Rightarrow> int \<Rightarrow> hash \<Rightarrow> u64 \<Rightarrow> u64 \<Rightarrow> hash \<Rightarrow> 
     'tx result" where
  "CBridgeTransactor_TransferIn lib c opts dstAddress token amount hashlock timelock srcChainId srcTransferId =
     BL_Transact lib (CBridgeTransactor_contract c) opts (CBridge_TransferIn dstAddress token amount hashlock timelock srcChainId srcTransferId)"

definition CBridgeSession_TransferIn ::
  "('b, 'c, 'o, 'tx) bind_lib \<Rightarrow> ('b, 'c, 'o) CBridgeSession \<Rightarrow> addr \<Rightarrow> addr \<Rightarrow> int \<Rightarrow> hash \<Rightarrow> u64 \<Rightarrow> u64 \<Rightarrow> hash \<Rightarrow> 
     'tx result" where
  "CBridgeSession_TransferIn lib s dstAddress token amount hashlock timelock srcChainId srcTransferId =
     CBridgeTransactor_TransferIn lib (CBridge_Transactor (CBridgeSession_Contract s))
       (CBridgeSession_TransactOpts s) dstAddress token amount hashlock timelock srcChainId srcTransferId"

definition CBridgeTransactorSession_TransferIn ::
  "('b, 'c, 'o, 'tx) bind_lib \<Rightarrow> ('b, 'o) CBridgeTransactorSession \<Rightarrow> addr \<Rightarrow> addr \<Rightarrow> int \<Rightarrow> hash \<Rightarrow> u64 \<Rightarrow> u64 \<Rightarrow> hash \<Rightarrow> 
     'tx result" where
  "CBridgeTransactorSession_TransferIn lib s dstAddress token amount hashlock timelock srcChainId srcTransferId =
     CBridgeTransactor_TransferIn lib (CBridgeTransactorSession_Contract s)
       (CBridgeTransactorSession_TransactOpts s) dstAddress token amount hashlock timelock srcChainId srcTransferId"

definition CBridgeTransactor_TransferOut ::
  "('b, 'c, 'o, 'tx) bind_lib \<Rightarrow> 'b CBridgeTransactor \<Rightarrow> 'o \<Rightarrow> addr \<Rightarrow> addr \<Rightarrow> int \<Rightarrow> hash \<Rightarrow> u64 \<Rightarrow> u64 \<Rightarrow> addr \<Rightarrow> 
     'tx result" where
  "CBridgeTransactor_TransferOut lib c opts bridge token amount hashlock timelock dstChainId dstAddress =
     BL_Transact lib (CBridgeTransactor_contract c) opts (CBridge_TransferOut bridge token amount hashlock timelock dstChainId dstAddress)"

definition CBridgeSession_TransferOut ::
  "('b, 'c, 'o, 'tx) bind_lib \<Rightarrow> ('b, 'c, 'o) CBridgeSession \<Rightarrow> addr \<Rightarrow> addr \<Rightarrow> int \<Rightarrow> hash \<Rightarrow> u64 \<Rightarrow> u64 \<Rightarrow> addr \<Rightarrow> 
     'tx result" where
  "CBridgeSession_TransferOut lib s bridge token amount hashlock timelock dstChainId dstAddress =
     CBridgeTransactor_TransferOut lib (CBridge_Transactor (CBridgeSession_Contract s))
       (CBridgeSession_TransactOpts s) bridge token amount hashlock timelock dstChainId dstAddress"

definition CBridgeTransactorSession_TransferOut ::
  "('b, 'c, 'o, 'tx) bind_lib \<Rightarrow> ('b, 'o) CBridgeTransactorSession \<Rightarrow> addr \<Rightarrow> addr \<Rightarrow> int \<Rightarrow> hash \<Rightarrow> u64 \<Rightarrow> u64 \<Rightarrow> addr \<Rightarrow> 
     'tx result" where
  "CBridgeTransactorSession_TransferOut lib s bridge token amount hashlock timelock dstChainId dstAddress =
     CBridgeTransactor_TransferOut lib (CBridgeTransactorSession_Contract s)
       (CBridgeTransactorSession_TransactOpts s) bridge token amount hashlock timelock dstChainId dstAddress"

section \<open>Events\<close>

type_synonym CBridgeLogNewTransferInIterator = "LogNewTransferIn log_iterator"

definition CBridgeLogNewTransferInIterator_Next ::
  "(ethlog \<Rightarrow> LogNewTransferIn) \<Rightarrow> CBridgeLogNewTransferInIterator \<Rightarrow> (bool \<times> CBridgeLogNewTransferInIterator) list" where
  "CBridgeLogNewTransferInIterator_Next =
     iter_Next to_LogNewTransferIn"

definition CBridgeLogNewTransferInIterator_Error ::
  "CBridgeLogNewTransferInIterator \<Rightarrow> string option" where
  "CBridgeLogNewTransferInIterator_Error =
     iter_Error"

definition CBridgeLogNewTransferInIterator_Close ::
  "CBridgeLogNewTransferInIterator \<Rightarrow> CBridgeLogNewTransferInIterator \<times> string option" where
  "CBridgeLogNewTransferInIterator_Close =
     iter_Close"

definition CBridge_FilterLogNewTransferIn ::
  "filter_lib \<Rightarrow> CBridgeLogNewTransferInIterator result" where
  "CBridge_FilterLogNewTransferIn logs_of =
     iter_Filter ''LogNewTransferIn'' [] logs_of"

definition CBridge_WatchLogNewTransferIn ::
  "(string \<Rightarrow> addr list list \<Rightarrow> string option) \<Rightarrow> watch_recv list \<Rightarrow>
     (LogNewTransferIn log_event list \<times> string option option) result" where
  "CBridge_WatchLogNewTransferIn subscribe =
     event_Watch to_LogNewTransferIn ''LogNewTransferIn'' [] subscribe"

definition CBridge_ParseLogNewTransferIn ::
  "ethlog \<Rightarrow> LogNewTransferIn log_event result" where
  "CBridge_ParseLogNewTransferIn =
     event_Parse to_LogNewTransferIn ''LogNewTransferIn''"

type_synonym CBridgeLogNewTransferOutIterator = "LogNewTransferOut log_iterator"

definition CBridgeLogNewTransferOutIterator_Next ::
  "(ethlog \<Rightarrow> LogNewTransferOut) \<Rightarrow> CBridgeLogNewTransferOutIterator \<Rightarrow> (bool \<times> CBridgeLogNewTransferOutIterator) list" where
  "CBridgeLogNewTransferOutIterator_Next =
     iter_Next to_LogNewTransferOut"

definition CBridgeLogNewTransferOutIterator_Error ::
  "CBridgeLogNewTransferOutIterator \<Rightarrow> string option" where
  "CBridgeLogNewTransferOutIterator_Error =
     iter_Error"

definition CBridgeLogNewTransferOutIterator_Close ::
  "CBridgeLogNewTransferOutIterator \<Rightarrow> CBridgeLogNewTransferOutIterator \<times> string option" where
  "CBridgeLogNewTransferOutIterator_Close =
     iter_Close"

definition CBridge_FilterLogNewTransferOut ::
  "filter_lib \<Rightarrow> CBridgeLogNewTransferOutIterator result" where
  "CBridge_FilterLogNewTransferOut logs_of =
     iter_Filter ''LogNewTransferOut'' [] logs_of"

definition CBridge_WatchLogNewTransferOut ::
  "(string \<Rightarrow> addr list list \<Rightarrow> string option) \<Rightarrow> watch_recv list \<Rightarrow>
     (LogNewTransferOut log_event list \<times> string option option) result" where
  "CBridge_WatchLogNewTransferOut subscribe =
     event_Watch to_LogNewTransferOut ''LogNewTransferOut'' [] subscribe"

definition CBridge_ParseLogNewTransferOut ::
  "ethlog \<Rightarrow> LogNewTransferOut log_event result" where
  "CBridge_ParseLogNewTransferOut =
     event_Parse to_LogNewTransferOut ''LogNewTransferOut''"

type_synonym CBridgeLogTransferConfirmedIterator = "LogTransferConfirmed log_iterator"

definition CBridgeLogTransferConfirmedIterator_Next ::
  "(ethlog \<Rightarrow> LogTransferConfirmed) \<Rightarrow> CBridgeLogTransferConfirmedIterator \<Rightarrow> (bool \<times> CBridgeLogTransferConfirmedIterator) list" where
  "CBridgeLogTransferConfirmedIterator_Next =
     iter_Next to_LogTransferConfirmed"

definition CBridgeLogTransferConfirmedIterator_Error ::
  "CBridgeLogTransferConfirmedIterator \<Rightarrow> string option" where
  "CBridgeLogTransferConfirmedIterator_Error =
     iter_Error"

definition CBridgeLogTransferConfirmedIterator_Close ::
  "CBridgeLogTransferConfirmedIterator \<Rightarrow> CBridgeLogTransferConfirmedIterator \<times> string option" where
  "CBridgeLogTransferConfirmedIterator_Close =
     iter_Close"

definition CBridge_FilterLogTransferConfirmed ::
  "filter_lib \<Rightarrow> CBridgeLogTransferConfirmedIterator result" where
  "CBridge_FilterLogTransferConfirmed logs_of =
     iter_Filter ''LogTransferConfirmed'' [] logs_of"

definition CBridge_WatchLogTransferConfirmed ::
  "(string \<Rightarrow> addr list list \<Rightarrow> string option) \<Rightarrow> watch_recv list \<Rightarrow>
     (LogTransferConfirmed log_event list \<times> string option option) result" where
  "CBridge_WatchLogTransferConfirmed subscribe =
     event_Watch to_LogTransferConfirmed ''LogTransferConfirmed'' [] subscribe"

definition CBridge_ParseLogTransferConfirmed ::
  "ethlog \<Rightarrow> LogTransferConfirmed log_event result" where
  "CBridge_ParseLogTransferConfirmed =
     event_Parse to_LogTransferConfirmed ''LogTransferConfirmed''"

type_synonym CBridgeLogTransferRefundedIterator = "LogTransferRefunded log_iterator"

definition CBridgeLogTransferRefundedIterator_Next ::
  "(ethlog \<Rightarrow> LogTransferRefunded) \<Rightarrow> CBridgeLogTransferRefundedIterator \<Rightarrow> (bool \<times> CBridgeLogTransferRefundedIterator) list" where
  "CBridgeLogTransferRefundedIterator_Next =
     iter_Next to_LogTransferRefunded"

definition CBridgeLogTransferRefundedIterator_Error ::
  "CBridgeLogTransferRefundedIterator \<Rightarrow> string option" where
  "CBridgeLogTransferRefundedIterator_Error =
     iter_Error"

definition CBridgeLogTransferRefundedIterator_Close ::
  "CBridgeLogTransferRefundedIterator \<Rightarrow> CBridgeLogTransferRefundedIterator \<times> string option" where
  "CBridgeLogTransferRefundedIterator_Close =
     iter_Close"

definition CBridge_FilterLogTransferRefunded ::
  "filter_lib \<Rightarrow> CBridgeLogTransferRefundedIterator result" where
  "CBridge_FilterLogTransferRefunded logs_of =
     iter_Filter ''LogTransferRefunded'' [] logs_of"

definition CBridge_WatchLogTransferRefunded ::
  "(string \<Rightarrow> addr list list \<Rightarrow> string option) \<Rightarrow> watch_recv list \<Rightarrow>
     (LogTransferRefunded log_event list \<times> string option option) result" where
  "CBridge_WatchLogTransferRefunded subscribe =
     event_Watch to_LogTransferRefunded ''LogTransferRefunded'' [] subscribe"

definition CBridge_ParseLogTransferRefunded ::
  "ethlog \<Rightarrow> LogTransferRefunded log_event result" where
  "CBridge_ParseLogTransferRefunded =
     event_Parse to_LogTransferRefunded ''LogTransferRefunded''"

end
