(* ===== verification/Erc20_Binding.thy ===== *)
theory Erc20_Binding
  imports Bind_Contract Event_Logs
begin

text \<open>
  The generated binding \<open>src/contracts/erc20.go\<close> function by function, like \<open>CBridge_Binding\<close>: the
  six reading and five writing methods and the two events, whose filters pass on the rules for the
  indexed arguments.
\<close>

section \<open>Packed calls\<close>

definition Erc20_DecreaseAllowance :: "addr \<Rightarrow> int \<Rightarrow> abi_call" where
  "Erc20_DecreaseAllowance spender subtractedValue =
     (''decreaseAllowance'', [VAddress spender, VUint256 subtractedValue])"

definition Erc20_IncreaseAllowance :: "addr \<Rightarrow> int \<Rightarrow> abi_call" where
  "Erc20_IncreaseAllowance spender addedValue =
     (''increaseAllowance'', [VAddress spender, VUint256 addedValue])"

definition Erc20_Transfer_call :: "addr \<Rightarrow> int \<Rightarrow> abi_call" where
  "Erc20_Transfer_call recipient amount = (''transfer'', [VAddress recipient, VUint256 amount])"

definition Erc20_TransferFrom :: "addr \<Rightarrow> addr \<Rightarrow> int \<Rightarrow> abi_call" where
  "Erc20_TransferFrom sender recipient amount =
     (''transferFrom'', [VAddress sender, VAddress recipient, VUint256 amount])"

text \<open>The first result as a byte or a text; \<open>None\<close> is the panic of a failed conversion.\<close>

definition uint8_out :: "abi_val list result \<Rightarrow> u8 result option" where
  "uint8_out r =
     (case r of Inl err \<Rightarrow> Some (Inl err) | Inr (VUint8 n # _) \<Rightarrow> Some (Inr n) | Inr _ \<Rightarrow> None)"

definition string_out :: "abi_val list result \<Rightarrow> string result option" where
  "string_out r =
     (case r of Inl err \<Rightarrow> Some (Inl err) | Inr (VString s # _) \<Rightarrow> Some (Inr s) | Inr _ \<Rightarrow> None)"

section \<open>Types\<close>

record 'b Erc20Caller =
  Erc20Caller_contract :: "'b bind_contract"

record 'b Erc20Transactor =
  Erc20Transactor_contract :: "'b bind_contract"

record 'b Erc20Filterer =
  Erc20Filterer_contract :: "'b bind_contract"

record 'b Erc20 =
  Erc20_Caller :: "'b Erc20Caller"
  Erc20_Transactor :: "'b Erc20Transactor"
  Erc20_Filterer :: "'b Erc20Filterer"

record ('b, 'c, 'o) Erc20Session =
  Erc20Session_Contract :: "'b Erc20"
  Erc20Session_CallOpts :: "'c"
  Erc20Session_TransactOpts :: "'o"

record ('b, 'c) Erc20CallerSession =
  Erc20CallerSession_Contract :: "'b Erc20Caller"
  Erc20CallerSession_CallOpts :: "'c"

record ('b, 'o) Erc20TransactorSession =
  Erc20TransactorSession_Contract :: "'b Erc20Transactor"
  Erc20TransactorSession_TransactOpts :: "'o"

record 'b Erc20Raw =
  Erc20Raw_Contract :: "'b Erc20"

record 'b Erc20CallerRaw =
  Erc20CallerRaw_Contract :: "'b Erc20Caller"

record 'b Erc20TransactorRaw =
  Erc20TransactorRaw_Contract :: "'b Erc20Transactor"

section \<open>Binding\<close>

definition bindErc20 ::
  "('b, 'c, 'o, 'tx) bind_lib \<Rightarrow> string \<Rightarrow> addr \<Rightarrow> 'b option \<Rightarrow> 'b option \<Rightarrow> 'b option \<Rightarrow>
     'b bind_contract result" where
  "bindErc20 lib abi address caller transactor filterer =
     (case BL_JSON lib abi of
        Some err \<Rightarrow> Inl err
      | None \<Rightarrow> Inr \<lparr>BB_address = address, BB_abi = abi, BB_caller = caller, BB_transactor = transactor,
          BB_filterer = filterer\<rparr>)"

definition Erc20_of :: "'b bind_contract \<Rightarrow> 'b Erc20" where
  "Erc20_of contract =
     \<lparr>Erc20_Caller = \<lparr>Erc20Caller_contract = contract\<rparr>, Erc20_Transactor = \<lparr>Erc20Transactor_contract = contract\<rparr>,
         Erc20_Filterer = \<lparr>Erc20Filterer_contract = contract\<rparr>\<rparr>"

definition NewErc20 ::
  "('b, 'c, 'o, 'tx) bind_lib \<Rightarrow> string \<Rightarrow> addr \<Rightarrow> 'b \<Rightarrow> 'b Erc20 result" where
  "NewErc20 lib abi address backend =
     (case bindErc20 lib abi address (Some backend) (Some backend) (Some backend) of
        Inl err \<Rightarrow> Inl err
      | Inr contract \<Rightarrow> Inr (Erc20_of contract))"

definition NewErc20Caller ::
  "('b, 'c, 'o, 'tx) bind_lib \<Rightarrow> string \<Rightarrow> addr \<Rightarrow> 'b \<Rightarrow> 'b Erc20Caller result" where
  "NewErc20Caller lib abi address backend =
     (case bindErc20 lib abi address (Some backend) None None of
        Inl err \<Rightarrow> Inl err
      | Inr contract \<Rightarrow> Inr \<lparr>Erc20Caller_contract = contract\<rparr>)"

definition NewErc20Transactor ::
  "('b, 'c, 'o, 'tx) bind_lib \<Rightarrow> string \<Rightarrow> addr \<Rightarrow> 'b \<Rightarrow> 'b Erc20Transactor result" where
  "NewErc20Transactor lib abi address backend =
     (case bindErc20 lib abi address None (Some backend) None of
        Inl err \<Rightarrow> Inl err
      | Inr contract \<Rightarrow> Inr \<lparr>Erc20Transactor_contract = contract\<rparr>)"

definition NewErc20Filterer ::
  "('b, 'c, 'o, 'tx) bind_lib \<Rightarrow> string \<Rightarrow> addr \<Rightarrow> 'b \<Rightarrow> 'b Erc20Filterer result" where
  "NewErc20Filterer lib abi address backend =
     (case bindErc20 lib abi address None None (Some backend) of
        Inl err \<Rightarrow> Inl err
      | Inr contract \<Rightarrow> Inr \<lparr>Erc20Filterer_contract = contract\<rparr>)"

definition DeployErc20 ::
  "('b, 'c, 'o, 'tx) bind_lib \<Rightarrow> string \<Rightarrow> string \<Rightarrow> 'o \<Rightarrow> 'b \<Rightarrow> string \<Rightarrow> string \<Rightarrow> int \<Rightarrow> u8 \<Rightarrow> 
     (addr \<times> 'tx \<times> 'b Erc20) result" where
  "DeployErc20 lib abi bin auth backend tokenName tokenSymbol initAmt dec =
     (case BL_JSON lib abi of
        Some err \<Rightarrow> Inl err
      | None \<Rightarrow>
          (case BL_Deploy lib auth abi bin backend [VString tokenName, VString tokenSymbol, VUint256 initAmt, VUint8 dec] of
             Inl err \<Rightarrow> Inl err
           | Inr (address, tx, contract) \<Rightarrow> Inr (address, tx, Erc20_of contract)))"

section \<open>Raw access\<close>

definition Erc20Raw_Call ::
  "('b, 'c, 'o, 'tx) bind_lib \<Rightarrow> 'b Erc20Raw \<Rightarrow> 'c \<Rightarrow> string \<Rightarrow> abi_val list \<Rightarrow>
     abi_val list result" where
  "Erc20Raw_Call lib c opts method params =
     BL_Call lib (Erc20Caller_contract (Erc20_Caller (Erc20Raw_Contract c))) opts (method, params)"

definition Erc20Raw_Transfer ::
  "('b, 'c, 'o, 'tx) bind_lib \<Rightarrow> 'b Erc20Raw \<Rightarrow> 'o \<Rightarrow> 'tx result" where
  "Erc20Raw_Transfer lib c opts =
     BL_Transfer lib (Erc20Transactor_contract (Erc20_Transactor (Erc20Raw_Contract c))) opts"

definition Erc20Raw_Transact ::
  "('b, 'c, 'o, 'tx) bind_lib \<Rightarrow> 'b Erc20Raw \<Rightarrow> 'o \<Rightarrow> string \<Rightarrow> abi_val list \<Rightarrow> 'tx result" where
  "Erc20Raw_Transact lib c opts method params =
     BL_Transact lib (Erc20Transactor_contract (Erc20_Transactor (Erc20Raw_Contract c))) opts (method, params)"

definition Erc20CallerRaw_Call ::
  "('b, 'c, 'o, 'tx) bind_lib \<Rightarrow> 'b Erc20CallerRaw \<Rightarrow> 'c \<Rightarrow> string \<Rightarrow> abi_val list \<Rightarrow>
     abi_val list result" where
  "Erc20CallerRaw_Call lib c opts method params =
     BL_Call lib (Erc20Caller_contract (Erc20CallerRaw_Contract c)) opts (method, params)"

definition Erc20TransactorRaw_Transfer ::
  "('b, 'c, 'o, 'tx) bind_lib \<Rightarrow> 'b Erc20TransactorRaw \<Rightarrow> 'o \<Rightarrow> 'tx result" where
  "Erc20TransactorRaw_Transfer lib c opts =
     BL_Transfer lib (Erc20Transactor_contract (Erc20TransactorRaw_Contract c)) opts"

definition Erc20TransactorRaw_Transact ::
  "('b, 'c, 'o, 'tx) bind_lib \<Rightarrow> 'b Erc20TransactorRaw \<Rightarrow> 'o \<Rightarrow> string \<Rightarrow> abi_val list \<Rightarrow> 'tx result" where
  "Erc20TransactorRaw_Transact lib c opts method params =
     BL_Transact lib (Erc20Transactor_contract (Erc20TransactorRaw_Contract c)) opts (method, params)"

section \<open>Reading methods\<close>

definition Erc20Caller_Allowance ::
  "('b, 'c, 'o, 'tx) bind_lib \<Rightarrow> 'b Erc20Caller \<Rightarrow> 'c \<Rightarrow> addr \<Rightarrow> addr \<Rightarrow> 
     int result option" where
  "Erc20Caller_Allowance lib c opts owner spender =
     Erc20_out (BL_Call lib (Erc20Caller_contract c) opts (Erc20_Allowance_call owner spender))"

definition Erc20Session_Allowance ::
  "('b, 'c, 'o, 'tx) bind_lib \<Rightarrow> ('b, 'c, 'o) Erc20Session \<Rightarrow> addr \<Rightarrow> addr \<Rightarrow> 
     int result option" where
  "Erc20Session_Allowance lib s owner spender =
     Erc20Caller_Allowance lib (Erc20_Caller (Erc20Session_Contract s)) (Erc20Session_CallOpts s) owner spender"

definition Erc20CallerSession_Allowance ::
  "('b, 'c, 'o, 'tx) bind_lib \<Rightarrow> ('b, 'c) Erc20CallerSession \<Rightarrow> addr \<Rightarrow> addr \<Rightarrow> 
     int result option" where
  "Erc20CallerSession_Allowance lib s owner spender =
     Erc20Caller_Allowance lib (Erc20CallerSession_Contract s) (Erc20CallerSession_CallOpts s) owner spender"

definition Erc20Caller_BalanceOf ::
  "('b, 'c, 'o, 'tx) bind_lib \<Rightarrow> 'b Erc20Caller \<Rightarrow> 'c \<Rightarrow> addr \<Rightarrow> 
     int result option" where
  "Erc20Caller_BalanceOf lib c opts account =
     Erc20_out (BL_Call lib (Erc20Caller_contract c) opts (Erc20_BalanceOf_call account))"

definition Erc20Session_BalanceOf ::
  "('b, 'c, 'o, 'tx) bind_lib \<Rightarrow> ('b, 'c, 'o) Erc20Session \<Rightarrow> addr \<Rightarrow> 
     int result option" where
  "Erc20Session_BalanceOf lib s account =
     Erc20Caller_BalanceOf lib (Erc20_Caller (Erc20Session_Contract s)) (Erc20Session_CallOpts s) account"

definition Erc20CallerSession_BalanceOf ::
  "('b, 'c, 'o, 'tx) bind_lib \<Rightarrow> ('b, 'c) Erc20CallerSession \<Rightarrow> addr \<Rightarrow> 
     int result option" where
  "Erc20CallerSession_BalanceOf lib s account =
     Erc20Caller_BalanceOf lib (Erc20CallerSession_Contract s) (Erc20CallerSession_CallOpts s) account"

definition Erc20Caller_Decimals ::
  "('b, 'c, 'o, 'tx) bind_lib \<Rightarrow> 'b Erc20Caller \<Rightarrow> 'c \<Rightarrow> 
     u8 result option" where
  "Erc20Caller_Decimals lib c opts =
     uint8_out (BL_Call lib (Erc20Caller_contract c) opts (''decimals'', []))"

definition Erc20Session_Decimals ::
  "('b, 'c, 'o, 'tx) bind_lib \<Rightarrow> ('b, 'c, 'o) Erc20Session \<Rightarrow> 
     u8 result option" where
  "Erc20Session_Decimals lib s =
     Erc20Caller_Decimals lib (Erc20_Caller (Erc20Session_Contract s)) (Erc20Session_CallOpts s)"

definition Erc20CallerSession_Decimals ::
  "('b, 'c, 'o, 'tx) bind_lib \<Rightarrow> ('b, 'c) Erc20CallerSession \<Rightarrow> 
     u8 result option" where
  "Erc20CallerSession_Decimals lib s =
     Erc20Caller_Decimals lib (Erc20CallerSession_Contract s) (Erc20CallerSession_CallOpts s)"

definition Erc20Caller_Name ::
  "('b, 'c, 'o, 'tx) bind_lib \<Rightarrow> 'b Erc20Caller \<Rightarrow> 'c \<Rightarrow> 
     string result option" where
  "Erc20Caller_Name lib c opts =
     string_out (BL_Call lib (Erc20Caller_contract c) opts (''name'', []))"

definition Erc20Session_Name ::
  "('b, 'c, 'o, 'tx) bind_lib \<Rightarrow> ('b, 'c, 'o) Erc20Session \<Rightarrow> 
     string result option" where
  "Erc20Session_Name lib s =
     Erc20Caller_Name lib (Erc20_Caller (Erc20Session_Contract s)) (Erc20Session_CallOpts s)"

definition Erc20CallerSession_Name ::
  "('b, 'c, 'o, 'tx) bind_lib \<Rightarrow> ('b, 'c) Erc20CallerSession \<Rightarrow> 
     string result option" where
  "Erc20CallerSession_Name lib s =
     Erc20Caller_Name lib (Erc20CallerSession_Contract s) (Erc20CallerSession_CallOpts s)"

definition Erc20Caller_Symbol ::
  "('b, 'c, 'o, 'tx) bind_lib \<Rightarrow> 'b Erc20Caller \<Rightarrow> 'c \<Rightarrow> 
     string result option" where
  "Erc20Caller_Symbol lib c opts =
     string_out (BL_Call lib (Erc20Caller_contract c) opts (''symbol'', []))"

definition Erc20Session_Symbol ::
  "('b, 'c, 'o, 'tx) bind_lib \<Rightarrow> ('b, 'c, 'o) Erc20Session \<Rightarrow> 
     string result option" where
  "Erc20Session_Symbol lib s =
     Erc20Caller_Symbol lib (Erc20_Caller (Erc20Session_Contract s)) (Erc20Session_CallOpts s)"

definition Erc20CallerSession_Symbol ::
  "('b, 'c, 'o, 'tx) bind_lib \<Rightarrow> ('b, 'c) Erc20CallerSession \<Rightarrow> 
     string result option" where
  "Erc20CallerSession_Symbol lib s =
     Erc20Caller_Symbol lib (Erc20CallerSession_Contract s) (Erc20CallerSession_CallOpts s)"

definition Erc20Caller_TotalSupply ::
  "('b, 'c, 'o, 'tx) bind_lib \<Rightarrow> 'b Erc20Caller \<Rightarrow> 'c \<Rightarrow> 
     int result option" where
  "Erc20Caller_TotalSupply lib c opts =
     Erc20_out (BL_Call lib (Erc20Caller_contract c) opts (''totalSupply'', []))"

definition Erc20Session_TotalSupply ::
  "('b, 'c, 'o, 'tx) bind_lib \<Rightarrow> ('b, 'c, 'o) Erc20Session \<Rightarrow> 
     int result option" where
  "Erc20Session_TotalSupply lib s =
     Erc20Caller_TotalSupply lib (Erc20_Caller (Erc20Session_Contract s)) (Erc20Session_CallOpts s)"

definition Erc20CallerSession_TotalSupply ::
  "('b, 'c, 'o, 'tx) bind_lib \<Rightarrow> ('b, 'c) Erc20CallerSession \<Rightarrow> 
     int result option" where
  "Erc20CallerSession_TotalSupply lib s =
     Erc20Caller_TotalSupply lib (Erc20CallerSession_Contract s) (Erc20CallerSession_CallOpts s)"

section \<open>Writing methods\<close>

definition Erc20Transactor_Approve ::
  "('b, 'c, 'o, 'tx) bind_lib \<Rightarrow> 'b Erc20Transactor \<Rightarrow> 'o \<Rightarrow> addr \<Rightarrow> int \<Rightarrow> 
     'tx result" where
  "Erc20Transactor_Approve lib c opts spender amount =
     BL_Transact lib (Erc20Transactor_contract c) opts (Erc20_Approve spender amount)"

definition Erc20Session_Approve ::
  "('b, 'c, 'o, 'tx) bind_lib \<Rightarrow> ('b, 'c, 'o) Erc20Session \<Rightarrow> addr \<Rightarrow> int \<Rightarrow> 
     'tx result" where
  "Erc20Session_Approve lib s spender amount =
     Erc20Transactor_Approve lib (Erc20_Transactor (Erc20Session_Contract s))
       (Erc20Session_TransactOpts s) spender amount"

definition Erc20TransactorSession_Approve ::
  "('b, 'c, 'o, 'tx) bind_lib \<Rightarrow> ('b, 'o) Erc20TransactorSession \<Rightarrow> addr \<Rightarrow> int \<Rightarrow> 
     'tx result" where
  "Erc20TransactorSession_Approve lib s spender amount =
     Erc20Transactor_Approve lib (Erc20TransactorSession_Contract s)
       (Erc20TransactorSession_TransactOpts s) spender amount"

definition Erc20Transactor_DecreaseAllowance ::
  "('b, 'c, 'o, 'tx) bind_lib \<Rightarrow> 'b Erc20Transactor \<Rightarrow> 'o \<Rightarrow> addr \<Rightarrow> int \<Rightarrow> 
     'tx result" where
  "Erc20Transactor_DecreaseAllowance lib c opts spender subtractedValue =
     BL_Transact lib (Erc20Transactor_contract c) opts (Erc20_DecreaseAllowance spender subtractedValue)"

definition Erc20Session_DecreaseAllowance ::
  "('b, 'c, 'o, 'tx) bind_lib \<Rightarrow> ('b, 'c, 'o) Erc20Session \<Rightarrow> addr \<Rightarrow> int \<Rightarrow> 
     'tx result" where
  "Erc20Session_DecreaseAllowance lib s spender subtractedValue =
     Erc20Transactor_DecreaseAllowance lib (Erc20_Transactor (Erc20Session_Contract s))
       (Erc20Session_TransactOpts s) spender subtractedValue"

definition Erc20TransactorSession_DecreaseAllowance ::
  "('b, 'c, 'o, 'tx) bind_lib \<Rightarrow> ('b, 'o) Erc20TransactorSession \<Rightarrow> addr \<Rightarrow> int \<Rightarrow> 
     'tx result" where
  "Erc20TransactorSession_DecreaseAllowance lib s spender subtractedValue =
     Erc20Transactor_DecreaseAllowance lib (Erc20TransactorSession_Contract s)
       (Erc20TransactorSession_TransactOpts s) spender subtractedValue"

definition Erc20Transactor_IncreaseAllowance ::
  "('b, 'c, 'o, 'tx) bind_lib \<Rightarrow> 'b Erc20Transactor \<Rightarrow> 'o \<Rightarrow> addr \<Rightarrow> int \<Rightarrow> 
     'tx result" where
  "Erc20Transactor_IncreaseAllowance lib c opts spender addedValue =
     BL_Transact lib (Erc20Transactor_contract c) opts (Erc20_IncreaseAllowance spender addedValue)"

definition Erc20Session_IncreaseAllowance ::
  "('b, 'c, 'o, 'tx) bind_lib \<Rightarrow> ('b, 'c, 'o) Erc20Session \<Rightarrow> addr \<Rightarrow> int \<Rightarrow> 
     'tx result" where
  "Erc20Session_IncreaseAllowance lib s spender addedValue =
     Erc20Transactor_IncreaseAllowance lib (Erc20_Transactor (Erc20Session_Contract s))
       (Erc20Session_TransactOpts s) spender addedValue"

definition Erc20TransactorSession_IncreaseAllowance ::
  "('b, 'c, 'o, 'tx) bind_lib \<Rightarrow> ('b, 'o) Erc20TransactorSession \<Rightarrow> addr \<Rightarrow> int \<Rightarrow> 
     'tx result" where
  "Erc20TransactorSession_IncreaseAllowance lib s spender addedValue =
     Erc20Transactor_IncreaseAllowance lib (Erc20TransactorSession_Contract s)
       (Erc20TransactorSession_TransactOpts s) spender addedValue"

definition Erc20Transactor_Transfer ::
  "('b, 'c, 'o, 'tx) bind_lib \<Rightarrow> 'b Erc20Transactor \<Rightarrow> 'o \<Rightarrow> addr \<Rightarrow> int \<Rightarrow> 
     'tx result" where
  "Erc20Transactor_Transfer lib c opts recipient amount =
     BL_Transact lib (Erc20Transactor_contract c) opts (Erc20_Transfer_call recipient amount)"

definition Erc20Session_Transfer ::
  "('b, 'c, 'o, 'tx) bind_lib \<Rightarrow> ('b, 'c, 'o) Erc20Session \<Rightarrow> addr \<Rightarrow> int \<Rightarrow> 
     'tx result" where
  "Erc20Session_Transfer lib s recipient amount =
     Erc20Transactor_Transfer lib (Erc20_Transactor (Erc20Session_Contract s))
       (Erc20Session_TransactOpts s) recipient amount"

definition Erc20TransactorSession_Transfer ::
  "('b, 'c, 'o, 'tx) bind_lib \<Rightarrow> ('b, 'o) Erc20TransactorSession \<Rightarrow> addr \<Rightarrow> int \<Rightarrow> 
     'tx result" where
  "Erc20TransactorSession_Transfer lib s recipient amount =
     Erc20Transactor_Transfer lib (Erc20TransactorSession_Contract s)
       (Erc20TransactorSession_TransactOpts s) recipient amount"

definition Erc20Transactor_TransferFrom ::
  "('b, 'c, 'o, 'tx) bind_lib \<Rightarrow> 'b Erc20Transactor \<Rightarrow> 'o \<Rightarrow> addr \<Rightarrow> addr \<Rightarrow> int \<Rightarrow> 
     'tx result" where
  "Erc20Transactor_TransferFrom lib c opts sender recipient amount =
     BL_Transact lib (Erc20Transactor_contract c) opts (Erc20_TransferFrom sender recipient amount)"

definition Erc20Session_TransferFrom ::
  "('b, 'c, 'o, 'tx) bind_lib \<Rightarrow> ('b, 'c, 'o) Erc20Session \<Rightarrow> addr \<Rightarrow> addr \<Rightarrow> int \<Rightarrow> 
     'tx result" where
  "Erc20Session_TransferFrom lib s sender recipient amount =
     Erc20Transactor_TransferFrom lib (Erc20_Transactor (Erc20Session_Contract s))
       (Erc20Session_TransactOpts s) sender recipient amount"

definition Erc20TransactorSession_TransferFrom ::
  "('b, 'c, 'o, 'tx) bind_lib \<Rightarrow> ('b, 'o) Erc20TransactorSession \<Rightarrow> addr \<Rightarrow> addr \<Rightarrow> int \<Rightarrow> 
     'tx result" where
  "Erc20TransactorSession_TransferFrom lib s sender recipient amount =
     Erc20Transactor_TransferFrom lib (Erc20TransactorSession_Contract s)
       (Erc20TransactorSession_TransactOpts s) sender recipient amount"

section \<open>Events\<close>

type_synonym Erc20ApprovalIterator = "Erc20Approval log_iterator"

definition Erc20ApprovalIterator_Next ::
  "(ethlog \<Rightarrow> Erc20Approval) \<Rightarrow> Erc20ApprovalIterator \<Rightarrow> (bool \<times> Erc20ApprovalIterator) list" where
  "Erc20ApprovalIterator_Next =
     iter_Next to_Erc20Approval"

definition Erc20ApprovalIterator_Error ::
  "Erc20ApprovalIterator \<Rightarrow> string option" where
  "Erc20ApprovalIterator_Error =
     iter_Error"

definition Erc20ApprovalIterator_Close ::
  "Erc20ApprovalIterator \<Rightarrow> Erc20ApprovalIterator \<times> string option" where
  "Erc20ApprovalIterator_Close =
     iter_Close"

definition Erc20_FilterApproval ::
  "filter_lib \<Rightarrow> addr list \<Rightarrow> addr list \<Rightarrow> Erc20ApprovalIterator result" where
  "Erc20_FilterApproval logs_of owner spender =
     iter_Filter ''Approval'' [owner, spender] logs_of"

definition Erc20_WatchApproval ::
  "(string \<Rightarrow> addr list list \<Rightarrow> string option) \<Rightarrow> addr list \<Rightarrow> addr list \<Rightarrow> watch_recv list \<Rightarrow>
     (Erc20Approval log_event list \<times> string option option) result" where
  "Erc20_WatchApproval subscribe owner spender =
     event_Watch to_Erc20Approval ''Approval'' [owner, spender] subscribe"

definition Erc20_ParseApproval ::
  "ethlog \<Rightarrow> Erc20Approval log_event result" where
  "Erc20_ParseApproval =
     event_Parse to_Erc20Approval ''Approval''"

type_synonym Erc20TransferIterator = "Erc20Transfer log_iterator"

definition Erc20TransferIterator_Next ::
  "(ethlog \<Rightarrow> Erc20Transfer) \<Rightarrow> Erc20TransferIterator \<Rightarrow> (bool \<times> Erc20TransferIterator) list" where
  "Erc20TransferIterator_Next =
     iter_Next to_Erc20Transfer"

definition Erc20TransferIterator_Error ::
  "Erc20TransferIterator \<Rightarrow> string option" where
  "Erc20TransferIterator_Error =
     iter_Error"

definition Erc20TransferIterator_Close ::
  "Erc20TransferIterator \<Rightarrow> Erc20TransferIterator \<times> string option" where
  "Erc20TransferIterator_Close =
     iter_Close"

definition Erc20_FilterTransfer ::
  "filter_lib \<Rightarrow> addr list \<Rightarrow> addr list \<Rightarrow> Erc20TransferIterator result" where
  "Erc20_FilterTransfer logs_of sender recipient =
     iter_Filter ''Transfer'' [sender, recipient] logs_of"

definition Erc20_WatchTransfer ::
  "(string \<Rightarrow> addr list list \<Rightarrow> string option) \<Rightarrow> addr list \<Rightarrow> addr list \<Rightarrow> watch_recv list \<Rightarrow>
     (Erc20Transfer log_event list \<times> string option option) result" where
  "Erc20_WatchTransfer subscribe sender recipient =
     event_Watch to_Erc20Transfer ''Transfer'' [sender, recipient] subscribe"

definition Erc20_ParseTransfer ::
  "ethlog \<Rightarrow> Erc20Transfer log_event result" where
  "Erc20_ParseTransfer =
     event_Parse to_Erc20Transfer ''Transfer''"

end
