(* ===== verification/Node_Messages.thy ===== *)
theory Node_Messages
  imports Node_Config
begin

text \<open>
  The rest of the node's protobuf package, \<open>src/cbridgenode/cbridge_node.pb.go\<close>: the error
  enumeration, the messages \<open>Transfer\<close> (here \<open>PbTransfer\<close>, since the data-access layer has a
  \<open>Transfer\<close> of its own) and \<open>CbridgeNodeError\<close>, their getters, and \<open>Enum\<close>, \<open>Number\<close> and
  \<open>Reset\<close> of the whole package. \<open>Reset\<close> overwrites a message with the zero message; the cached
  message information it then stores belongs to the protobuf runtime.
\<close>

section \<open>The error enumeration\<close>

datatype ErrorCode = ErrorCode_INVALID

fun ErrorCode_Number :: "ErrorCode \<Rightarrow> int" where
  "ErrorCode_Number ErrorCode_INVALID = 0"

definition ErrorCode_name :: "int \<rightharpoonup> string" where
  "ErrorCode_name = [0 \<mapsto> ''INVALID'']"

definition ErrorCode_value :: "string \<rightharpoonup> int" where
  "ErrorCode_value = [''INVALID'' \<mapsto> 0]"

definition ErrorCode_String :: "ErrorCode \<Rightarrow> string" where
  "ErrorCode_String x =
     (case ErrorCode_name (ErrorCode_Number x) of Some n \<Rightarrow> n
      | None \<Rightarrow> big_String (ErrorCode_Number x))"

text \<open>\<open>Enum\<close> returns a pointer to a copy, which is never nil.\<close>

definition TransferStatus_Enum :: "TransferStatus \<Rightarrow> TransferStatus option" where
  "TransferStatus_Enum x = Some x"

definition TransferType_Enum :: "TransferType \<Rightarrow> TransferType option" where
  "TransferType_Enum x = Some x"

definition ErrorCode_Enum :: "ErrorCode \<Rightarrow> ErrorCode option" where
  "ErrorCode_Enum x = Some x"

section \<open>Messages\<close>

record PbTransfer =
  PT_TransferId :: "u8 list"
  PT_CreateTs :: u64
  PT_Status :: TransferStatus
  PT_Type :: TransferType
  PT_ContractAddr :: "u8 list"
  PT_Amount :: u64
  PT_Fee :: u64
  PT_ChainId :: u64
  PT_FromAddr :: "u8 list"
  PT_ToAddr :: "u8 list"
  PT_TimeLock :: u64

record CbridgeNodeError =
  NE_Code :: ErrorCode
  NE_Msg :: string

section \<open>Getters\<close>

definition PbTransfer_GetTransferId :: "PbTransfer option \<Rightarrow> u8 list" where
  "PbTransfer_GetTransferId = nil_get [] PT_TransferId"

definition PbTransfer_GetCreateTs :: "PbTransfer option \<Rightarrow> u64" where
  "PbTransfer_GetCreateTs = nil_get 0 PT_CreateTs"

definition PbTransfer_GetStatus :: "PbTransfer option \<Rightarrow> TransferStatus" where
  "PbTransfer_GetStatus = nil_get TRANSFER_STATUS_UNDEFINED PT_Status"

definition PbTransfer_GetType :: "PbTransfer option \<Rightarrow> TransferType" where
  "PbTransfer_GetType = nil_get TRANSFER_TYPE_UNDEFINED PT_Type"

definition PbTransfer_GetContractAddr :: "PbTransfer option \<Rightarrow> u8 list" where
  "PbTransfer_GetContractAddr = nil_get [] PT_ContractAddr"

definition PbTransfer_GetAmount :: "PbTransfer option \<Rightarrow> u64" where
  "PbTransfer_GetAmount = nil_get 0 PT_Amount"

definition PbTransfer_GetFee :: "PbTransfer option \<Rightarrow> u64" where
  "PbTransfer_GetFee = nil_get 0 PT_Fee"

definition PbTransfer_GetChainId :: "PbTransfer option \<Rightarrow> u64" where
  "PbTransfer_GetChainId = nil_get 0 PT_ChainId"

definition PbTransfer_GetFromAddr :: "PbTransfer option \<Rightarrow> u8 list" where
  "PbTransfer_GetFromAddr = nil_get [] PT_FromAddr"

definition PbTransfer_GetToAddr :: "PbTransfer option \<Rightarrow> u8 list" where
  "PbTransfer_GetToAddr = nil_get [] PT_ToAddr"

definition PbTransfer_GetTimeLock :: "PbTransfer option \<Rightarrow> u64" where
  "PbTransfer_GetTimeLock = nil_get 0 PT_TimeLock"

definition CbridgeNodeError_GetCode :: "CbridgeNodeError option \<Rightarrow> ErrorCode" where
  "CbridgeNodeError_GetCode = nil_get ErrorCode_INVALID NE_Code"

definition CbridgeNodeError_GetMsg :: "CbridgeNodeError option \<Rightarrow> string" where
  "CbridgeNodeError_GetMsg = nil_get [] NE_Msg"

lemmas message_getters =
  PbTransfer_GetTransferId_def PbTransfer_GetCreateTs_def PbTransfer_GetStatus_def
  PbTransfer_GetType_def PbTransfer_GetContractAddr_def PbTransfer_GetAmount_def
  PbTransfer_GetFee_def PbTransfer_GetChainId_def PbTransfer_GetFromAddr_def
  PbTransfer_GetToAddr_def PbTransfer_GetTimeLock_def CbridgeNodeError_GetCode_def
  CbridgeNodeError_GetMsg_def

section \<open>Resetting a message\<close>

definition TokenConfig_Reset :: "TokenConfig \<Rightarrow> TokenConfig" where
  "TokenConfig_Reset x =
    \<lparr>TC_TokenName = [], TC_TokenAddress = [], TC_TokenDecimal = 0\<rparr>"

definition WatchConfig_Reset :: "WatchConfig \<Rightarrow> WatchConfig" where
  "WatchConfig_Reset x =
    \<lparr>WC_PollingInterval = 0, WC_BlockDelay = 0, WC_MaxBlockDelta = 0,
     WC_ForwardBlockDelay = 0\<rparr>"

definition TransactorConfig_Reset :: "TransactorConfig \<Rightarrow> TransactorConfig" where
  "TransactorConfig_Reset x =
    \<lparr>XC_GasLimit = 0, XC_AddGasGwei = 0, XC_AddGasEstimateRatio = Finite 0\<rparr>"

definition ChainConfig_Reset :: "ChainConfig \<Rightarrow> ChainConfig" where
  "ChainConfig_Reset x =
    \<lparr>CC_Endpoint = [], CC_ChainId = 0, CC_ContractAddress = [],
     CC_TokenConfig = [], CC_WatchConfig = None, CC_ForceGasGwei = 0,
     CC_FeeRate = 0, CC_GasTokenName = [], CC_GasTokenDecimal = 0,
     CC_TransactorConfig = None\<rparr>"

definition CBridgeConfig_Reset :: "CBridgeConfig \<Rightarrow> CBridgeConfig" where
  "CBridgeConfig_Reset x =
    \<lparr>CB_RelayNodeName = [], CB_ChainConfig = [], CB_Db = [],
     CB_Gateway = []\<rparr>"

definition PbTransfer_Reset :: "PbTransfer \<Rightarrow> PbTransfer" where
  "PbTransfer_Reset x =
    \<lparr>PT_TransferId = [], PT_CreateTs = 0, PT_Status = TRANSFER_STATUS_UNDEFINED,
     PT_Type = TRANSFER_TYPE_UNDEFINED, PT_ContractAddr = [], PT_Amount = 0,
     PT_Fee = 0, PT_ChainId = 0, PT_FromAddr = [],
     PT_ToAddr = [], PT_TimeLock = 0\<rparr>"

definition CbridgeNodeError_Reset :: "CbridgeNodeError \<Rightarrow> CbridgeNodeError" where
  "CbridgeNodeError_Reset x =
    \<lparr>NE_Code = ErrorCode_INVALID, NE_Msg = []\<rparr>"

lemmas node_resets =
  TokenConfig_Reset_def WatchConfig_Reset_def TransactorConfig_Reset_def ChainConfig_Reset_def
  CBridgeConfig_Reset_def PbTransfer_Reset_def CbridgeNodeError_Reset_def

text \<open>A nil message and a reset one read the same through every getter, the protobuf default.\<close>

lemma TokenConfig_reset_reads_nil:
  "TokenConfig_GetTokenName (Some (TokenConfig_Reset x)) = TokenConfig_GetTokenName None"
  "TokenConfig_GetTokenAddress (Some (TokenConfig_Reset x)) = TokenConfig_GetTokenAddress None"
  "TokenConfig_GetTokenDecimal (Some (TokenConfig_Reset x)) = TokenConfig_GetTokenDecimal None"
  by (simp_all add: config_getters node_resets)

lemma WatchConfig_reset_reads_nil:
  "WatchConfig_GetPollingInterval (Some (WatchConfig_Reset x)) = WatchConfig_GetPollingInterval None"
  "WatchConfig_GetBlockDelay (Some (WatchConfig_Reset x)) = WatchConfig_GetBlockDelay None"
  "WatchConfig_GetMaxBlockDelta (Some (WatchConfig_Reset x)) = WatchConfig_GetMaxBlockDelta None"
  "WatchConfig_GetForwardBlockDelay (Some (WatchConfig_Reset x)) = WatchConfig_GetForwardBlockDelay None"
  by (simp_all add: config_getters node_resets)

lemma TransactorConfig_reset_reads_nil:
  "TransactorConfig_GetGasLimit (Some (TransactorConfig_Reset x)) = TransactorConfig_GetGasLimit None"
  "TransactorConfig_GetAddGasGwei (Some (TransactorConfig_Reset x)) = TransactorConfig_GetAddGasGwei None"
  "TransactorConfig_GetAddGasEstimateRatio (Some (TransactorConfig_Reset x)) = TransactorConfig_GetAddGasEstimateRatio None"
  by (simp_all add: config_getters node_resets)

lemma ChainConfig_reset_reads_nil:
  "ChainConfig_GetEndpoint (Some (ChainConfig_Reset x)) = ChainConfig_GetEndpoint None"
  "ChainConfig_GetChainId (Some (ChainConfig_Reset x)) = ChainConfig_GetChainId None"
  "ChainConfig_GetContractAddress (Some (ChainConfig_Reset x)) = ChainConfig_GetContractAddress None"
  "ChainConfig_GetTokenConfig (Some (ChainConfig_Reset x)) = ChainConfig_GetTokenConfig None"
  "ChainConfig_GetWatchConfig (Some (ChainConfig_Reset x)) = ChainConfig_GetWatchConfig None"
  "ChainConfig_GetForceGasGwei (Some (ChainConfig_Reset x)) = ChainConfig_GetForceGasGwei None"
  "ChainConfig_GetFeeRate (Some (ChainConfig_Reset x)) = ChainConfig_GetFeeRate None"
  "ChainConfig_GetGasTokenName (Some (ChainConfig_Reset x)) = ChainConfig_GetGasTokenName None"
  "ChainConfig_GetGasTokenDecimal (Some (ChainConfig_Reset x)) = ChainConfig_GetGasTokenDecimal None"
  "ChainConfig_GetTransactorConfig (Some (ChainConfig_Reset x)) = ChainConfig_GetTransactorConfig None"
  by (simp_all add: config_getters node_resets)

lemma CBridgeConfig_reset_reads_nil:
  "CBridgeConfig_GetRelayNodeName (Some (CBridgeConfig_Reset x)) = CBridgeConfig_GetRelayNodeName None"
  "CBridgeConfig_GetChainConfig (Some (CBridgeConfig_Reset x)) = CBridgeConfig_GetChainConfig None"
  "CBridgeConfig_GetDb (Some (CBridgeConfig_Reset x)) = CBridgeConfig_GetDb None"
  "CBridgeConfig_GetGateway (Some (CBridgeConfig_Reset x)) = CBridgeConfig_GetGateway None"
  by (simp_all add: config_getters node_resets)

lemma PbTransfer_reset_reads_nil:
  "PbTransfer_GetTransferId (Some (PbTransfer_Reset x)) = PbTransfer_GetTransferId None"
  "PbTransfer_GetCreateTs (Some (PbTransfer_Reset x)) = PbTransfer_GetCreateTs None"
  "PbTransfer_GetStatus (Some (PbTransfer_Reset x)) = PbTransfer_GetStatus None"
  "PbTransfer_GetType (Some (PbTransfer_Reset x)) = PbTransfer_GetType None"
  "PbTransfer_GetContractAddr (Some (PbTransfer_Reset x)) = PbTransfer_GetContractAddr None"
  "PbTransfer_GetAmount (Some (PbTransfer_Reset x)) = PbTransfer_GetAmount None"
  "PbTransfer_GetFee (Some (PbTransfer_Reset x)) = PbTransfer_GetFee None"
  "PbTransfer_GetChainId (Some (PbTransfer_Reset x)) = PbTransfer_GetChainId None"
  "PbTransfer_GetFromAddr (Some (PbTransfer_Reset x)) = PbTransfer_GetFromAddr None"
  "PbTransfer_GetToAddr (Some (PbTransfer_Reset x)) = PbTransfer_GetToAddr None"
  "PbTransfer_GetTimeLock (Some (PbTransfer_Reset x)) = PbTransfer_GetTimeLock None"
  by (simp_all add: message_getters node_resets)

lemma CbridgeNodeError_reset_reads_nil:
  "CbridgeNodeError_GetCode (Some (CbridgeNodeError_Reset x)) = CbridgeNodeError_GetCode None"
  "CbridgeNodeError_GetMsg (Some (CbridgeNodeError_Reset x)) = CbridgeNodeError_GetMsg None"
  by (simp_all add: message_getters node_resets)

lemma ErrorCode_tables:
  "ErrorCode_value (ErrorCode_String x) = Some (ErrorCode_Number x)"
  by (cases x) (simp add: ErrorCode_String_def ErrorCode_name_def ErrorCode_value_def)

end
