(* ===== verification/Relay_Service.thy ===== *)
theory Relay_Service
  imports Gateway_RPC
begin

text \<open>
  The rest of \<open>src/gatewayrpc/gateway_rpc.pb.go\<close>: \<open>Reset\<close> of the messages, the names of the error
  codes, and the server side of the \<open>Relay\<close> service, that is the unimplemented server, the two
  handlers and the descriptor that ties them to the method names. The request a handler gets is
  what \<open>dec\<close> makes of a new message, an interceptor is any function with the handler as its
  argument, and a failed type assertion in that handler is the panic of the source. The gRPC
  runtime (framing, contexts, the lookup of a path) is not part of the file.
\<close>

section \<open>Messages\<close>

definition ErrCode_String :: "ErrCode \<Rightarrow> string" where
  "ErrCode_String x =
     (case map_of ErrCode_name (ErrCode_number x) of Some n \<Rightarrow> n
      | None \<Rightarrow> big_String (ErrCode_number x))"

definition ErrCode_Enum :: "ErrCode \<Rightarrow> ErrCode option" where
  "ErrCode_Enum x = Some x"

lemma ErrCode_tables:
  "map_of ErrCode_value (ErrCode_String x) = Some (ErrCode_number x)"
  by (cases x) (simp_all add: ErrCode_String_def ErrCode_name_def ErrCode_value_def)

lemmas message_rest =
  PingRequest_GetEthAddr_def PingRequest_GetChainInfo_def PingRequest_GetNickName_def
  PingRequest_GetSig_def PingRequest_GetNodeVersion_def ChainInfo_GetChainId_def
  ChainInfo_GetTokenAndBalance_def ChainInfo_GetFeePer_10000_def
  GatewayChainInfo_GetGasPrice_def

definition GetFeeRequest_Reset :: "GetFeeRequest \<Rightarrow> GetFeeRequest" where
  "GetFeeRequest_Reset x =
    \<lparr>FQ_TransferOutId = []\<rparr>"

definition GetFeeResponse_Reset :: "GetFeeResponse \<Rightarrow> GetFeeResponse" where
  "GetFeeResponse_Reset x =
    \<lparr>FR_Err = None, FR_Fee = []\<rparr>"

definition ErrMsg_Reset :: "ErrMsg \<Rightarrow> ErrMsg" where
  "ErrMsg_Reset x =
    \<lparr>EM_Code = ErrCode_ERROR_CODE_UNDEFINED, EM_Msg = []\<rparr>"

definition ChainInfo_Reset :: "ChainInfo \<Rightarrow> ChainInfo" where
  "ChainInfo_Reset x =
    \<lparr>CI_ChainId = 0, CI_TokenAndBalance = Map.empty, CI_FeePer_10000 = 0\<rparr>"

definition PingRequest_Reset :: "PingRequest \<Rightarrow> PingRequest" where
  "PingRequest_Reset x =
    \<lparr>PQ_EthAddr = [], PQ_ChainInfo = [], PQ_NickName = [],
     PQ_Sig = [], PQ_NodeVersion = []\<rparr>"

definition GatewayChainInfo_Reset :: "GatewayChainInfo \<Rightarrow> GatewayChainInfo" where
  "GatewayChainInfo_Reset x =
    \<lparr>GI_GasPrice = 0\<rparr>"

definition PingResponse_Reset :: "PingResponse \<Rightarrow> PingResponse" where
  "PingResponse_Reset x =
    \<lparr>PR_Err = None, PR_ChainInfo = Map.empty\<rparr>"

lemmas gateway_resets =
  GetFeeRequest_Reset_def GetFeeResponse_Reset_def ErrMsg_Reset_def ChainInfo_Reset_def
  PingRequest_Reset_def GatewayChainInfo_Reset_def PingResponse_Reset_def

text \<open>A nil message and a reset one read the same through every getter.\<close>

lemma GetFeeRequest_reset_reads_nil:
  "GetFeeRequest_GetTransferOutId (Some (GetFeeRequest_Reset x)) = GetFeeRequest_GetTransferOutId None"
  by (simp_all add: gateway_getters message_rest gateway_resets)

lemma GetFeeResponse_reset_reads_nil:
  "GetFeeResponse_GetErr (Some (GetFeeResponse_Reset x)) = GetFeeResponse_GetErr None"
  "GetFeeResponse_GetFee (Some (GetFeeResponse_Reset x)) = GetFeeResponse_GetFee None"
  by (simp_all add: gateway_getters message_rest gateway_resets)

lemma ErrMsg_reset_reads_nil:
  "ErrMsg_GetCode (Some (ErrMsg_Reset x)) = ErrMsg_GetCode None"
  "ErrMsg_GetMsg (Some (ErrMsg_Reset x)) = ErrMsg_GetMsg None"
  by (simp_all add: gateway_getters message_rest gateway_resets)

lemma ChainInfo_reset_reads_nil:
  "ChainInfo_GetChainId (Some (ChainInfo_Reset x)) = ChainInfo_GetChainId None"
  "ChainInfo_GetTokenAndBalance (Some (ChainInfo_Reset x)) = ChainInfo_GetTokenAndBalance None"
  "ChainInfo_GetFeePer_10000 (Some (ChainInfo_Reset x)) = ChainInfo_GetFeePer_10000 None"
  by (simp_all add: gateway_getters message_rest gateway_resets)

lemma PingRequest_reset_reads_nil:
  "PingRequest_GetEthAddr (Some (PingRequest_Reset x)) = PingRequest_GetEthAddr None"
  "PingRequest_GetChainInfo (Some (PingRequest_Reset x)) = PingRequest_GetChainInfo None"
  "PingRequest_GetNickName (Some (PingRequest_Reset x)) = PingRequest_GetNickName None"
  "PingRequest_GetSig (Some (PingRequest_Reset x)) = PingRequest_GetSig None"
  "PingRequest_GetNodeVersion (Some (PingRequest_Reset x)) = PingRequest_GetNodeVersion None"
  by (simp_all add: gateway_getters message_rest gateway_resets)

lemma GatewayChainInfo_reset_reads_nil:
  "GatewayChainInfo_GetGasPrice (Some (GatewayChainInfo_Reset x)) = GatewayChainInfo_GetGasPrice None"
  by (simp_all add: gateway_getters message_rest gateway_resets)

lemma PingResponse_reset_reads_nil:
  "PingResponse_GetErr (Some (PingResponse_Reset x)) = PingResponse_GetErr None"
  "PingResponse_GetChainInfo (Some (PingResponse_Reset x)) = PingResponse_GetChainInfo None"
  by (simp_all add: gateway_getters message_rest gateway_resets)

section \<open>Servers\<close>

text \<open>How a call fails: with an error value, or by a panic of the handler.\<close>

datatype rpc_failure = RpcError string | RpcPanic

datatype rpc_request = PingReq PingRequest | GetFeeReq GetFeeRequest

datatype rpc_response = PingResp "PingResponse option" | GetFeeResp "GetFeeResponse option"

record RelayServer =
  ServePing :: "PingRequest \<Rightarrow> rpc_failure + PingResponse option"
  ServeGetFee :: "GetFeeRequest \<Rightarrow> rpc_failure + GetFeeResponse option"

text \<open>\<open>status_Errorf\<close> is the text \<open>status.Errorf\<close> gives an error of the code \<open>Unimplemented\<close>.\<close>

definition UnimplementedRelayServer_Ping ::
  "(string \<Rightarrow> string) \<Rightarrow> PingRequest \<Rightarrow> rpc_failure + PingResponse option" where
  "UnimplementedRelayServer_Ping status_Errorf req =
     Inl (RpcError (status_Errorf ''method Ping not implemented''))"

definition UnimplementedRelayServer_GetFee ::
  "(string \<Rightarrow> string) \<Rightarrow> GetFeeRequest \<Rightarrow> rpc_failure + GetFeeResponse option" where
  "UnimplementedRelayServer_GetFee status_Errorf req =
     Inl (RpcError (status_Errorf ''method GetFee not implemented''))"

definition UnimplementedRelayServer :: "(string \<Rightarrow> string) \<Rightarrow> RelayServer" where
  "UnimplementedRelayServer status_Errorf =
     \<lparr>ServePing = UnimplementedRelayServer_Ping status_Errorf,
      ServeGetFee = UnimplementedRelayServer_GetFee status_Errorf\<rparr>"

section \<open>Handlers\<close>

record UnaryServerInfo =
  USI_Server :: RelayServer
  USI_FullMethod :: string

type_synonym unary_handler = "rpc_request \<Rightarrow> rpc_failure + rpc_response"
type_synonym interceptor = "rpc_request \<Rightarrow> UnaryServerInfo \<Rightarrow> unary_handler \<Rightarrow> rpc_failure + rpc_response"

text \<open>\<open>dec\<close> fills the new message it is given: a function for each type of message.\<close>

record decoder =
  DecPing :: "PingRequest \<Rightarrow> string + PingRequest"
  DecGetFee :: "GetFeeRequest \<Rightarrow> string + GetFeeRequest"

definition new_PingRequest :: PingRequest where
  "new_PingRequest =
     \<lparr>PQ_EthAddr = [], PQ_ChainInfo = [], PQ_NickName = [], PQ_Sig = [], PQ_NodeVersion = []\<rparr>"

definition new_GetFeeRequest :: GetFeeRequest where
  "new_GetFeeRequest = \<lparr>FQ_TransferOutId = []\<rparr>"

definition Relay_Ping_Handler ::
  "RelayServer \<Rightarrow> decoder \<Rightarrow> interceptor option \<Rightarrow> rpc_failure + rpc_response" where
  "Relay_Ping_Handler srv dec interceptor =
     (case DecPing dec new_PingRequest of
        Inl err \<Rightarrow> Inl (RpcError err)
      | Inr msg \<Rightarrow>
          (case interceptor of
             None \<Rightarrow> map_sum id PingResp (ServePing srv msg)
           | Some f \<Rightarrow>
               f (PingReq msg)
                 \<lparr>USI_Server = srv, USI_FullMethod = ''/gatewayrpc.Relay/Ping''\<rparr>
                 (\<lambda>req. case req of
                    PingReq m \<Rightarrow> map_sum id PingResp (ServePing srv m)
                  | GetFeeReq _ \<Rightarrow> Inl RpcPanic)))"

definition Relay_GetFee_Handler ::
  "RelayServer \<Rightarrow> decoder \<Rightarrow> interceptor option \<Rightarrow> rpc_failure + rpc_response" where
  "Relay_GetFee_Handler srv dec interceptor =
     (case DecGetFee dec new_GetFeeRequest of
        Inl err \<Rightarrow> Inl (RpcError err)
      | Inr msg \<Rightarrow>
          (case interceptor of
             None \<Rightarrow> map_sum id GetFeeResp (ServeGetFee srv msg)
           | Some f \<Rightarrow>
               f (GetFeeReq msg)
                 \<lparr>USI_Server = srv, USI_FullMethod = ''/gatewayrpc.Relay/GetFee''\<rparr>
                 (\<lambda>req. case req of
                    GetFeeReq m \<Rightarrow> map_sum id GetFeeResp (ServeGetFee srv m)
                  | PingReq _ \<Rightarrow> Inl RpcPanic)))"

text \<open>The descriptor that \<open>RegisterRelayServer\<close> hands to the gRPC server.\<close>

type_synonym method_handler =
  "RelayServer \<Rightarrow> decoder \<Rightarrow> interceptor option \<Rightarrow> rpc_failure + rpc_response"

record ServiceDesc =
  SD_ServiceName :: string
  SD_Methods :: "(string \<times> method_handler) list"
  SD_Metadata :: string

definition Relay_serviceDesc :: ServiceDesc where
  "Relay_serviceDesc =
     \<lparr>SD_ServiceName = ''gatewayrpc.Relay'',
      SD_Methods = [(''Ping'', Relay_Ping_Handler), (''GetFee'', Relay_GetFee_Handler)],
      SD_Metadata = ''gateway_rpc.proto''\<rparr>"

definition RegisterRelayServer :: "(ServiceDesc \<Rightarrow> RelayServer \<Rightarrow> 's \<Rightarrow> 's) \<Rightarrow> 's \<Rightarrow> RelayServer \<Rightarrow> 's" where
  "RegisterRelayServer RegisterService s srv = RegisterService Relay_serviceDesc srv s"

section \<open>What the handlers answer\<close>

text \<open>The path under which a descriptor offers each of its methods.\<close>

definition method_paths :: "ServiceDesc \<Rightarrow> (string \<times> method_handler) list" where
  "method_paths d = map (\<lambda>(m, h). (''/'' @ SD_ServiceName d @ ''/'' @ m, h)) (SD_Methods d)"

lemma paths_of_the_client:
  "map_of (method_paths Relay_serviceDesc) ''/gatewayrpc.Relay/Ping'' = Some Relay_Ping_Handler"
  "map_of (method_paths Relay_serviceDesc) ''/gatewayrpc.Relay/GetFee'' = Some Relay_GetFee_Handler"
  by (simp_all add: method_paths_def Relay_serviceDesc_def)

text \<open>An interceptor that hands the request on unchanged is the same as none.\<close>

definition passes_on :: "interceptor \<Rightarrow> bool" where
  "passes_on f \<longleftrightarrow> (\<forall>req info handler. f req info handler = handler req)"

lemma interceptor_passes_on:
  assumes "passes_on f"
  shows "Relay_Ping_Handler srv dec (Some f) = Relay_Ping_Handler srv dec None"
    and "Relay_GetFee_Handler srv dec (Some f) = Relay_GetFee_Handler srv dec None"
  using assms
  by (auto simp: passes_on_def Relay_Ping_Handler_def Relay_GetFee_Handler_def split: sum.splits)

text \<open>One that swaps the type of the request makes the handler panic.\<close>

lemma interceptor_wrong_type:
  assumes "DecPing dec new_PingRequest = Inr msg"
    and "\<And>info handler. f (PingReq msg) info handler = handler (GetFeeReq m)"
  shows "Relay_Ping_Handler srv dec (Some f) = Inl RpcPanic"
  using assms by (simp add: Relay_Ping_Handler_def)

section \<open>Client and server\<close>

text \<open>What a client is delivered for the answer of a handler: a panic and an answer that is no
  message reach it as an error \<open>lost\<close>. That a connection delivers this for the request it decodes
  is a hypothesis on the gRPC runtime; the client then gets the answer of the server itself.\<close>

fun GetFee_answer :: "string \<Rightarrow> rpc_failure + rpc_response \<Rightarrow> GetFeeResponse result" where
  "GetFee_answer lost (Inl (RpcError err)) = Inl err"
| "GetFee_answer lost (Inl RpcPanic) = Inl lost"
| "GetFee_answer lost (Inr (GetFeeResp (Some out))) = Inr out"
| "GetFee_answer lost (Inr (GetFeeResp None)) = Inl lost"
| "GetFee_answer lost (Inr (PingResp r)) = Inl lost"

lemma client_gets_the_servers_fee:
  assumes served: "\<And>req dec. DecGetFee dec new_GetFeeRequest = Inr req \<Longrightarrow>
      InvokeGetFee cc req = GetFee_answer lost (Relay_GetFee_Handler srv dec f)"
    and intercepted: "f = None \<or> (\<exists>g. f = Some g \<and> passes_on g)"
  shows "relayClient_GetFee cc req =
    map_sum id Some (GetFee_answer lost (map_sum id GetFeeResp (ServeGetFee srv req)))"
proof -
  let ?dec = "\<lparr>DecPing = \<lambda>_. Inl [], DecGetFee = \<lambda>_. Inr req\<rparr>"
  have "Relay_GetFee_Handler srv ?dec f = Relay_GetFee_Handler srv ?dec None"
    using intercepted interceptor_passes_on(2) by auto
  also have "\<dots> = map_sum id GetFeeResp (ServeGetFee srv req)"
    by (simp add: Relay_GetFee_Handler_def)
  finally have "InvokeGetFee cc req = GetFee_answer lost (map_sum id GetFeeResp (ServeGetFee srv req))"
    using served [of ?dec req] by simp
  then show ?thesis by (simp add: relayClient_GetFee_def split: sum.split)
qed

lemma unimplemented_server_names_no_fee:
  assumes "\<And>req dec. DecGetFee dec new_GetFeeRequest = Inr req \<Longrightarrow>
      InvokeGetFee cc req =
        GetFee_answer lost (Relay_GetFee_Handler (UnimplementedRelayServer status_Errorf) dec None)"
  shows "GatewayClient_GetFee lib cc tid =
    Inl (RpcErr (status_Errorf ''method GetFee not implemented''))"
proof -
  have "relayClient_GetFee cc req = Inl (status_Errorf ''method GetFee not implemented'')" for req
    by (subst client_gets_the_servers_fee [OF assms])
      (simp_all add: UnimplementedRelayServer_def UnimplementedRelayServer_GetFee_def)
  then show ?thesis by (simp add: GatewayClient_GetFee_def GetFee_result_def)
qed

end
