(* ===== verification/Spec2Isabelle.thy ===== *)
theory Spec2Isabelle
  imports Example_Run Relay_Pairs Relay_Inserts Relay_Progress Relay_Effects Main_Program
    Relay_Rounds Overwritten_Amount Example_Course CBridge_Binding Erc20_Binding Node_Messages Relay_Service
begin

text \<open>
  cBridge relay node: verification development.

  \<^bold>\<open>The program.\<close> A relay node moves tokens between chains by hash time locks. A user locks an amount
  in the bridge contract of a source chain in favour of the node (a transfer out); the node locks
  the corresponding amount, less a fee, in the contract of the destination chain in favour of the
  user (the transfer in), under the same hash lock and an earlier time lock; the preimage the user
  then reveals settles both. The node keeps one database row per transfer. Four callbacks
  per chain record what the contracts emit; four loops look for rows that can be sent, confirmed or
  refunded, or that hang in a pending state, ask the chain, and act. All of them run concurrently
  over the one table.

  \<^bold>\<open>Theories and the code they model.\<close>
  \<^item> \<open>CB_Prelude\<close>, \<open>Go_Text\<close>: machine types, the clock in nanoseconds, big-endian bytes; the number
    and hex texts of Go's standard library.
  \<^item> \<open>Util\<close>: \<open>server/util.go\<close>. \<open>Node_Config\<close>, \<open>Node_Messages\<close>: the enumerations and
    messages of \<open>cbridgenode/cbridge_node.pb.go\<close>, those the node reads and the others.
  \<^item> \<open>DAL\<close>, \<open>Monitor_Table\<close>: \<open>server/dal.go\<close> and \<open>server/schema.sql\<close>, each method as the SQL it
    sends, with arguments, conditions and scan. \<open>Transfer_Table\<close>: their specification, one
    constructor of \<open>stmt\<close> or \<open>query\<close> per method, over which everything above is stated.
    \<open>SQL_System\<close>: the runs of the node in which each statement and query is the SQL of its method.
  \<^item> \<open>Gateway_RPC\<close>: \<open>server/gateway.go\<close> with the messages and the client of
    \<open>gatewayrpc/gateway_rpc.pb.go\<close>; \<open>Relay_Service\<close>: its handlers and service descriptor.
  \<^item> \<open>Contract_Bindings\<close>: the calls, results and events of the contracts, and \<open>layer1/eth_utils.go\<close>.
    \<open>Event_Logs\<close>: iterators, filters, subscriptions and parsers of events, which the generator
    writes alike for each event, over the conversion of one. \<open>Bind_Contract\<close>, \<open>CBridge_Binding\<close>,
    \<open>Erc20_Binding\<close>: every function of \<open>contracts/cbridge.go\<close> and \<open>contracts/erc20.go\<close>.
  \<^item> \<open>Proc\<close>: programs as trees of effects and their interleaved runs. \<open>Server_State\<close>: the \<open>server\<close>
    struct and \<open>getTransfer\<close>, \<open>transferIn\<close>, \<open>confirm\<close>, \<open>refund\<close>. \<open>Monitor_Handlers\<close>: the four
    callbacks. \<open>Relay_Loops\<close>: one round of each loop, and \<open>node_programs\<close>, all programs of the
    node. \<open>Summaries\<close>: the two HTTP handlers. \<open>Server_Init\<close>: \<open>Init\<close>, the ping, the monitors,
    \<open>Close\<close>. All of \<open>server/server.go\<close>.
  \<^item> \<open>Main_Program\<close>: \<open>server/main/main.go\<close>.
  \<^item> \<open>Relay_Protocol\<close>, \<open>Relay_Trace\<close>, \<open>Relay_Final\<close>, \<open>Relay_Inserts\<close>, \<open>Relay_Origin\<close>,
    \<open>Relay_Pairs\<close>, \<open>Relay_Progress\<close>, \<open>Relay_Effects\<close>, \<open>Relay_Rounds\<close>, \<open>Relay_Lifecycle\<close>,
    \<open>Server_Maps\<close>: the properties of the whole; \<open>Example_Run\<close>: a
    node on two chains and a few of its runs, for the witnesses; \<open>Overwritten_Amount\<close>,
    \<open>Example_Course\<close>: more of them.

  \<^bold>\<open>How it is modelled.\<close> A callback or a round of a loop is a \<open>proc\<close>: each access to the clock, the
  database, a chain, the gateway, each transaction and each sleep is one node, whose continuation
  gets the answer. Goroutines are lists of such programs; \<open>sys_step\<close> runs one effect of one of them,
  starts another, or loses all of them in a crash, which keeps the table. Answers come from outside:
  a write that reports an error may or may not have taken place, a query answers the rows it selects
  in any order, chains, gateway and clock answer anything the predicate \<open>A\<close> of a statement admits.
  The tickers become the freedom to start a round at any time, also while another is under way.
  Numbers keep their width: \<open>uint64\<close> and \<open>int64\<close> are words that wrap, \<open>big.Int\<close> is an integer, a
  time is an integer of nanoseconds. The time columns of the database keep microseconds: \<open>DTime\<close> of
  \<open>dal_env\<close> is what they keep of a time, of one that is stored as of one that is compared with, and
  the methods of \<open>DAL\<close> are stated with it. The abstract table keeps times as they are; \<open>stored_stmt\<close>
  and \<open>stored_query\<close> carry over from it to the columns. A Go map is a partial function; where the code ranges over one,
  the order is an argument. Library functions whose code is not here (hashing, addresses, the key
  store, SQL connections, the bound contract, decimal texts of floating-point numbers and of times)
  are arguments, with the documentation they are used by as named hypotheses. A panic is a result.

  \<^bold>\<open>What is proved.\<close>
  \<^item> Rely-guarantee, \<open>table_protocol\<close> in \<open>Proc\<close>: an invariant, an order of growth and the allowed
    statements, kept by the programs one by one, hold in all interleavings. \<open>Relay_Protocol\<close> (ids,
    pairs, fixed columns, gross amounts, phases of the status) and \<open>Relay_Final\<close> (final states agree
    with the chains) are its instances.
  \<^item> Licences, \<open>traced\<close> in \<open>Proc\<close>: what a goroutine did just before a step. \<open>Relay_Trace\<close> for the three
    transactions, \<open>Relay_Inserts\<close> for inserts with the locale \<open>insert_watch\<close>.
  \<^item> \<open>Relay_Origin\<close> joins both: every row comes from a deposit, so every payout has one and every
    transfer in mirrors its transfer out. \<open>Relay_Pairs\<close> needs neither clock nor answers for what no
    time enters: every row was made for a delivered log, and every transfer in has a row of type
    transfer out under its related id, also where the times are those a database keeps.
  \<^item> \<open>thread_invariant\<close> in \<open>Relay_Progress\<close>: bounded rounds, no panics, and that every goroutine can
    finish. There is no fuel: loops run over the rows of a query by recursion, and the bound of 6
    steps and 10 for each row answered is a theorem. \<open>Relay_Effects\<close>: what a recovery round and a
    delivered event do to the table. \<open>Relay_Rounds\<close>: a send, confirm or refund round that nothing
    interferes with equals a reference that says for each row what it becomes and which
    transactions are submitted for it (\<open>send_spec\<close>, \<open>confirm_spec\<close>, \<open>refund_spec\<close>).
    \<open>Relay_Lifecycle\<close> puts callbacks and rounds one after the other (\<open>course\<close>, which is a run of the
    node by \<open>course_reachable\<close>): a deposit is paid out, and then collected or refunded.
  \<^item> Refinement: the runs on the database are simulated by runs on the abstract table
    (\<open>sql_reach_sim\<close>): of the programs with stored times (\<open>stored_prog\<close>), and of the programs
    themselves if they only use times the columns keep (\<open>keeps_times\<close>), as with a clock of whole
    microseconds; then the properties of reachable tables hold of the database rows. Below that,
    the SQL methods implement the statements, queries and the monitor map (the locales
    \<open>row_update\<close>, \<open>status_move\<close>, \<open>gross_update\<close> are the contracts of updates); the summary
    equals a reference that selects and sums.
  \<^item> \<open>Server_Maps\<close>: what a start without an error leaves, where a lookup can dangle, and, below, that
    a node so started never panics.
  \<^item> Round trips, bounds and error cases of the helpers, in the theory of each.

  \<^bold>\<open>Not modelled.\<close> The log, apart from the functions whose only result it is; dialling with TLS,
  the gRPC runtime and the HTTP server; mutexes and channels, in whose place each effect is one
  atomic step; protobuf reflection (descriptors, \<open>ProtoReflect\<close>, the text of a message); the Go
  interface types, which only list methods modelled elsewhere; the ABI and byte code texts of the
  contracts; sample configurations and build files. A status number in the database that the
  enumeration does not have is an error of the scan here, where the code would carry the number on.
  The seconds of a lock are not checked against the range of \<open>time.Unix\<close> and of the time columns.
\<close>

section \<open>Payouts and deposits\<close>

text \<open>C1: Every transferIn transaction the node ever submits, in any interleaving of all its callbacks
  and loop rounds and through crashes, pays out a deposit: if the logs of new transfers out are
  those of the contracts and the clock reads a time of the present epoch, then under the source id
  the call carries there is a deposit on the source chain it names, made to this node's address,
  for this receiver, on the chain the call goes to, under the same hash lock and with a time lock
  at least eight hours longer; the token is the one of the same name there, and the amount is the
  deposit in that token's decimals less a fee that the gateway named for it.\<close>

theorem every_payout_has_a_deposit:
  assumes "sys_reach A (node_programs_from (from_deposit dep) env s) ([], []) (T, ths)" "clock_sane A"
    and "(newer @ TransactE c a (Inr (CBridge_TransferIn dstAddress token amount hashlock timelock
        srcChainId srcTransferId)) err # older, p) \<in> set ths"
  shows "pays_for dep env s older c a dstAddress token amount hashlock timelock srcChainId srcTransferId"
  by (rule node_payout [OF assms])

theorem every_payout_has_a_deposit_witness:
  "pays_for ex_deposits ex_env ex_server ex_past 56 101 6 19 99850 77 (116 * 3600) 1 41"
proof -
  obtain p where "sys_reach ex_clock ex_deposit_programs ([], [])
      (ex_sent, [(TransactE 56 101 (Inr ex_call) None # ex_past, p)])"
    using ex_deposit_reachable(2) by blast
  from every_payout_has_a_deposit [OF this [unfolded ex_call_def] ex_clock_sane, where newer = "[]"]
  show ?thesis by simp
qed

text \<open>C6: Every transfer in of the table mirrors its transfer out, in every reachable state: the two
  rows name each other's id, chain and token, share the hash lock, and both name this node, as the
  receiver of the one and the sender of the other; the amount and fee of the transfer in add up to
  the amount of the transfer out in the other token's decimals; and its lock ends eight hours
  earlier, to within a second. Assumed are true logs, a sane clock, and that no contract takes in a
  deposit under the id, a hash, of a transfer in.\<close>

theorem transfers_in_mirror_transfers_out:
  assumes "sys_reach A (node_programs_from (from_deposit dep) env s) ([], []) (T, ths)" "clock_sane A"
    and "ids_apart dep env" "r \<in> set T" "TransferType r = TRANSFER_TYPE_IN"
  shows "\<exists>x\<in>set T. mirrors s x r"
  by (rule node_mirrors [OF assms])

theorem transfers_in_mirror_transfers_out_witness:
  "mirrors ex_server (inserted_row ex_out (100 * hour)) (inserted_row ex_in (100 * hour))"
proof -
  obtain h p where r: "sys_reach ex_clock ex_deposit_programs ([], []) (ex_table, [(h, p)])"
    using ex_deposit_reachable(1) by blast
  have "\<exists>x\<in>set ex_table. mirrors ex_server x (inserted_row ex_in (100 * hour))"
    by (rule transfers_in_mirror_transfers_out [OF r ex_clock_sane ex_ids_apart])
      (simp_all add: ex_table_def)
  then show ?thesis by (auto simp: ex_table_def mirrors_def)
qed

section \<open>The database\<close>

text \<open>C7: Everything the node does on its database, with each write and each query the SQL of its
  method, and with lost connections, it does over the abstract table: after any interleaving of
  goroutines and any crashes, the rows of the database represent a table, and the same goroutines
  with the same histories reach it in the abstract system, where each statement and each query has
  the times that the time columns keep of its own. If the node only uses times that they keep as
  they are, its own programs and histories reach that table: this is so for exact columns
  (\<open>keeps_times_exact\<close>), and for columns of microseconds when the clock reads whole
  microseconds and no lock is centuries away (\<open>node_keeps_times\<close>). Then every property of
  reachable states and of steps taken, stated over the table, holds of the node on its database.\<close>

theorem database_runs_refine_table:
  assumes "dal_doc db" "sql_reach db A (node_programs_from D env s) ([], []) (R, ths)"
  shows "\<exists>T. rel_table db R T \<and>
    sys_reach A (stored_prog db ` node_programs_from D env s) ([], []) (T, map (stored_thread db) ths) \<and>
    (keeps_times db A (node_programs_from D env s) \<longrightarrow>
      sys_reach A (node_programs_from D env s) ([], []) (T, ths))"
proof -
  have "rel_table db [] []" by (simp add: rel_table_def)
  from sql_reach_sim [OF assms(2,1) this] show ?thesis by metis
qed

theorem database_runs_refine_table_witness:
  "\<exists>T ths. rel_table ref_env ex_rows T \<and> sys_reach ex_clock ex_deposit_programs ([], []) (T, ths)"
proof -
  obtain ths where "sql_reach ref_env ex_clock ex_deposit_programs ([], []) (ex_rows, ths)"
    using ex_sql_reachable by blast
  from database_runs_refine_table [OF ref_env_doc this] ex_keeps_times show ?thesis by blast
qed

text \<open>C13: What this means for the columns: in the database no two rows have the same \<open>tid\<close> text, and
  each row of type transfer in has a row of type transfer out whose id, chain and token columns are
  its related ones and the other way round, with the same hash lock text. Assumed are true logs,
  and that no contract takes in a deposit under the id, a hash, of a transfer in; nothing is
  assumed of the clock or of what the time columns keep.\<close>

theorem database_rows_paired:
  assumes "dal_doc db" "sql_reach db A (node_programs_from (from_deposit dep) env s) ([], []) (R, ths)"
    and "ids_apart dep env"
  shows "distinct (map (\<lambda>r. r ''tid'') R) \<and>
    (\<forall>r\<in>set R. r ''transfertype'' = SInt (TransferType_number TRANSFER_TYPE_IN) \<longrightarrow>
      (\<exists>x\<in>set R. x ''transfertype'' = SInt (TransferType_number TRANSFER_TYPE_OUT) \<and>
         x ''tid'' = r ''relatedtid'' \<and> r ''tid'' = x ''relatedtid'' \<and>
         x ''chainid'' = r ''relatedchainid'' \<and> r ''chainid'' = x ''relatedchainid'' \<and>
         x ''token'' = r ''relatedtoken'' \<and> r ''token'' = x ''relatedtoken'' \<and>
         x ''hashlock'' = r ''hashlock''))"
proof -
  have "rel_table db [] []" by (simp add: rel_table_def)
  from sql_reach_sim [OF assms(2,1) this] obtain T where T: "rel_table db R T"
    "sys_reach A (stored_prog db ` node_programs_from (from_deposit dep) env s) ([], [])
      (T, map (stored_thread db) ths)" by metis
  have lib: "eth_common_doc (DLib db)" using assms(1) by (simp add: dal_doc_def)
  have paired: "paired (from_deposit dep) env s T" by (rule stored_paired [OF T(2)])
  have "distinct (map (\<lambda>r. r ''tid'') R)"
    using rel_table_keys [OF lib T(1)] paired by (simp add: paired_def)
  moreover have "\<exists>x\<in>set R. x ''transfertype'' = SInt (TransferType_number TRANSFER_TYPE_OUT) \<and>
      x ''tid'' = r ''relatedtid'' \<and> r ''tid'' = x ''relatedtid'' \<and>
      x ''chainid'' = r ''relatedchainid'' \<and> r ''chainid'' = x ''relatedchainid'' \<and>
      x ''token'' = r ''relatedtoken'' \<and> r ''token'' = x ''relatedtoken'' \<and>
      x ''hashlock'' = r ''hashlock''"
    if r: "r \<in> set R" "r ''transfertype'' = SInt (TransferType_number TRANSFER_TYPE_IN)" for r
  proof -
    obtain y where y: "y \<in> set T" "rel_row db r y" using T(1) r(1) by (rule rel_table_row)
    then have "TransferType y = TRANSFER_TYPE_IN"
      using rel_row_ids(8) [OF y(2)] r(2) by (simp del: TransferType_number.simps)
    from paired_deposit [OF paired assms(3) y(1) this] obtain z where z: "z \<in> set T"
      "TransferType z = TRANSFER_TYPE_OUT" "TransferId z = RelatedTid y" "TransferId y = RelatedTid z"
      "ChainId z = RelatedChainId y" "ChainId y = RelatedChainId z" "Token z = RelatedToken y"
      "Token y = RelatedToken z" "HashLock z = HashLock y" by blast
    obtain x where x: "x \<in> set R" "rel_row db x z" using T(1) z(1) by (rule rel_table_row')
    show ?thesis
      using x(1) z(2-) rel_row_ids [OF x(2)] rel_row_ids [OF y(2)] by (intro bexI [of _ x]) simp_all
  qed
  ultimately show ?thesis by blast
qed

theorem database_rows_paired_witness:
  "distinct (map (\<lambda>r. r ''tid'') ex_rows)"
proof -
  obtain ths where "sql_reach ref_env ex_clock ex_deposit_programs ([], []) (ex_rows, ths)"
    using ex_sql_reachable by blast
  from database_rows_paired [OF ref_env_doc this ex_ids_apart] show ?thesis by blast
qed

section \<open>The transfer table under all programs\<close>

text \<open>C12: In every state the node can reach, in any interleaving of event callbacks and loop rounds
  with any answers from chains, gateway and database and with crashes, no two rows have the same
  transfer id, and every transfer in has its transfer out: a row of type transfer out whose id is
  its related id. The logs are any the monitors may deliver, if no new transfer out among them has
  the id, a hash, of a transfer in.\<close>

theorem table_invariant:
  assumes "sys_reach A (node_programs_from D env s) ([], []) (T, ths)" "logs_apart D env"
  shows "keys_distinct T \<and>
    (\<forall>r\<in>set T. TransferType r = TRANSFER_TYPE_IN \<longrightarrow>
      (\<exists>x\<in>set T. TransferId x = RelatedTid r \<and> TransferType x = TRANSFER_TYPE_OUT))"
  using node_paired [OF assms(1)] paired_in [OF node_paired [OF assms(1)] assms(2)]
  by (simp add: paired_def)

theorem table_invariant_witness:
  "keys_distinct ex_table \<and>
    (\<exists>x\<in>set ex_table. TransferId x = RelatedTid (inserted_row ex_in (100 * hour)) \<and>
      TransferType x = TRANSFER_TYPE_OUT)"
proof -
  obtain h p where "sys_reach ex_clock ex_deposit_programs ([], []) (ex_table, [(h, p)])"
    using ex_deposit_reachable(1) by blast
  from table_invariant [OF this deposits_apart [OF ex_ids_apart]]
  have inv: "keys_distinct ex_table" "\<forall>r\<in>set ex_table. TransferType r = TRANSFER_TYPE_IN \<longrightarrow>
      (\<exists>x\<in>set ex_table. TransferId x = RelatedTid r \<and> TransferType x = TRANSFER_TYPE_OUT)" by blast+
  have "inserted_row ex_in (100 * hour) \<in> set ex_table" "TransferType ex_in = TRANSFER_TYPE_IN"
    by (simp_all add: ex_table_def)
  with inv show ?thesis by (metis inserted_row_sel(5))
qed

text \<open>C8: A row once in the table stays in it, with its ids, chains, tokens, parties, locks, gas
  costs and creation time unchanged, and with the sum of amount and fee unchanged: the fee
  negotiation only moves money between the two, also when rounds overlap or are repeated.\<close>

theorem rows_permanent_gross_conserved:
  assumes "sys_reach A (node_programs env s) ([], []) (T, ths)"
    and "sys_reach A (node_programs env s) (T, ths) (T', ths')" "find_row tid T = Some r"
  shows "\<exists>r'. find_row tid T' = Some r' \<and> fixed_cols r' = fixed_cols r \<and>
    Amount r' + Fee r' = Amount r + Fee r"
  using node_later_row [OF assms] unfolding row_grows_def gross_def by metis

theorem rows_permanent_gross_conserved_witness:
  "\<exists>r'. find_row 42 ex_sent = Some r' \<and> fixed_cols r' = fixed_cols (inserted_row ex_in (100 * hour)) \<and>
     Amount r' + Fee r' = 100000"
proof -
  obtain h p where r1: "sys_reach (\<lambda>e. True) (node_programs ex_env ex_server) ([], []) (ex_table, [(h, p)])"
    using ex_received_reachable by blast
  obtain p' where r2: "sys_reach (\<lambda>e. True) (node_programs ex_env ex_server) (ex_table, [(h, p)])
      (ex_sent, [(TransactE 56 101 (Inr ex_call) None # ex_past, p')])"
    using ex_sent_later [OF sys_reach.refl] by blast
  have "find_row 42 ex_table = Some (inserted_row ex_in (100 * hour))"
    by (simp add: find_row_def ex_table_def)
  from rows_permanent_gross_conserved [OF r1 r2 this] show ?thesis by simp
qed

text \<open>C9: The status of a row never falls back to an earlier phase: from starting (start, pending) to
  locked (locked, confirm or refund pending) to final (confirmed, refunded). A late recovery, a
  late event or an overlapping round cannot restart a transfer that is locked or touch the phase
  of a final one.\<close>

theorem status_never_falls_back:
  assumes "sys_reach A (node_programs env s) ([], []) (T, ths)"
    and "sys_reach A (node_programs env s) (T, ths) (T', ths')"
    and "find_row tid T = Some r" "find_row tid T' = Some r'"
  shows "phase (Status r) \<le> phase (Status r')"
  using node_later_row [OF assms(1-3)] assms(4) unfolding row_grows_def by (metis option.inject)

theorem status_never_falls_back_witness:
  "phase (Status ex_in) \<le> phase TRANSFER_STATUS_TRANSFER_IN_PENDING"
proof -
  obtain h p where r1: "sys_reach (\<lambda>e. True) (node_programs ex_env ex_server) ([], []) (ex_table, [(h, p)])"
    using ex_received_reachable by blast
  obtain p' where r2: "sys_reach (\<lambda>e. True) (node_programs ex_env ex_server) (ex_table, [(h, p)])
      (ex_sent, [(TransactE 56 101 (Inr ex_call) None # ex_past, p')])"
    using ex_sent_later [OF sys_reach.refl] by blast
  have "find_row 42 ex_table = Some (inserted_row ex_in (100 * hour))"
    "find_row 42 ex_sent = Some ((inserted_row ex_in (100 * hour))\<lparr>Amount := 99850, Fee := 150,
       Status := TRANSFER_STATUS_TRANSFER_IN_PENDING, UpdateTs := 100 * hour\<rparr>)"
    by (simp_all add: find_row_def ex_table_def ex_sent_def)
  from status_never_falls_back [OF r1 r2 this] show ?thesis by simp
qed

text \<open>C5: If the logs delivered to the node and the answers of the contracts agree on how each
  transfer was settled, every confirmed row is a transfer its chain confirmed and every refunded
  row one its chain refunded, in all interleavings: the node never books a final state the chain
  does not have, and never the opposite one.\<close>

theorem final_states_agree_with_chains:
  assumes "sys_reach (answer_true fate) (node_programs_on {l. log_true fate l} env s) ([], []) (T, ths)"
  shows "\<forall>r\<in>set T.
    (Status r = TRANSFER_STATUS_CONFIRMED \<longrightarrow> fate (TransferId r) = remoteTransferStatusConfirmed) \<and>
    (Status r = TRANSFER_STATUS_REFUNDED \<longrightarrow> fate (TransferId r) = remoteTransferStatusRefunded)"
  using node_final [OF assms] by (simp add: fate_inv_def final_true_def)

theorem final_states_agree_with_chains_witness:
  "\<exists>r\<in>set ex_confirmed. Status r = TRANSFER_STATUS_CONFIRMED \<and>
     ex_fate (TransferId r) = remoteTransferStatusConfirmed"
proof -
  obtain ths where "sys_reach (answer_true ex_fate)
      (node_programs_on {l. log_true ex_fate l} ex_env ex_server) ([], []) (ex_confirmed, ths)"
    using ex_confirmed_reachable by blast
  from final_states_agree_with_chains [OF this] show ?thesis by (simp add: ex_confirmed_def)
qed

text \<open>C14: A transfer in enters the table only from the callback of a new transfer out, right after its
  transfer out was inserted: for an event addressed to this node, between configured chains and
  tokens of one name, with at least 16 hours left on the source lock, and with the rescaled amount,
  the shortened lock and the two ids crosswise. Nothing else makes the node owe a transfer.\<close>

theorem transfer_in_only_for_accepted_out:
  assumes "sys_reach A (node_programs env s) (T0, []) (T, ths)"
    and "(newer @ ExecE (InsertTransferS tx t) r # older, p) \<in> set ths"
    and "TransferType tx = TRANSFER_TYPE_IN"
  shows "in_license env s older tx"
  using node_insert_licensed [OF assms(1,2)] assms(3) by (simp add: insert_licensed_def)

theorem transfer_in_only_for_accepted_out_witness:
  "in_license ex_env ex_server [NowE (100 * hour),
     ExecE (InsertTransferS ex_out (100 * hour)) None, NowE (100 * hour), NowE (100 * hour)] ex_in"
proof -
  obtain p where r: "sys_reach (\<lambda>e. True) (node_programs ex_env ex_server) ([], [])
     (ex_table, [([ExecE (InsertTransferS ex_in (100 * hour)) None, NowE (100 * hour),
       ExecE (InsertTransferS ex_out (100 * hour)) None, NowE (100 * hour), NowE (100 * hour)], p)])"
    using ex_received_reachable by blast
  show ?thesis
    by (rule transfer_in_only_for_accepted_out [OF r, where newer = "[]" and p = p]) simp_all
qed

section \<open>The transactions of all programs\<close>

text \<open>C2: Whenever any goroutine of the node, in any interleaving, submits a transferIn transaction,
  the steps it took just before are exactly these: it selected the row as started, a transfer in,
  with more than an hour left; at a time at least six minutes before the lock the chain reported
  status 0 (no such transfer) at the safe block; the gateway named a fee no larger than the
  amount; the statements that store the new amount and fee and that set the row from start to
  pending reported no error; and, on the second attempt, the first one had failed and six seconds
  had passed. The call carries the amount less the fee and the receiver, token, hash lock, time
  lock and source ids of the row. The property does not say that the row was still in start: the
  code does not ask how many rows the statement matched, and with none it reports no error.\<close>

theorem transferIn_only_after_checks:
  assumes "sys_reach A (node_programs env s) (T0, []) (T, ths)"
    and "(newer @ TransactE c a (Inr (CBridge_TransferIn d tk am h l sc sid)) err # older, p) \<in> set ths"
  shows "send_license env s older c a (CBridge_TransferIn d tk am h l sc sid)"
  using node_licensed [OF assms] by (auto simp: confirm_license_def refund_license_def)

theorem transferIn_only_after_checks_witness:
  "send_license ex_env ex_server ex_past 56 101 ex_call"
proof -
  obtain h p where r1: "sys_reach (\<lambda>e. True) (node_programs ex_env ex_server) ([], []) (ex_table, [(h, p)])"
    using ex_received_reachable by blast
  obtain p' where r2: "sys_reach (\<lambda>e. True) (node_programs ex_env ex_server) ([], [])
      (ex_sent, [(TransactE 56 101 (Inr ex_call) None # ex_past, p')])"
    using ex_sent_later [OF r1] by blast
  from transferIn_only_after_checks [OF r2 [unfolded ex_call_def], where newer = "[]"]
  show ?thesis by (simp add: ex_call_def)
qed

text \<open>C4: Whenever any goroutine submits a confirm transaction, it has just seen the transfer pending on
  its chain, and either it selected the row as locked with a preimage, and sends that preimage,
  or it selected the row as an expired locked transfer in whose transfer out the table holds as
  confirmed, and sends the preimage of that transfer out.\<close>

theorem confirm_only_when_pending:
  assumes "sys_reach A (node_programs env s) (T0, []) (T, ths)"
    and "(newer @ TransactE c a (Inr (CBridge_Confirm tid preimage)) err # older, p) \<in> set ths"
  shows "confirm_license s older c a (CBridge_Confirm tid preimage)"
  using node_licensed [OF assms] by (auto simp: send_license_def send_call_def refund_license_def)

theorem confirm_only_when_pending_witness:
  "\<exists>older. confirm_license ex_server older 56 101 (CBridge_Confirm 42 99)"
proof -
  obtain T past r p where "sys_reach (\<lambda>e. True) (node_programs ex_env ex_server) (ex_confirmable, [])
     (T, [(TransactE 56 101 (Inr (CBridge_Confirm 42 99)) r # past, p)])"
    using ex_transactions_reachable(1) by blast
  from confirm_only_when_pending [OF this, where newer = "[]"] show ?thesis by auto
qed

text \<open>C3: Whenever any goroutine submits a refund transaction, it selected the row as a locked
  transfer in whose lock had expired, saw it pending on its chain, found its transfer out in the
  table not confirmed, and then saw that transfer out on its own chain with a status other than
  confirmed.\<close>

theorem refund_only_when_unconfirmed:
  assumes "sys_reach A (node_programs env s) (T0, []) (T, ths)"
    and "(newer @ TransactE c a (Inr (CBridge_Refund tid)) err # older, p) \<in> set ths"
  shows "refund_license s older c a (CBridge_Refund tid)"
  using node_licensed [OF assms] by (auto simp: send_license_def send_call_def confirm_license_def)

theorem refund_only_when_unconfirmed_witness:
  "\<exists>older. refund_license ex_server older 56 101 (CBridge_Refund 42)"
proof -
  obtain T past r p where "sys_reach (\<lambda>e. True) (node_programs ex_env ex_server) (ex_refundable, [])
     (T, [(TransactE 56 101 (Inr (CBridge_Refund 42)) r # past, p)])"
    using ex_transactions_reachable(2) by blast
  from refund_only_when_unconfirmed [OF this, where newer = "[]"] show ?thesis by auto
qed

section \<open>Progress and effect of rounds\<close>

text \<open>C15: Every goroutine of the node ends: whatever the database, the chains and the gateway answer
  and however the others interleave, it takes at most six steps and ten more for each row that its
  queries answered. No callback and no round of a loop can run forever or retry without bound.\<close>

theorem rounds_are_bounded:
  assumes "sys_reach A (node_programs env s) (T0, []) (T, ths)" "(h, p) \<in> set ths"
  shows "length h \<le> 6 + 10 * answered h"
  using budget.thread [OF assms] unfolding in_budget_def by (meson le_add1 le_trans)

theorem rounds_are_bounded_witness:
  "length (TransactE 56 101 (Inr ex_call) None # ex_past)
     \<le> 6 + 10 * answered (TransactE 56 101 (Inr ex_call) None # ex_past)"
proof -
  obtain h p where r1: "sys_reach (\<lambda>e. True) (node_programs ex_env ex_server) ([], []) (ex_table, [(h, p)])"
    using ex_received_reachable by blast
  obtain p' where r2: "sys_reach (\<lambda>e. True) (node_programs ex_env ex_server) ([], [])
      (ex_sent, [(TransactE 56 101 (Inr ex_call) None # ex_past, p')])"
    using ex_sent_later [OF r1] by blast
  show ?thesis by (rule rounds_are_bounded [OF r2]) simp
qed

text \<open>C17: If the contracts answer in their own types and no two configured tokens have decimals 64 or
  more apart, then in every reachable state every goroutine can be run to its regular end, with the
  others standing still: none is stuck and none panics, which would take the node down.\<close>

theorem every_goroutine_can_finish:
  assumes "sys_reach A (node_programs env s) (T0, []) (T, ths)" "i < length ths" "ths ! i = (h, p)"
    and "admits A w" "typed_answers A" "decimals_close s"
  shows "\<exists>T' h' b. sys_reach A (node_programs env s) (T0, []) (T', ths[i := (h', Done b)])"
  using thread_completes [OF assms] by blast

theorem every_goroutine_can_finish_witness:
  "\<exists>T' h' b. sys_reach ex_typed (node_programs ex_env ex_server) ([], [])
     (T', [(h', Done b)])"
proof -
  have "ex_bridge 1 \<in> ran (SV_chainMap ex_server)" using ex_server_sel(2) by (rule ranI)
  then have p: "monitorLogTransferOut ex_env ex_server (ex_bridge 1) ex_log \<in> node_programs ex_env ex_server"
    by (auto simp: node_programs_on_def)
  have r: "sys_reach ex_typed (node_programs ex_env ex_server) ([], [])
      ([], [] @ [([], monitorLogTransferOut ex_env ex_server (ex_bridge 1) ex_log)])"
    by (rule sys_reach.step [OF sys_reach.refl sys_step.spawn [OF p]])
  have typed: "typed_answers ex_typed"
    by (auto simp: typed_answers_def ex_typed_def)
  have close: "decimals_close ex_server"
    by (auto simp: decimals_close_def ex_server_def NewServer_def lookup2_def split: if_splits)
  from every_goroutine_can_finish [OF r _ _ ex_outside_typed typed close, of 0] show ?thesis by simp
qed

text \<open>C18: A round of the send loop that nothing interferes with does to the table and submits exactly
  what the reference says row by row: each started transfer in with more than an hour left goes to
  locked if its chain has it pending; if its chain does not know it and the fee is covered, it is
  stored with the amount less the fee, goes to pending, and is sent, a second time if the first
  fails; otherwise, and every other row, it stays as it was and nothing is sent.\<close>

theorem send_round_effect:
  assumes "typed_outside w" "keys_distinct T"
  shows "effect w (snd (ProcessSendTransfer env s)) T =
    in_round (StartTransferInQ (O_Now w + hour)) (send_spec w env s) T"
  unfolding ProcessSendTransfer_def snd_conv by (rule send_round [OF assms])

theorem send_round_effect_witness:
  "effect ex_later (snd (ProcessSendTransfer ex_env ex_server))
      [ex_out_row, ex_row 99850 150 TRANSFER_STATUS_TRANSFER_IN_START 0] =
    ([ex_out_row, ex_row 99800 200 TRANSFER_STATUS_TRANSFER_IN_PENDING (100 * hour + 16 * minute)],
     let e = TransactE 56 101 (Inr (CBridge_TransferIn 6 19 99800 77 (116 * 3600) 1 41)) (Some ''reverted'')
     in [e, e])"
  by (subst send_round_effect)
    (simp_all add: ex_later_outside keys_distinct_def in_round_def send_spec_def remote_status_defs
      gross_def Let_def submit_def send_call_def)

text \<open>C19: A round of the confirm loop that nothing interferes with: each locked row with a preimage
  that its chain has pending goes to confirm pending and is confirmed with that preimage, once;
  one its chain has confirmed or refunded gets that final status, with nothing sent; every other
  row stays as it was.\<close>

theorem confirm_round_effect:
  assumes "typed_outside w" "keys_distinct T"
  shows "effect w (snd (ProcessConfirmTransfer env s)) T = in_round ConfirmableLockedQ (confirm_spec w env s) T"
  unfolding ProcessConfirmTransfer_def snd_conv by (rule confirm_round [OF assms])

theorem confirm_round_effect_witness:
  "effect ex_pending (snd (ProcessConfirmTransfer ex_env ex_server)) ex_confirmable =
    ([ex_locked\<lparr>Status := TRANSFER_STATUS_CONFIRM_PENDING, Preimage := 99, PreimageSet := True,
       UpdateTs := 117 * hour\<rparr>],
     [TransactE 56 101 (Inr (CBridge_Confirm 42 99)) None])"
  by (subst confirm_round_effect)
    (simp_all add: ex_pending_outside keys_distinct_def in_round_def confirm_spec_def remote_status_defs
      submit_def ex_confirmable_def ex_locked_def)

text \<open>C20: A round of the refund loop that nothing interferes with, on a table whose transfers in relate
  to transfers out: each expired locked transfer in that its chain has pending goes to refund
  pending; if its transfer out is confirmed in the table, it is confirmed with that preimage, and if
  the other chain shows the transfer out as anything but confirmed, it is refunded; one its chain
  has refunded gets that status; every other row stays as it was.\<close>

theorem refund_round_effect:
  assumes "typed_outside w" "keys_distinct T"
    and "\<And>r x. r \<in> set T \<Longrightarrow> x \<in> set T \<Longrightarrow> TransferType r = TRANSFER_TYPE_IN \<Longrightarrow>
      TransferId x = RelatedTid r \<Longrightarrow> TransferType x \<noteq> TRANSFER_TYPE_IN"
  shows "effect w (snd (ProcessRefundTransferIn env s)) T =
    in_round (RefundAbleTransferInQ (O_Now w)) (refund_spec w env s T) T"
  unfolding ProcessRefundTransferIn_def snd_conv by (rule refund_round [OF assms])

theorem refund_round_effect_witness:
  "effect ex_pending (snd (ProcessRefundTransferIn ex_env ex_server)) ex_refundable =
    ([ex_out_row, ex_locked\<lparr>Status := TRANSFER_STATUS_REFUND_PENDING, UpdateTs := 117 * hour\<rparr>],
     [TransactE 56 101 (Inr (CBridge_Refund 42)) None])"
  by (subst refund_round_effect)
    (auto simp: ex_pending_outside keys_distinct_def in_round_def refund_spec_def settle_calls_def
      remote_status_defs submit_def ex_refundable_def ex_locked_def find_row_def)

text \<open>C34: The amount in the table need not be the amount that was paid. There is a run of the node in
  which a transferIn over 99850 units succeeded and its event was recorded, so that the row is
  locked, but the row says 99800: after a quarter of an hour without a sign of the transaction the
  recovery put the row back to start, the next round stored the amount for a higher fee before its
  own transaction failed, and the callback for the event does not read the amount the event reports.\<close>

theorem recorded_amount_can_differ:
  "\<exists>T ths h p r. sys_reach (\<lambda>e. True) (node_programs ex_env ex_server) ([], []) (T, ths) \<and>
     (h, p) \<in> set ths \<and>
     TransactE 56 101 (Inr (CBridge_TransferIn 6 19 99850 77 (116 * 3600) 1 41)) None \<in> set h \<and>
     ParseEvent to_LogNewTransferIn evLogTransferIn ex_in_log = Inr ex_in_event \<and>
     LI_Amount ex_in_event = 99850 \<and>
     find_row (LI_TransferId ex_in_event) T = Some r \<and> TxHash r = LG_TxHash ex_in_log \<and>
     Status r = TRANSFER_STATUS_LOCKED \<and> Amount r = 99800 \<and> Fee r = 200"
proof -
  let ?r = "(ex_row 99800 200 TRANSFER_STATUS_LOCKED (100 * hour + 16 * minute))\<lparr>TxHash := 11\<rparr>"
  obtain ths p where "sys_reach (\<lambda>e. True) (node_programs ex_env ex_server) ([], [])
      ([ex_out_row, ?r], (TransactE 56 101 (Inr ex_call) None # ex_past, p) # ths)"
    using ex_overwritten by blast
  moreover have "find_row (LI_TransferId ex_in_event) [ex_out_row, ?r] = Some ?r"
    by (simp add: find_row_def ex_in_event_def)
  moreover have "LI_Amount ex_in_event = 99850" by (simp add: ex_in_event_def)
  ultimately show ?thesis
    by (intro exI [of _ "[ex_out_row, ?r]"] exI [of _ "(TransactE 56 101 (Inr ex_call) None # ex_past, p) # ths"]
        exI [of _ "TransactE 56 101 (Inr ex_call) None # ex_past"] exI [of _ p] exI [of _ ?r])
      (simp add: ex_in_parse ex_in_hash ex_call_def)
qed

text \<open>C21: A round of the recovery loop that nothing interferes with rewrites exactly the rows whose
  pending state is older than 15 minutes: a transfer in that was being sent and has more than six
  minutes left goes back to start, a pending confirmation with more than six minutes left and any
  pending refund go back to locked, their update time is the time of the round, and every other row
  is left as it was.\<close>

theorem recovery_round_effect:
  assumes "keys_distinct T"
  shows "after w (snd ProcessRecoverTimeoutPendingTransfer) T = map (recovered (O_Now w)) T"
  by (rule recover_round [OF assms])

theorem recovery_round_effect_witness:
  "after ex_pending (snd ProcessRecoverTimeoutPendingTransfer)
      [ex_locked\<lparr>Status := TRANSFER_STATUS_REFUND_PENDING\<rparr>] =
    [ex_locked\<lparr>UpdateTs := 117 * hour\<rparr>]"
  using recovery_round_effect [of "[ex_locked\<lparr>Status := TRANSFER_STATUS_REFUND_PENDING\<rparr>]" ex_pending]
  by (simp add: keys_distinct_def recovered_def ex_locked_def ex_pending_status)

text \<open>C24: Delivering an event again, later and to a node that has not moved the transfer on, changes
  nothing: handling a log twice in a row leaves the table that handling it once leaves, for all four
  callbacks, on any table. (A transfer rejected for its short lock is not accepted later either,
  if the lock is below 2^63 seconds.)\<close>

theorem redelivery_changes_nothing:
  assumes "0 \<le> O_Now w" "O_Now w \<le> O_Now w'" "O_Now w' < 2 ^ 63 * second"
    and "\<And>ev. ParseEvent to_LogNewTransferOut evLogTransferOut eLog = Inr ev \<Longrightarrow>
      uint (LO_Timelock ev) < 2 ^ 63"
    and "p \<in> {monitorLogTransferOut env s bc eLog, monitorLogTransferIn s eLog,
      monitorLogConfirm eLog, monitorLogRefund eLog}"
  shows "after w' p (after w p T) = after w p T"
  using assms(5) out_redelivered [OF assms(1-4)] update_redelivered by blast

theorem redelivery_changes_nothing_witness:
  "after ex_pending (monitorLogTransferOut ex_env ex_server (ex_bridge 1) ex_log) ex_table = ex_table"
proof -
  have once: "after ex_outside (monitorLogTransferOut ex_env ex_server (ex_bridge 1) ex_log) [] = ex_table"
    by (simp add: after_def ex_receive)
  have "after ex_pending (monitorLogTransferOut ex_env ex_server (ex_bridge 1) ex_log)
      (after ex_outside (monitorLogTransferOut ex_env ex_server (ex_bridge 1) ex_log) []) =
    after ex_outside (monitorLogTransferOut ex_env ex_server (ex_bridge 1) ex_log) []"
    by (rule redelivery_changes_nothing [where eLog = ex_log])
      (auto simp: ex_parse ex_pending_status(2) ex_event_def)
  then show ?thesis by (simp only: once)
qed

section \<open>The course of a transfer\<close>

text \<open>C10: An accepted deposit is relayed and the node gets its money. In the surroundings
  \<open>relay_setting\<close> (the ids are new, the destination contract does not know the transfer when the
  send round runs, the gateway's fee is covered, an hour is left, and the event of the node's
  transaction comes back), if then the user's confirmation of the transfer in arrives, a confirm
  round finds the transfer out pending, and its confirmation arrives too, the node has submitted
  the payout less the fee and the confirmation with the revealed preimage, and both rows end
  confirmed, with the amounts that were paid, whatever other rows the table has.\<close>

theorem deposit_relayed_and_collected:
  assumes "relay_setting env s bc w outLog inLog T ev dstToken amount fee dst"
    and "SV_chainMap s (chain_uint64 bc) = Some src"
    and "ParseEvent to_LogTransferConfirmed evLogTransferConfirmed inConfirmed = Inr cev"
      "LC_TransferId cev = in_tid env ev"
    and "ParseEvent to_LogTransferConfirmed evLogTransferConfirmed outConfirmed = Inr fev"
      "LC_TransferId fev = LO_TransferId ev"
    and "typed_outside (w 4)" "seen_status (w 4) env src (LO_TransferId ev) = Some remoteTransferStatusPending"
  shows "let (T', es) = course (relaying env s bc w outLog inLog @ collecting env s w inConfirmed outConfirmed) T in
    submit (w 1) dst (payout_call bc (O_Now (w 0)) ev dstToken (amount - fee)) \<in> set es \<and>
    submit (w 4) src (CBridge_Confirm (LO_TransferId ev) (LC_Preimage cev)) \<in> set es \<and>
    (\<exists>r. find_row (in_tid env ev) T' = Some r \<and> Status r = TRANSFER_STATUS_CONFIRMED \<and>
       Amount r = amount - fee \<and> Fee r = fee) \<and>
    (\<exists>x. find_row (LO_TransferId ev) T' = Some x \<and> Status x = TRANSFER_STATUS_CONFIRMED \<and>
       Preimage x = LC_Preimage fev \<and> Amount x = LO_Amount ev)"
proof -
  note rows = relaying_rows [OF assms(1)]
  have "in_tid env ev \<noteq> LO_TransferId ev" using assms(1) by (simp add: relay_setting_def)
  note collected = collecting_rows [where env = env and s = s and w = w, OF rows(1-3) this _ _ _ _ assms(3-8)]
  show ?thesis
    using collected [simplified, OF assms(2)] rows(4) by (simp add: course_append emits_def)
qed

theorem deposit_relayed_and_collected_witness:
  "let (T', es) = course (relaying ex_env ex_server (ex_bridge 1) ex_times ex_log ex_in_log @
      collecting ex_env ex_server ex_times ex_paid_log ex_confirm_log) [] in
    submit ex_outside (ex_bridge 56) ex_call \<in> set es \<and>
    submit ex_pending (ex_bridge 1) (CBridge_Confirm 41 99) \<in> set es"
proof -
  have "SV_chainMap ex_server (chain_uint64 (ex_bridge 1)) = Some (ex_bridge 1)" by simp
  from deposit_relayed_and_collected [OF ex_relay_setting this ex_paid_parse ex_confirm_parse ex_times_pending]
  show ?thesis by (auto simp: ex_course_simps ex_call_def)
qed

text \<open>C11: If the user does not reveal the preimage, the node takes its payout back. In the same
  surroundings, if a refund round runs after the lock of the transfer in has expired, finds it pending on
  its chain and the transfer out not confirmed on the other, and the refund is seen, then the node
  has submitted the refund, the transfer in ends refunded, and the transfer out, which is the
  user's to refund, is as it was.\<close>

theorem deposit_relayed_and_refunded:
  assumes "relay_setting env s bc w outLog inLog T ev dstToken amount fee dst"
    and "SV_chainMap s (chain_uint64 bc) = Some src" "ins_relate_outs T"
    and "\<And>r. r \<in> set T \<Longrightarrow> TransferType r = TRANSFER_TYPE_IN \<Longrightarrow> RelatedTid r \<noteq> in_tid env ev"
    and "chain2TimeLock ev (O_Now (w 0)) < O_Now (w 3)"
    and "ParseEvent to_LogTransferRefunded evLogTransferRefunded inRefunded = Inr gev"
      "LR_TransferId gev = in_tid env ev"
    and "typed_outside (w 3)" "seen_status (w 3) env dst (in_tid env ev) = Some remoteTransferStatusPending"
      "seen_status (w 3) env src (LO_TransferId ev) = Some st" "st \<noteq> remoteTransferStatusConfirmed"
  shows "let (T', es) = course (relaying env s bc w outLog inLog @ refunding env s w inRefunded) T in
    submit (w 3) dst (CBridge_Refund (in_tid env ev)) \<in> set es \<and>
    (\<exists>r. find_row (in_tid env ev) T' = Some r \<and> Status r = TRANSFER_STATUS_REFUNDED \<and>
       Amount r = amount - fee \<and> Fee r = fee) \<and>
    find_row (LO_TransferId ev) T' = Some (taken_row env bc (O_Now (w 0)) outLog ev dstToken)"
proof -
  note rows = relaying_rows [OF assms(1)]
  have "in_tid env ev \<noteq> LO_TransferId ev" "SV_chainMap s (LO_DstChainId ev) = Some dst"
    using assms(1) by (simp_all add: relay_setting_def)
  with refunding_rows [OF rows(1) relaying_relates_outs [OF assms(1,3,4)] rows(2,3)] assms(2,5-11)
  show ?thesis by (simp add: course_append emits_def)
qed

theorem deposit_relayed_and_refunded_witness:
  "let (T', es) = course (relaying ex_env ex_server (ex_bridge 1) ex_times ex_log ex_in_log @
      refunding ex_env ex_server ex_times ex_refunded_log) [] in
    submit ex_pending (ex_bridge 56) (CBridge_Refund 42) \<in> set es"
proof -
  have src: "SV_chainMap ex_server (chain_uint64 (ex_bridge 1)) = Some (ex_bridge 1)" by simp
  have outs: "ins_relate_outs []" by (simp add: ins_relate_outs_def)
  from deposit_relayed_and_refunded [OF ex_relay_setting src outs _ ex_times_expired ex_refunded_parse
      ex_times_unsettled]
  show ?thesis by (auto simp: ex_course_simps ex_in_tid remote_status_defs)
qed

section \<open>From the start to the running node\<close>

text \<open>C16: A node that was started without an error on a configuration whose token decimals are at most
  64 never panics afterwards: in every state that its callbacks and loops reach, whatever the
  interleaving, no goroutine has divided by zero or met a mistyped value, as long as the contracts
  answer in their own types.\<close>

theorem started_node_never_panics:
  assumes "server_Init w env config ks pwdDir (NewServer v) = (InitOk, s, h0)"
    and "\<forall>cc\<in>set (CB_ChainConfig config). \<forall>tc\<in>set (CC_TokenConfig cc). TC_TokenDecimal tc \<le> 64"
    and "typed_answers A" "sys_reach A (node_programs env s) (T0, []) (T, ths)" "(h, p) \<in> set ths"
  shows "p \<noteq> Panic"
proof -
  have "decimals_hold (\<lambda>d. 0 < d \<and> d \<le> 64) s"
    by (rule start_maps(2) [OF assms(1)]) (use assms(2) in simp)
  then have d: "0 < unat d \<and> unat d \<le> 64" if "lookup2 (SV_chainTokenDecimalMap s) c a = Some d" for c a d
    using that by (fastforce simp: decimals_hold_def word_less_nat_alt word_le_nat_alt)
  have "decimals_close s"
    unfolding decimals_close_def
  proof (intro allI impI)
    fix c a sd c' a' dd
    assume "lookup2 (SV_chainTokenDecimalMap s) c a = Some sd" "lookup2 (SV_chainTokenDecimalMap s) c' a' = Some dd"
    from d [OF this(1)] d [OF this(2)] show "unat sd - unat dd < 64" by linarith
  qed
  with calmness.thread [OF assms(4,5)] assms(3) show ?thesis by auto
qed

theorem started_node_never_panics_witness:
  "processTrySendTransferIn start_env (start_result 1) \<noteq> Panic"
proof -
  have p: "processTrySendTransferIn start_env (start_result 1) \<in> node_programs start_env (start_result 1)"
    by (simp add: node_programs_on_def tickers)
  have r: "sys_reach ex_typed (node_programs start_env (start_result 1)) ([], [])
      ([], [] @ [([], processTrySendTransferIn start_env (start_result 1))])"
    by (rule sys_reach.step [OF sys_reach.refl sys_step.spawn [OF p]])
  show ?thesis
    by (rule started_node_never_panics [OF start_ok _ _ r])
      (auto simp: start_config_def typed_answers_def ex_typed_def)
qed

end
